(* ===== verification/RustStd.thy ===== *)
theory RustStd
  imports Prelude
begin

text \<open>
  The parts of Rust's standard library that the compiler calls on text: characters and their UTF-8
  length, number parsing and formatting, splitting, and the address parser behind
  \<open>str::parse::<Ipv6Addr>\<close>.
\<close>

section \<open>Characters\<close>

text \<open>
  A Rust \<open>char\<close> is a Unicode scalar value, modelled by its code point; a \<open>&str\<close> is the list of
  its characters. Text the lexer has already classified (words of ASCII letters, digits and
  punctuation) is an Isabelle \<open>string\<close>.
\<close>

type_synonym rchar = nat
type_synonym rstr = "rchar list"

definition ascii :: "string \<Rightarrow> rstr" where
  "ascii s = map of_char s"

definition is_scalar :: "rchar \<Rightarrow> bool" where
  "is_scalar c \<longleftrightarrow> c < 0xD800 \<or> 0xE000 \<le> c \<and> c < 0x110000"

text \<open>\<open>char::len_utf8\<close> and \<open>char::encode_utf8\<close>.\<close>

definition len_utf8 :: "rchar \<Rightarrow> nat" where
  "len_utf8 c = (if c < 0x80 then 1 else if c < 0x800 then 2 else if c < 0x10000 then 3 else 4)"

definition encode_utf8 :: "rchar \<Rightarrow> nat list" where
  "encode_utf8 c =
     (if c < 0x80 then [c]
      else if c < 0x800 then [0xC0 + c div 0x40, 0x80 + c mod 0x40]
      else if c < 0x10000 then
        [0xE0 + c div 0x1000, 0x80 + c div 0x40 mod 0x40, 0x80 + c mod 0x40]
      else
        [0xF0 + c div 0x40000, 0x80 + c div 0x1000 mod 0x40, 0x80 + c div 0x40 mod 0x40,
         0x80 + c mod 0x40])"

definition utf8 :: "rstr \<Rightarrow> nat list" where
  "utf8 s = concat (map encode_utf8 s)"

text \<open>\<open>str::len\<close>: the length in bytes.\<close>

fun str_len :: "rstr \<Rightarrow> nat" where
  "str_len [] = 0"
| "str_len (c # cs) = len_utf8 c + str_len cs"

lemma length_encode_utf8 [simp]: "length (encode_utf8 c) = len_utf8 c"
  by (simp add: encode_utf8_def len_utf8_def)

lemma length_utf8 [simp]: "length (utf8 s) = str_len s"
  by (induction s) (auto simp: utf8_def)

lemma utf8_append: "utf8 (s @ t) = utf8 s @ utf8 t"
  by (simp add: utf8_def)

lemma str_len_append [simp]: "str_len (s @ t) = str_len s + str_len t"
  by (induction s) auto

lemma len_utf8_pos [simp]: "0 < len_utf8 c"
  by (simp add: len_utf8_def)

lemma length_le_str_len: "length s \<le> str_len s"
proof (induction s)
  case (Cons c s)
  then show ?case by (simp add: len_utf8_def)
qed simp

text \<open>\<open>char::is_whitespace\<close> (Unicode \<open>White_Space\<close>) and \<open>char::is_ascii_alphanumeric\<close>.\<close>

definition is_whitespace :: "rchar \<Rightarrow> bool" where
  "is_whitespace c \<longleftrightarrow>
     9 \<le> c \<and> c \<le> 13 \<or> c = 0x20 \<or> c = 0x85 \<or> c = 0xA0 \<or> c = 0x1680 \<or>
     0x2000 \<le> c \<and> c \<le> 0x200A \<or> c = 0x2028 \<or> c = 0x2029 \<or> c = 0x202F \<or> c = 0x205F \<or> c = 0x3000"

definition is_ascii_alphanumeric :: "rchar \<Rightarrow> bool" where
  "is_ascii_alphanumeric c \<longleftrightarrow>
     48 \<le> c \<and> c \<le> 57 \<or> 65 \<le> c \<and> c \<le> 90 \<or> 97 \<le> c \<and> c \<le> 122"

section \<open>Parsing numbers\<close>

text \<open>\<open>char::to_digit\<close>.\<close>

definition to_digit :: "nat \<Rightarrow> char \<Rightarrow> nat option" where
  "to_digit radix c =
     (let n = of_char c :: nat;
          d = (if 48 \<le> n \<and> n \<le> 57 then n - 48
               else if 97 \<le> n \<and> n \<le> 122 then n - 87
               else if 65 \<le> n \<and> n \<le> 90 then n - 55
               else radix)
      in if d < radix then Some d else None)"

text \<open>
  \<open>from_str_radix\<close> of an unsigned type whose largest value is \<open>limit\<close>: an empty text or a lone
  sign is an error, one leading \<open>+\<close> is skipped, and every step is checked for a bad digit and for
  overflow (\<open>checked_mul\<close>, then \<open>checked_add\<close>).
\<close>

fun digits_value :: "nat \<Rightarrow> nat \<Rightarrow> nat \<Rightarrow> string \<Rightarrow> nat option" where
  "digits_value limit radix acc [] = Some acc"
| "digits_value limit radix acc (c # cs) =
     (case to_digit radix c of
        None \<Rightarrow> None
      | Some d \<Rightarrow>
          if limit < acc * radix then None
          else if limit < acc * radix + d then None
          else digits_value limit radix (acc * radix + d) cs)"

definition from_str_radix :: "nat \<Rightarrow> nat \<Rightarrow> string \<Rightarrow> nat option" where
  "from_str_radix limit radix s =
     (case s of
        [] \<Rightarrow> None
      | c # cs \<Rightarrow>
          if cs = [] \<and> (c = CHR ''+'' \<or> c = CHR ''-'') then None
          else if c = CHR ''+'' then digits_value limit radix 0 cs
          else digits_value limit radix 0 s)"

text \<open>\<open>str::parse\<close> for \<open>u8\<close> and \<open>u16\<close>, and the two hexadecimal readings the parser uses.\<close>

definition parse_u8 :: "string \<Rightarrow> u8 option" where
  "parse_u8 s = map_option of_nat (from_str_radix 255 10 s)"

definition parse_u16 :: "string \<Rightarrow> u16 option" where
  "parse_u16 s = map_option of_nat (from_str_radix 65535 10 s)"

definition u8_from_hex :: "string \<Rightarrow> u8 option" where
  "u8_from_hex s = map_option of_nat (from_str_radix 255 16 s)"

definition u16_from_hex :: "string \<Rightarrow> u16 option" where
  "u16_from_hex s = map_option of_nat (from_str_radix 65535 16 s)"

section \<open>Formatting numbers\<close>

definition digit_char :: "nat \<Rightarrow> char" where
  "digit_char d = char_of (if d < 10 then 48 + d else 87 + d)"

fun digits :: "nat \<Rightarrow> nat \<Rightarrow> string" where
  "digits b n =
     (if b < 2 \<or> n < b then [digit_char n] else digits b (n div b) @ [digit_char (n mod b)])"

declare digits.simps [simp del]

text \<open>\<open>{}\<close>, \<open>{:x}\<close>, \<open>{:03}\<close> and \<open>{:<w}\<close>.\<close>

definition show_dec :: "nat \<Rightarrow> string" where
  "show_dec n = digits 10 n"

definition show_hex :: "nat \<Rightarrow> string" where
  "show_hex n = digits 16 n"

definition pad_left :: "char \<Rightarrow> nat \<Rightarrow> string \<Rightarrow> string" where
  "pad_left c w s = replicate (w - length s) c @ s"

definition pad_right :: "nat \<Rightarrow> string \<Rightarrow> string" where
  "pad_right w s = s @ replicate (w - length s) CHR '' ''"

text \<open>Text in single quotes, as the messages print it.\<close>

definition quoted :: "string \<Rightarrow> string" where
  "quoted s = CHR 0x27 # s @ [CHR 0x27]"

section \<open>Splitting\<close>

text \<open>\<open>str::split\<close>, \<open>str::split_once\<close>, \<open>str::strip_prefix\<close>, \<open>str::contains\<close> and
  \<open>str::to_lowercase\<close> (on ASCII text).\<close>

fun split_char :: "char \<Rightarrow> string \<Rightarrow> string list" where
  "split_char d [] = [[]]"
| "split_char d (c # cs) =
     (if c = d then [] # split_char d cs
      else (case split_char d cs of [] \<Rightarrow> [[c]] | p # ps \<Rightarrow> (c # p) # ps))"

fun split_once :: "char \<Rightarrow> string \<Rightarrow> (string \<times> string) option" where
  "split_once d [] = None"
| "split_once d (c # cs) =
     (if c = d then Some ([], cs)
      else (case split_once d cs of None \<Rightarrow> None | Some (a, b) \<Rightarrow> Some (c # a, b)))"

fun strip_prefix :: "string \<Rightarrow> string \<Rightarrow> string option" where
  "strip_prefix [] s = Some s"
| "strip_prefix (p # ps) [] = None"
| "strip_prefix (p # ps) (c # cs) = (if p = c then strip_prefix ps cs else None)"

definition to_ascii_lower :: "char \<Rightarrow> char" where
  "to_ascii_lower c =
     (let n = of_char c :: nat in if 65 \<le> n \<and> n \<le> 90 then char_of (n + 32) else c)"

definition to_lowercase :: "string \<Rightarrow> string" where
  "to_lowercase s = map to_ascii_lower s"

section \<open>The address parser of \<open>core::net\<close>\<close>

text \<open>
  A reader consumes a prefix of the text or fails; a failed reader leaves the text where it was
  (\<open>read_atomically\<close>), so it is a function to an optional value and rest.
\<close>

type_synonym 'a reader = "string \<Rightarrow> ('a \<times> string) option"

fun read_given_char :: "char \<Rightarrow> unit reader" where
  "read_given_char c [] = None"
| "read_given_char c (x # xs) = (if x = c then Some ((), xs) else None)"

text \<open>
  \<open>read_number\<close> with a digit limit: the digits are taken greedily, one digit more than the limit is
  an error, and the value must fit the type (\<open>limit\<close>).
\<close>

fun read_digits :: "nat \<Rightarrow> nat \<Rightarrow> nat \<Rightarrow> nat \<Rightarrow> string \<Rightarrow> (nat \<times> nat \<times> string) option" where
  "read_digits radix max_digits count acc [] = Some (count, acc, [])"
| "read_digits radix max_digits count acc (c # cs) =
     (case to_digit radix c of
        None \<Rightarrow> Some (count, acc, c # cs)
      | Some d \<Rightarrow>
          if max_digits < count + 1 then None
          else read_digits radix max_digits (count + 1) (acc * radix + d) cs)"

definition read_number :: "nat \<Rightarrow> nat \<Rightarrow> nat \<Rightarrow> bool \<Rightarrow> nat reader" where
  "read_number limit radix max_digits allow_zero_prefix s =
     (let has_leading_zero = (case s of [] \<Rightarrow> False | c # _ \<Rightarrow> c = CHR ''0'') in
      case read_digits radix max_digits 0 0 s of
        None \<Rightarrow> None
      | Some (count, v, rest) \<Rightarrow>
          if count = 0 then None
          else if \<not> allow_zero_prefix \<and> has_leading_zero \<and> 1 < count then None
          else if limit < v then None
          else Some (v, rest))"

definition read_separator :: "char \<Rightarrow> nat \<Rightarrow> 'a reader \<Rightarrow> 'a reader" where
  "read_separator sep index inner s =
     (if index = 0 then inner s
      else (case read_given_char sep s of None \<Rightarrow> None | Some (_, rest) \<Rightarrow> inner rest))"

fun read_ipv4_octets :: "nat list \<Rightarrow> nat list reader" where
  "read_ipv4_octets [] s = Some ([], s)"
| "read_ipv4_octets (i # is) s =
     (case read_separator CHR ''.'' i (read_number 255 10 3 False) s of
        None \<Rightarrow> None
      | Some (v, rest) \<Rightarrow>
          (case read_ipv4_octets is rest of
             None \<Rightarrow> None
           | Some (vs, rest') \<Rightarrow> Some (v # vs, rest')))"

definition read_ipv4_addr :: "nat list reader" where
  "read_ipv4_addr = read_ipv4_octets [0, 1, 2, 3]"

text \<open>
  \<open>read_groups\<close>: colon-separated 16-bit groups from group \<open>i\<close> on, with room for \<open>limit\<close> groups and
  an optional dotted IPv4 tail that takes two of them. The result is the groups read, whether the
  IPv4 tail was one of them, and the rest.
\<close>

function read_groups :: "nat \<Rightarrow> nat \<Rightarrow> nat list \<Rightarrow> string \<Rightarrow> nat list \<times> bool \<times> string" where
  "read_groups limit i acc s =
     (if limit \<le> i then (acc, False, s)
      else
        (case (if i < limit - 1 then read_separator CHR '':'' i read_ipv4_addr s else None) of
           Some (v4, rest) \<Rightarrow> (acc @ [v4 ! 0 * 256 + v4 ! 1, v4 ! 2 * 256 + v4 ! 3], True, rest)
         | None \<Rightarrow>
             (case read_separator CHR '':'' i (read_number 65535 16 4 True) s of
                Some (g, rest) \<Rightarrow> read_groups limit (i + 1) (acc @ [g]) rest
              | None \<Rightarrow> (acc, False, s))))"
  by pat_completeness auto
termination
  by (relation "measure (\<lambda>(limit, i, acc, s). limit - i)") auto

declare read_groups.simps [simp del]

definition read_ipv6_addr :: "nat list reader" where
  "read_ipv6_addr s =
     (case read_groups 8 0 [] s of
        (head, head_ipv4, rest) \<Rightarrow>
          if length head = 8 then Some (head, rest)
          else if head_ipv4 then None
          else
            (case read_given_char CHR '':'' rest of
               None \<Rightarrow> None
             | Some (_, rest1) \<Rightarrow>
                 (case read_given_char CHR '':'' rest1 of
                    None \<Rightarrow> None
                  | Some (_, rest2) \<Rightarrow>
                      (case read_groups (8 - (length head + 1)) 0 [] rest2 of
                         (tail, _, rest3) \<Rightarrow>
                           Some (head @ replicate (8 - length head - length tail) 0 @ tail,
                                 rest3)))))"

text \<open>\<open>u128::from(Ipv6Addr)\<close>: the eight groups, most significant first.\<close>

definition u128_of_groups :: "nat list \<Rightarrow> u128" where
  "u128_of_groups gs = of_nat (foldl (\<lambda>acc g. acc * 65536 + g) 0 gs)"

definition parse_ipv6 :: "string \<Rightarrow> u128 option" where
  "parse_ipv6 s =
     (case read_ipv6_addr s of
        Some (gs, []) \<Rightarrow> Some (u128_of_groups gs)
      | _ \<Rightarrow> None)"

end
