(* ===== verification/Errors.thy ===== *)
theory Errors
  imports RustStd
begin

text \<open>
  \<open>src/error.rs\<close>: source offsets, the reasons a compilation fails, the error that carries both, and
  their \<open>Display\<close> text.
\<close>

text \<open>\<open>Offset = Range<usize>\<close>: a byte range \<open>start..end\<close> of the source.\<close>

datatype offset = Range (off_start: nat) (off_end: nat)

datatype error_tag =
    UnexpectedChar rchar
  | UnexpectedToken string string  \<comment> \<open>expected, found\<close>
  | UnexpectedEof string  \<comment> \<open>expected\<close>
  | UnknownKeyword string
  | InvalidIPv4Literal string
  | InvalidIPv6Literal string
  | InvalidMacLiteral string
  | InvalidEtherType string
  | InvalidPortNumber string
  | InvalidPortRange u32 u32  \<comment> \<open>lo, hi\<close>
  | UnbalancedParens
  | EmptyExpression
  | JumpDisplacementOverflow nat u32  \<comment> \<open>inst_index, displacement\<close>
  | UnsupportedLinkType
  | Unimplemented string
  | InvalidPrimitiveCombination string

record compile_error =
  err_offset :: offset
  err_tag :: error_tag

definition new_error :: "offset \<Rightarrow> error_tag \<Rightarrow> compile_error" where
  "new_error ofs tag = \<lparr>err_offset = ofs, err_tag = tag\<rparr>"

type_synonym 'a res = "(compile_error, 'a) result"

text \<open>
  \<open>impl Display for ErrorTag\<close>. The text is the UTF-8 encoding of what Rust writes: only
  \<open>UnexpectedChar\<close> can hold a character outside ASCII.
\<close>

fun show_error_tag :: "error_tag \<Rightarrow> string" where
  "show_error_tag (UnexpectedChar c) =
     ''unexpected character '' @ quoted (map char_of (encode_utf8 c))"
| "show_error_tag (UnexpectedToken expected found) =
     ''expected '' @ expected @ '', found '' @ quoted found"
| "show_error_tag (UnexpectedEof expected) = ''expected '' @ expected @ '', found end of input''"
| "show_error_tag (UnknownKeyword w) = ''unknown keyword '' @ quoted w"
| "show_error_tag (InvalidIPv4Literal t) =
     quoted t @ '' is not a valid IPv4 address or network''"
| "show_error_tag (InvalidIPv6Literal t) =
     quoted t @ '' is not a valid IPv6 address or network''"
| "show_error_tag (InvalidMacLiteral t) =
     quoted t @ '' is not a valid MAC address (expected xx:xx:xx:xx:xx:xx)''"
| "show_error_tag (InvalidEtherType t) =
     quoted t @ '' is not a valid ether proto name or ethertype number''"
| "show_error_tag (InvalidPortNumber t) =
     quoted t @ '' is not a valid port number''"
| "show_error_tag (InvalidPortRange lo hi) =
     ''invalid port range '' @ show_dec (unat lo) @ ''-'' @ show_dec (unat hi) @
     '': lower bound exceeds upper bound''"
| "show_error_tag UnbalancedParens = ''unbalanced parentheses''"
| "show_error_tag EmptyExpression = ''empty filter expression''"
| "show_error_tag (JumpDisplacementOverflow inst_index displacement) =
     ''jump at instruction '' @ show_dec inst_index @ '' has displacement '' @
     show_dec (unat displacement) @
     '', which exceeds the 8-bit cBPF jt/jf limit of 255; split the expression into a smaller one''"
| "show_error_tag UnsupportedLinkType = ''this link type has no support yet''"
| "show_error_tag (Unimplemented what) = what @ '' is not implemented yet''"
| "show_error_tag (InvalidPrimitiveCombination msg) = msg"

definition show_compile_error :: "compile_error \<Rightarrow> string" where
  "show_compile_error e =
     show_error_tag (err_tag e) @ '' (at '' @ show_dec (off_start (err_offset e)) @ ''..'' @
     show_dec (off_end (err_offset e)) @ '')''"

end
