(* ===== verification/Lexer.thy ===== *)
theory Lexer
  imports Errors
begin

text \<open>
  \<open>src/lexer.rs\<close>: the tokenizer. The loop over \<open>char_indices().peekable()\<close> is a recursion over the
  remaining characters with the byte position of the next one; the tokens pushed before an error are
  lost with it, so the recursion puts its token in front of what the rest gives.
\<close>

section \<open>Tokens\<close>

datatype token_tag = Word string | Dash | LParen | RParen | Eof

record token =
  tok_tag :: token_tag
  tok_offset :: offset

definition mk_token :: "token_tag \<Rightarrow> nat \<Rightarrow> nat \<Rightarrow> token" where
  "mk_token tag s e = \<lparr>tok_tag = tag, tok_offset = Range s e\<rparr>"

section \<open>The tokenizer\<close>

definition is_word_char :: "rchar \<Rightarrow> bool" where
  "is_word_char c \<longleftrightarrow>
     is_ascii_alphanumeric c \<or> c = of_char CHR ''.'' \<or> c = of_char CHR '':'' \<or> c = of_char CHR ''/''"

definition push_token :: "token \<Rightarrow> token list res \<Rightarrow> token list res" where
  "push_token t r = and_then r (\<lambda>ts. Ok (t # ts))"

text \<open>
  The inner loop that extends a word: from the byte just past what was read, the end of the maximal
  run of word characters, the run and the characters after it.
\<close>

fun scan_word :: "nat \<Rightarrow> rstr \<Rightarrow> nat \<times> rstr \<times> rstr" where
  "scan_word e [] = (e, [], [])"
| "scan_word e (c # cs) =
     (if is_word_char c
      then (case scan_word (e + len_utf8 c) cs of (e', w, rest) \<Rightarrow> (e', c # w, rest))
      else (e, [], c # cs))"

lemma scan_word_length: "scan_word e cs = (e', w, rest) \<Longrightarrow> length rest \<le> length cs"
  by (induction e cs arbitrary: e' w rest rule: scan_word.induct)
     (fastforce split: if_splits prod.splits)+

text \<open>
  One turn of the outer loop per equation branch, in the order of the code: white space is skipped,
  the one-character tokens, \<open>!\<close>, the doubled connectives, a word, and anything else is an error at its
  first byte.
\<close>

function lex_loop :: "nat \<Rightarrow> nat \<Rightarrow> rstr \<Rightarrow> token list res" where
  "lex_loop eof_at start [] = Ok [mk_token Eof eof_at eof_at]"
| "lex_loop eof_at start (c # cs) =
     (if is_whitespace c then lex_loop eof_at (start + len_utf8 c) cs
      else if c = of_char CHR ''('' then
        push_token (mk_token LParen start (start + 1)) (lex_loop eof_at (start + len_utf8 c) cs)
      else if c = of_char CHR '')'' then
        push_token (mk_token RParen start (start + 1)) (lex_loop eof_at (start + len_utf8 c) cs)
      else if c = of_char CHR ''-'' then
        push_token (mk_token Dash start (start + 1)) (lex_loop eof_at (start + len_utf8 c) cs)
      else if c = of_char CHR ''!'' then
        push_token (mk_token (Word ''not'') start (start + 1))
          (lex_loop eof_at (start + len_utf8 c) cs)
      else if c = of_char CHR ''&'' \<or> c = of_char CHR ''|'' then
        (case cs of
           [] \<Rightarrow> Err (new_error (Range start (start + 1)) (UnexpectedChar c))
         | next # cs' \<Rightarrow>
             if next = c then
               push_token
                 (mk_token (Word (if c = of_char CHR ''&'' then ''and'' else ''or''))
                    start (start + 2))
                 (lex_loop eof_at (start + 2) cs')
             else Err (new_error (Range start (start + 1)) (UnexpectedChar c)))
      else if is_word_char c then
        (case scan_word (start + len_utf8 c) cs of
           (e, w, rest) \<Rightarrow>
             push_token (mk_token (Word (map char_of (c # w))) start e) (lex_loop eof_at e rest))
      else Err (new_error (Range start (start + 1)) (UnexpectedChar c)))"
  by pat_completeness auto
termination
  by (relation "measure (\<lambda>(eof_at, start, cs). length cs)")
     (auto dest!: scan_word_length [OF sym])

definition lex :: "rstr \<Rightarrow> token list res" where
  "lex src = lex_loop (str_len src) 0 src"

end
