(* ===== verification/Ast.thy ===== *)
theory Ast
  imports Errors
begin

text \<open>
  \<open>src/ast.rs\<close>: the syntax tree of a filter expression, and the well-formedness that the parser
  establishes and the code generator relies on.
\<close>

datatype proto_tag = ProtoIp | ProtoIp6 | ProtoArp | ProtoTcp | ProtoUdp | ProtoIcmp

datatype dir_tag = Src | Dst

text \<open>An address literal holds its address in network order as one integer.\<close>

datatype addr_lit = V4 u32 | V6 u128

datatype prim_type =
    Host addr_lit
  | Net addr_lit "u8 option"
  | Port u16
  | PortRange u16 u16

record primitive =
  prim_proto :: "proto_tag option"
  prim_dir :: "dir_tag option"
  prim_ty :: prim_type
  prim_offset :: offset

text \<open>\<open>MacAddr([u8; 6])\<close>.\<close>

datatype mac_addr = MacAddr u8 u8 u8 u8 u8 u8

datatype ether_kind =
    EtherHost mac_addr "dir_tag option"
  | EtherProto u16
  | EtherBroadcast
  | EtherMulticast

record ether_primitive =
  ether_kind :: ether_kind
  ether_offset :: offset

datatype expr =
    EPrimitive primitive
  | EEther ether_primitive
  | ENot expr offset
  | EAnd expr expr offset
  | EOr expr expr offset

section \<open>Well-formed trees\<close>

text \<open>
  A prefix length fits its address family and a port range is not empty. The types of the code do
  not say so; the parser's checks do.
\<close>

fun full_width :: "addr_lit \<Rightarrow> nat" where
  "full_width (V4 a) = 32"
| "full_width (V6 a) = 128"

fun wf_type :: "prim_type \<Rightarrow> bool" where
  "wf_type (Host a) = True"
| "wf_type (Net a None) = True"
| "wf_type (Net a (Some n)) = (unat n \<le> full_width a)"
| "wf_type (Port p) = True"
| "wf_type (PortRange lo hi) = (lo \<le> hi)"

fun wf_expr :: "expr \<Rightarrow> bool" where
  "wf_expr (EPrimitive p) = wf_type (prim_ty p)"
| "wf_expr (EEther e) = True"
| "wf_expr (ENot e ofs) = wf_expr e"
| "wf_expr (EAnd l r ofs) = (wf_expr l \<and> wf_expr r)"
| "wf_expr (EOr l r ofs) = (wf_expr l \<and> wf_expr r)"

text \<open>The number of primitives of an expression.\<close>

fun expr_leaves :: "expr \<Rightarrow> nat" where
  "expr_leaves (EPrimitive p) = 1"
| "expr_leaves (EEther e) = 1"
| "expr_leaves (ENot e ofs) = expr_leaves e"
| "expr_leaves (EAnd l r ofs) = expr_leaves l + expr_leaves r"
| "expr_leaves (EOr l r ofs) = expr_leaves l + expr_leaves r"

end
