(* ===== verification/Parser.thy ===== *)
theory Parser
  imports Ast Lexer
begin

text \<open>
  \<open>src/parser.rs\<close>: literals and the recursive-descent parser. The parser's mutable position is
  passed and returned; an index out of the token slice is a panic. The recursion of the grammar is
  bounded by fuel, and the fuel that \<open>parse\<close> gives is proved to be enough for every token stream
  that ends in its only \<open>Eof\<close>.
\<close>

section \<open>Literals\<close>

definition parse_port :: "string \<Rightarrow> offset \<Rightarrow> u16 res" where
  "parse_port text ofs = ok_or (new_error ofs (InvalidPortNumber text)) (parse_u16 text)"

fun ipv4_octets_loop :: "nat \<Rightarrow> u8 list \<Rightarrow> string list \<Rightarrow> (nat \<times> u8 list) option" where
  "ipv4_octets_loop count octets [] = Some (count, octets)"
| "ipv4_octets_loop count octets (part # parts) =
     (if 4 \<le> count then None
      else
        (case parse_u16 part of
           None \<Rightarrow> None
         | Some v \<Rightarrow>
             if 255 < v then None
             else ipv4_octets_loop (count + 1) (octets[count := ucast v]) parts))"

definition parse_ipv4_octets :: "string \<Rightarrow> u32 option" where
  "parse_ipv4_octets text =
     (case ipv4_octets_loop 0 [0, 0, 0, 0] (split_char CHR ''.'' text) of
        None \<Rightarrow> None
      | Some (count, octets) \<Rightarrow>
          if count \<noteq> 4 then None
          else Some (u32_from_be_bytes (octets ! 0) (octets ! 1) (octets ! 2) (octets ! 3)))"

definition split_prefix :: "string \<Rightarrow> string \<times> string option" where
  "split_prefix text =
     (case split_once CHR ''/'' text of Some (a, p) \<Rightarrow> (a, Some p) | None \<Rightarrow> (text, None))"

fun parse_prefix :: "u8 \<Rightarrow> bool \<Rightarrow> compile_error \<Rightarrow> string option \<Rightarrow> u8 option res" where
  "parse_prefix limit allow_prefix invalid None = Ok None"
| "parse_prefix limit allow_prefix invalid (Some p) =
     (if allow_prefix
      then and_then (ok_or invalid (parse_u8 p))
             (\<lambda>n. if limit < n then Err invalid else Ok (Some n))
      else Err invalid)"

definition parse_ipv6_literal :: "string \<Rightarrow> offset \<Rightarrow> bool \<Rightarrow> (addr_lit \<times> u8 option) res" where
  "parse_ipv6_literal text ofs allow_prefix =
     (case split_prefix text of
        (addr_part, prefix_part) \<Rightarrow>
          (let invalid = new_error ofs (InvalidIPv6Literal text) in
           and_then (ok_or invalid (parse_ipv6 addr_part)) (\<lambda>addr.
           and_then (parse_prefix 128 allow_prefix invalid prefix_part) (\<lambda>prefix.
             Ok (V6 addr, prefix)))))"

definition parse_addr_literal :: "string \<Rightarrow> offset \<Rightarrow> bool \<Rightarrow> (addr_lit \<times> u8 option) res" where
  "parse_addr_literal text ofs allow_prefix =
     (if CHR '':'' \<in> set text then parse_ipv6_literal text ofs allow_prefix
      else
        (case split_prefix text of
           (addr_part, prefix_part) \<Rightarrow>
             (let invalid = new_error ofs (InvalidIPv4Literal text) in
              and_then (ok_or invalid (parse_ipv4_octets addr_part)) (\<lambda>addr.
              and_then (parse_prefix 32 allow_prefix invalid prefix_part) (\<lambda>prefix.
                Ok (V4 addr, prefix))))))"

fun mac_octets_loop :: "nat \<Rightarrow> u8 list \<Rightarrow> string list \<Rightarrow> (nat \<times> u8 list) option" where
  "mac_octets_loop count octets [] = Some (count, octets)"
| "mac_octets_loop count octets (part # parts) =
     (if 6 \<le> count \<or> length part \<noteq> 2 then None
      else
        (case u8_from_hex part of
           None \<Rightarrow> None
         | Some v \<Rightarrow> mac_octets_loop (count + 1) (octets[count := v]) parts))"

definition parse_mac_literal :: "string \<Rightarrow> offset \<Rightarrow> mac_addr res" where
  "parse_mac_literal text ofs =
     (let invalid = new_error ofs (InvalidMacLiteral text) in
      case mac_octets_loop 0 [0, 0, 0, 0, 0, 0] (split_char CHR '':'' text) of
        None \<Rightarrow> Err invalid
      | Some (count, m) \<Rightarrow>
          if count \<noteq> 6 then Err invalid
          else Ok (MacAddr (m ! 0) (m ! 1) (m ! 2) (m ! 3) (m ! 4) (m ! 5)))"

definition parse_ethertype :: "string \<Rightarrow> offset \<Rightarrow> u16 res" where
  "parse_ethertype text ofs =
     (let lower = to_lowercase text in
      if lower = ''ip'' then Ok 0x0800
      else if lower = ''ip6'' \<or> lower = ''ipv6'' then Ok 0x86dd
      else if lower = ''arp'' then Ok 0x0806
      else if lower = ''rarp'' then Ok 0x8035
      else
        ok_or (new_error ofs (InvalidEtherType text))
          (case strip_prefix ''0x'' text of
             Some hex \<Rightarrow> u16_from_hex hex
           | None \<Rightarrow>
               (case strip_prefix ''0X'' text of
                  Some hex \<Rightarrow> u16_from_hex hex
                | None \<Rightarrow> parse_u16 text)))"

section \<open>Token access\<close>

definition token_text :: "token \<Rightarrow> string" where
  "token_text t =
     (case tok_tag t of
        Word w \<Rightarrow> w
      | Dash \<Rightarrow> ''-''
      | LParen \<Rightarrow> ''(''
      | RParen \<Rightarrow> '')''
      | Eof \<Rightarrow> ''end of input'')"

fun offset_from_expr :: "expr \<Rightarrow> offset" where
  "offset_from_expr (EPrimitive p) = prim_offset p"
| "offset_from_expr (EEther e) = ether_offset e"
| "offset_from_expr (ENot e s) = s"
| "offset_from_expr (EAnd l r s) = s"
| "offset_from_expr (EOr l r s) = s"

definition peek :: "token list \<Rightarrow> nat \<Rightarrow> token res" where
  "peek toks pos = (case get toks pos of Some t \<Rightarrow> Ok t | None \<Rightarrow> Panic)"

definition advance :: "token list \<Rightarrow> nat \<Rightarrow> nat res" where
  "advance toks pos =
     (case get toks pos of
        Some t \<Rightarrow> Ok (if pos + 1 < length toks then pos + 1 else pos)
      | None \<Rightarrow> Panic)"

text \<open>\<open>self.tokens[self.pos.saturating_sub(1)].offset.end\<close>.\<close>

definition prev_end :: "token list \<Rightarrow> nat \<Rightarrow> nat res" where
  "prev_end toks pos =
     (case get toks (pos - 1) of Some t \<Rightarrow> Ok (off_end (tok_offset t)) | None \<Rightarrow> Panic)"

definition tag_word :: "token_tag \<Rightarrow> string option" where
  "tag_word tag = (case tag of Word w \<Rightarrow> Some w | _ \<Rightarrow> None)"

definition word_at :: "token list \<Rightarrow> nat \<Rightarrow> string option res" where
  "word_at toks pos = and_then (peek toks pos) (\<lambda>t. Ok (tag_word (tok_tag t)))"

definition expect_eof :: "token list \<Rightarrow> nat \<Rightarrow> unit res" where
  "expect_eof toks pos =
     and_then (peek toks pos) (\<lambda>t.
       if tok_tag t = Eof then Ok ()
       else
         Err (new_error (tok_offset t)
           (UnexpectedToken (quoted ''and'' @ '', '' @ quoted ''or'' @ '', or end of input'')
             (token_text t))))"

definition expect_word :: "string \<Rightarrow> token list \<Rightarrow> nat \<Rightarrow> ((string \<times> offset) \<times> nat) res" where
  "expect_word expected toks pos =
     and_then (peek toks pos) (\<lambda>t.
       case tok_tag t of
         Word w \<Rightarrow> and_then (advance toks pos) (\<lambda>pos'. Ok ((w, tok_offset t), pos'))
       | Eof \<Rightarrow> Err (new_error (tok_offset t) (UnexpectedEof expected))
       | _ \<Rightarrow> Err (new_error (tok_offset t) (UnexpectedToken expected (token_text t))))"

definition expect_dash :: "token list \<Rightarrow> nat \<Rightarrow> nat res" where
  "expect_dash toks pos =
     and_then (peek toks pos) (\<lambda>t.
       case tok_tag t of
         Dash \<Rightarrow> advance toks pos
       | Eof \<Rightarrow>
           Err (new_error (tok_offset t) (UnexpectedEof (quoted ''-'' @ '' in a port range'')))
       | _ \<Rightarrow>
           Err (new_error (tok_offset t)
             (UnexpectedToken (quoted ''-'' @ '' in a port range'') (token_text t))))"

section \<open>Primitives\<close>

definition proto_keyword :: "string \<Rightarrow> proto_tag option" where
  "proto_keyword w =
     (if w = ''ip'' then Some ProtoIp
      else if w = ''ip6'' then Some ProtoIp6
      else if w = ''arp'' then Some ProtoArp
      else if w = ''tcp'' then Some ProtoTcp
      else if w = ''udp'' then Some ProtoUdp
      else if w = ''icmp'' then Some ProtoIcmp
      else None)"

definition dir_keyword :: "string \<Rightarrow> dir_tag option" where
  "dir_keyword w =
     (if w = ''src'' then Some Src else if w = ''dst'' then Some Dst else None)"

text \<open>\<open>try_parse_proto\<close> and \<open>try_parse_dir\<close>: consume a keyword of the table, or nothing.\<close>

definition try_keyword ::
    "(string \<Rightarrow> 'a option) \<Rightarrow> token list \<Rightarrow> nat \<Rightarrow> ('a option \<times> nat) res" where
  "try_keyword table toks pos =
     and_then (word_at toks pos) (\<lambda>w.
       case w of
         None \<Rightarrow> Ok (None, pos)
       | Some s \<Rightarrow>
           (case table s of
              None \<Rightarrow> Ok (None, pos)
            | Some tag \<Rightarrow> and_then (advance toks pos) (\<lambda>pos'. Ok (Some tag, pos'))))"

definition try_parse_proto :: "token list \<Rightarrow> nat \<Rightarrow> (proto_tag option \<times> nat) res" where
  "try_parse_proto = try_keyword proto_keyword"

definition try_parse_dir :: "token list \<Rightarrow> nat \<Rightarrow> (dir_tag option \<times> nat) res" where
  "try_parse_dir = try_keyword dir_keyword"

definition try_consume_word :: "string \<Rightarrow> token list \<Rightarrow> nat \<Rightarrow> nat res" where
  "try_consume_word w toks pos =
     and_then (word_at toks pos) (\<lambda>v. if v = Some w then advance toks pos else Ok pos)"

definition parse_mac_operand ::
    "dir_tag option \<Rightarrow> token list \<Rightarrow> nat \<Rightarrow> (ether_kind \<times> nat) res" where
  "parse_mac_operand d toks pos =
     and_then (expect_word ''a MAC address'' toks pos) (\<lambda>((text, ofs), pos).
     and_then (parse_mac_literal text ofs) (\<lambda>mac. Ok (EtherHost mac d, pos)))"

definition ether_expected :: string where
  "ether_expected =
     quoted ''host'' @ '', '' @ quoted ''src'' @ '', '' @ quoted ''dst'' @ '', '' @ quoted ''proto'' @
     '', '' @ quoted ''broadcast'' @ '', or '' @ quoted ''multicast''"

definition parse_ether_kind ::
    "string \<Rightarrow> offset \<Rightarrow> token list \<Rightarrow> nat \<Rightarrow> (ether_kind \<times> nat) res" where
  "parse_ether_kind kw kw_offset toks pos =
     (if kw = ''host'' then parse_mac_operand None toks pos
      else if kw = ''src'' then
        and_then (try_consume_word ''host'' toks pos) (parse_mac_operand (Some Src) toks)
      else if kw = ''dst'' then
        and_then (try_consume_word ''host'' toks pos) (parse_mac_operand (Some Dst) toks)
      else if kw = ''proto'' then
        and_then (expect_word ''an ethertype name or number'' toks pos) (\<lambda>((text, ofs), pos).
        and_then (parse_ethertype text ofs) (\<lambda>et. Ok (EtherProto et, pos)))
      else if kw = ''broadcast'' then Ok (EtherBroadcast, pos)
      else if kw = ''multicast'' then Ok (EtherMulticast, pos)
      else Err (new_error kw_offset (UnexpectedToken ether_expected kw)))"

definition finish_ether ::
    "token list \<Rightarrow> nat \<Rightarrow> ether_kind \<times> nat \<Rightarrow> (ether_primitive \<times> nat) res" where
  "finish_ether toks start r =
     (case r of (kind, pos) \<Rightarrow>
        and_then (prev_end toks pos) (\<lambda>e.
          Ok (\<lparr>ether_kind = kind, ether_offset = Range start e\<rparr>, pos)))"

definition parse_ether_primitive :: "token list \<Rightarrow> nat \<Rightarrow> (ether_primitive \<times> nat) res" where
  "parse_ether_primitive toks pos =
     and_then (peek toks pos) (\<lambda>t.
       let start = off_start (tok_offset t) in
       and_then (word_at toks pos) (\<lambda>w.
         if w = Some ''broadcast'' then
           and_then (advance toks pos) (\<lambda>pos. finish_ether toks start (EtherBroadcast, pos))
         else if w = Some ''multicast'' then
           and_then (advance toks pos) (\<lambda>pos. finish_ether toks start (EtherMulticast, pos))
         else
           and_then (advance toks pos) (\<lambda>pos.
           and_then (expect_word ether_expected toks pos) (\<lambda>((kw, kw_offset), pos).
           and_then (parse_ether_kind kw kw_offset toks pos) (finish_ether toks start)))))"

definition type_expected :: string where
  "type_expected =
     quoted ''host'' @ '', '' @ quoted ''net'' @ '', '' @ quoted ''port'' @ '', or '' @
     quoted ''portrange''"

definition parse_portrange :: "nat \<Rightarrow> token list \<Rightarrow> nat \<Rightarrow> (prim_type \<times> nat) res" where
  "parse_portrange start toks pos =
     and_then (expect_word ''a port number'' toks pos) (\<lambda>((lo_text, lo_offset), pos).
     and_then (parse_port lo_text lo_offset) (\<lambda>lo.
     and_then (expect_dash toks pos) (\<lambda>pos.
     and_then (expect_word ''a port number'' toks pos) (\<lambda>((hi_text, hi_offset), pos).
     and_then (parse_port hi_text hi_offset) (\<lambda>hi.
       if hi < lo then
         Err (new_error (Range start (off_end hi_offset)) (InvalidPortRange (ucast lo) (ucast hi)))
       else Ok (PortRange lo hi, pos))))))"

definition parse_type ::
    "nat \<Rightarrow> string \<Rightarrow> offset \<Rightarrow> token list \<Rightarrow> nat \<Rightarrow> (prim_type \<times> nat) res" where
  "parse_type start ty_word ty_offset toks pos =
     (if ty_word = ''host'' then
        and_then (expect_word ''an address'' toks pos) (\<lambda>((text, ofs), pos).
        and_then (parse_addr_literal text ofs False) (\<lambda>(addr, prefix). Ok (Host addr, pos)))
      else if ty_word = ''net'' then
        and_then (expect_word ''a network address'' toks pos) (\<lambda>((text, ofs), pos).
        and_then (parse_addr_literal text ofs True) (\<lambda>(addr, prefix). Ok (Net addr prefix, pos)))
      else if ty_word = ''port'' then
        and_then (expect_word ''a port number'' toks pos) (\<lambda>((text, ofs), pos).
        and_then (parse_port text ofs) (\<lambda>p. Ok (Port p, pos)))
      else if ty_word = ''portrange'' then parse_portrange start toks pos
      else if ty_word = ''rarp'' \<or> ty_word = ''sctp'' then
        Err (new_error ty_offset (UnknownKeyword ty_word))
      else Err (new_error ty_offset (UnexpectedToken type_expected ty_word)))"

definition parse_primitive :: "token list \<Rightarrow> nat \<Rightarrow> (primitive \<times> nat) res" where
  "parse_primitive toks pos =
     and_then (peek toks pos) (\<lambda>t.
       let start = off_start (tok_offset t) in
       and_then (try_parse_proto toks pos) (\<lambda>(proto, pos).
       and_then (try_parse_dir toks pos) (\<lambda>(d, pos).
       and_then (expect_word type_expected toks pos) (\<lambda>((ty_word, ty_offset), pos).
       and_then (parse_type start ty_word ty_offset toks pos) (\<lambda>(ty, pos).
       and_then (prev_end toks pos) (\<lambda>e.
         Ok (\<lparr>prim_proto = proto, prim_dir = d, prim_ty = ty, prim_offset = Range start e\<rparr>,
             pos)))))))"

section \<open>Expressions\<close>

definition join_offset :: "expr \<Rightarrow> expr \<Rightarrow> offset" where
  "join_offset l r = Range (off_start (offset_from_expr l)) (off_end (offset_from_expr r))"

definition parse_leaf :: "token list \<Rightarrow> nat \<Rightarrow> string \<Rightarrow> (expr \<times> nat) res" where
  "parse_leaf toks pos w =
     (if w = ''ether'' \<or> w = ''broadcast'' \<or> w = ''multicast'' then
        and_then (parse_ether_primitive toks pos) (\<lambda>(e, pos). Ok (EEther e, pos))
      else and_then (parse_primitive toks pos) (\<lambda>(p, pos). Ok (EPrimitive p, pos)))"

text \<open>The \<open>while\<close> loops of \<open>parse_or\<close> and \<open>parse_and\<close> are the functions with \<open>loop\<close> in their name.\<close>

function (sequential) parse_or :: "nat \<Rightarrow> token list \<Rightarrow> nat \<Rightarrow> (expr \<times> nat) res"
  and parse_or_loop :: "nat \<Rightarrow> token list \<Rightarrow> expr \<Rightarrow> nat \<Rightarrow> (expr \<times> nat) res"
  and parse_and :: "nat \<Rightarrow> token list \<Rightarrow> nat \<Rightarrow> (expr \<times> nat) res"
  and parse_and_loop :: "nat \<Rightarrow> token list \<Rightarrow> expr \<Rightarrow> nat \<Rightarrow> (expr \<times> nat) res"
  and parse_unary :: "nat \<Rightarrow> token list \<Rightarrow> nat \<Rightarrow> (expr \<times> nat) res"
  and parse_primary :: "nat \<Rightarrow> token list \<Rightarrow> nat \<Rightarrow> (expr \<times> nat) res" where
  "parse_or 0 toks pos = Diverge"
| "parse_or (Suc n) toks pos =
     and_then (parse_and n toks pos) (\<lambda>(lhs, pos). parse_or_loop n toks lhs pos)"
| "parse_or_loop 0 toks lhs pos = Diverge"
| "parse_or_loop (Suc n) toks lhs pos =
     and_then (word_at toks pos) (\<lambda>w.
       if w = Some ''or'' then
         and_then (advance toks pos) (\<lambda>pos.
         and_then (parse_and n toks pos) (\<lambda>(rhs, pos).
           parse_or_loop n toks (EOr lhs rhs (join_offset lhs rhs)) pos))
       else Ok (lhs, pos))"
| "parse_and 0 toks pos = Diverge"
| "parse_and (Suc n) toks pos =
     and_then (parse_unary n toks pos) (\<lambda>(lhs, pos). parse_and_loop n toks lhs pos)"
| "parse_and_loop 0 toks lhs pos = Diverge"
| "parse_and_loop (Suc n) toks lhs pos =
     and_then (word_at toks pos) (\<lambda>w.
       if w = Some ''and'' then
         and_then (advance toks pos) (\<lambda>pos.
         and_then (parse_unary n toks pos) (\<lambda>(rhs, pos).
           parse_and_loop n toks (EAnd lhs rhs (join_offset lhs rhs)) pos))
       else Ok (lhs, pos))"
| "parse_unary 0 toks pos = Diverge"
| "parse_unary (Suc n) toks pos =
     and_then (word_at toks pos) (\<lambda>w.
       if w = Some ''not'' then
         and_then (peek toks pos) (\<lambda>t.
         and_then (advance toks pos) (\<lambda>pos.
         and_then (parse_unary n toks pos) (\<lambda>(inner, pos).
           Ok (ENot inner
                 (Range (off_start (tok_offset t)) (off_end (offset_from_expr inner))), pos))))
       else parse_primary n toks pos)"
| "parse_primary 0 toks pos = Diverge"
| "parse_primary (Suc n) toks pos =
     and_then (peek toks pos) (\<lambda>t.
       case tok_tag t of
         LParen \<Rightarrow>
           and_then (advance toks pos) (\<lambda>pos.
           and_then (parse_or n toks pos) (\<lambda>(inner, pos).
           and_then (peek toks pos) (\<lambda>t.
             if tok_tag t = RParen then and_then (advance toks pos) (\<lambda>pos. Ok (inner, pos))
             else Err (new_error (tok_offset t) UnbalancedParens))))
       | RParen \<Rightarrow> Err (new_error (tok_offset t) UnbalancedParens)
       | Word w \<Rightarrow> parse_leaf toks pos w
       | Eof \<Rightarrow> Err (new_error (tok_offset t) (UnexpectedEof ''an expression''))
       | Dash \<Rightarrow> Err (new_error (tok_offset t) (UnexpectedToken ''an expression'' (token_text t))))"
  by pat_completeness auto
termination
  by (relation "measure (\<lambda>s. case s of
        Inl (Inl (n, _, _)) \<Rightarrow> n | Inl (Inr (Inl (n, _, _, _))) \<Rightarrow> n
      | Inl (Inr (Inr (n, _, _))) \<Rightarrow> n | Inr (Inl (n, _, _, _)) \<Rightarrow> n
      | Inr (Inr (Inl (n, _, _))) \<Rightarrow> n | Inr (Inr (Inr (n, _, _))) \<Rightarrow> n)") auto

definition parse_fuel :: "token list \<Rightarrow> nat" where
  "parse_fuel toks = 4 * length toks + 4"

definition parse :: "token list \<Rightarrow> expr res" where
  "parse toks =
     (case toks of
        t # _ \<Rightarrow>
          if tok_tag t = Eof then Err (new_error (tok_offset t) EmptyExpression)
          else
            and_then (parse_or (parse_fuel toks) toks 0) (\<lambda>(e, pos).
            and_then (expect_eof toks pos) (\<lambda>_. Ok e))
      | [] \<Rightarrow> Panic)"

end
