(* ===== verification/Desugar.thy ===== *)
theory Desugar
  imports Ast
begin

text \<open>
  \<open>src/desugar.rs\<close>: default expansion. A primitive with its protocol or direction left out becomes
  the disjunction of the fully resolved primitives it stands for.
\<close>

section \<open>Expanded expressions\<close>

datatype compiled_proto = CIp | CIp6 | CArp | CRarp | CTcp | CUdp | CIcmp | CSctp

fun compiled_proto_from :: "proto_tag \<Rightarrow> compiled_proto" where
  "compiled_proto_from ProtoIp = CIp"
| "compiled_proto_from ProtoIp6 = CIp6"
| "compiled_proto_from ProtoArp = CArp"
| "compiled_proto_from ProtoTcp = CTcp"
| "compiled_proto_from ProtoUdp = CUdp"
| "compiled_proto_from ProtoIcmp = CIcmp"

record compiled_primitive =
  cp_proto :: compiled_proto
  cp_dir :: dir_tag
  cp_ty :: prim_type
  cp_offset :: offset

datatype expanded_expr =
    Leaf compiled_primitive
  | EtherLeaf ether_primitive
  | XNot expanded_expr
  | XAnd expanded_expr expanded_expr
  | XOr expanded_expr expanded_expr

section \<open>Expansion\<close>

definition default_protos :: "primitive \<Rightarrow> compiled_proto list" where
  "default_protos p =
     (case prim_proto p of
        Some proto \<Rightarrow> [compiled_proto_from proto]
      | None \<Rightarrow>
          (case prim_ty p of
             Host (V6 _) \<Rightarrow> [CIp6]
           | Net (V6 _) _ \<Rightarrow> [CIp6]
           | Host _ \<Rightarrow> [CIp, CArp, CRarp]
           | Net _ _ \<Rightarrow> [CIp, CArp, CRarp]
           | Port _ \<Rightarrow> [CTcp, CUdp, CSctp]
           | PortRange _ _ \<Rightarrow> [CTcp, CUdp, CSctp]))"

definition default_dirs :: "primitive \<Rightarrow> dir_tag list" where
  "default_dirs p = (case prim_dir p of Some d \<Rightarrow> [d] | None \<Rightarrow> [Src, Dst])"

definition mk_leaf :: "primitive \<Rightarrow> compiled_proto \<Rightarrow> dir_tag \<Rightarrow> expanded_expr" where
  "mk_leaf p proto d =
     Leaf \<lparr>cp_proto = proto, cp_dir = d, cp_ty = prim_ty p, cp_offset = prim_offset p\<rparr>"

text \<open>\<open>or_reduce\<close>: a left-leaning chain; an empty list is the \<open>expect\<close> of the code.\<close>

fun or_reduce :: "expanded_expr list \<Rightarrow> expanded_expr res" where
  "or_reduce [] = Panic"
| "or_reduce (e # es) = Ok (foldl XOr e es)"

definition primitive_leaves :: "primitive \<Rightarrow> expanded_expr list" where
  "primitive_leaves p =
     concat (map (\<lambda>proto. map (\<lambda>d. mk_leaf p proto d) (default_dirs p)) (default_protos p))"

definition expand_primitive :: "primitive \<Rightarrow> expanded_expr res" where
  "expand_primitive p = or_reduce (primitive_leaves p)"

fun expand :: "expr \<Rightarrow> expanded_expr res" where
  "expand (EPrimitive p) = expand_primitive p"
| "expand (EEther e) = Ok (EtherLeaf e)"
| "expand (ENot inner ofs) = and_then (expand inner) (\<lambda>i. Ok (XNot i))"
| "expand (EAnd l r ofs) = and_then (expand l) (\<lambda>l'. and_then (expand r) (\<lambda>r'. Ok (XAnd l' r')))"
| "expand (EOr l r ofs) = and_then (expand l) (\<lambda>l'. and_then (expand r) (\<lambda>r'. Ok (XOr l' r')))"

end
