(* ===== verification/Linktype.thy ===== *)
theory Linktype
  imports Prelude
begin

text \<open>\<open>src/linktype.rs\<close>: the link-layer framings, their registry numbers and header offsets.\<close>

datatype link_type = Ethernet | LinuxSll | Raw

definition from_dlt :: "u16 \<Rightarrow> link_type option" where
  "from_dlt v =
     (if v = 1 then Some Ethernet
      else if v = 101 then Some Raw
      else if v = 113 then Some LinuxSll
      else None)"

fun to_dlt :: "link_type \<Rightarrow> u16" where
  "to_dlt Ethernet = 1"
| "to_dlt Raw = 101"
| "to_dlt LinuxSll = 113"

record l3_info =
  info_ip_base :: u32
  info_ethertype_offset :: "u32 option"

fun l3_offset_info :: "link_type \<Rightarrow> l3_info" where
  "l3_offset_info Ethernet = \<lparr>info_ip_base = 14, info_ethertype_offset = Some 12\<rparr>"
| "l3_offset_info LinuxSll = \<lparr>info_ip_base = 16, info_ethertype_offset = Some 14\<rparr>"
| "l3_offset_info Raw = \<lparr>info_ip_base = 0, info_ethertype_offset = None\<rparr>"

text \<open>The two conversions are inverse to each other, on exactly the registered numbers.\<close>

lemma from_dlt_to_dlt: "from_dlt (to_dlt lt) = Some lt"
  by (cases lt) (simp_all add: from_dlt_def)

lemma to_dlt_from_dlt: "from_dlt v = Some lt \<longleftrightarrow> v = to_dlt lt"
  by (cases lt) (auto simp: from_dlt_def)

end
