(* ===== verification/Insn.thy ===== *)
theory Insn
  imports RustStd
begin

text \<open>
  \<open>src/insn.rs\<close>: the concrete instruction (\<open>struct sock_filter\<close>), its constructors, the decoder that
  the interpreter and the listing share, and the listing of one instruction.
\<close>

section \<open>Opcode fields\<close>

definition BPF_LD :: u16 where "BPF_LD = 0x00"
definition BPF_LDX :: u16 where "BPF_LDX = 0x01"
definition BPF_JMP :: u16 where "BPF_JMP = 0x05"
definition BPF_RET :: u16 where "BPF_RET = 0x06"
definition BPF_W :: u16 where "BPF_W = 0x00"
definition BPF_H :: u16 where "BPF_H = 0x08"
definition BPF_B :: u16 where "BPF_B = 0x10"
definition BPF_ABS :: u16 where "BPF_ABS = 0x20"
definition BPF_IND :: u16 where "BPF_IND = 0x40"
definition BPF_MSH :: u16 where "BPF_MSH = 0xa0"
definition BPF_JA :: u16 where "BPF_JA = 0x00"
definition BPF_JEQ :: u16 where "BPF_JEQ = 0x10"
definition BPF_JGT :: u16 where "BPF_JGT = 0x20"
definition BPF_JGE :: u16 where "BPF_JGE = 0x30"
definition BPF_JSET :: u16 where "BPF_JSET = 0x40"
definition BPF_ALU :: u16 where "BPF_ALU = 0x04"
definition BPF_AND :: u16 where "BPF_AND = 0x50"
definition BPF_K :: u16 where "BPF_K = 0x00"

lemmas bpf_fields =
  BPF_LD_def BPF_LDX_def BPF_JMP_def BPF_RET_def BPF_W_def BPF_H_def BPF_B_def BPF_ABS_def
  BPF_IND_def BPF_MSH_def BPF_JA_def BPF_JEQ_def BPF_JGT_def BPF_JGE_def BPF_JSET_def BPF_ALU_def
  BPF_AND_def BPF_K_def

definition KEEP_WHOLE_PACKET :: u32 where "KEEP_WHOLE_PACKET = 0xFFFFFFFF"

section \<open>Instructions\<close>

record insn =
  i_code :: u16
  i_jt :: u8
  i_jf :: u8
  i_k :: u32

definition mk_insn :: "u16 \<Rightarrow> u8 \<Rightarrow> u8 \<Rightarrow> u32 \<Rightarrow> insn" where
  "mk_insn c t f v = \<lparr>i_code = c, i_jt = t, i_jf = f, i_k = v\<rparr>"

definition ldh_abs :: "u32 \<Rightarrow> insn" where
  "ldh_abs v = mk_insn (BPF_LD OR BPF_H OR BPF_ABS) 0 0 v"

definition ldb_abs :: "u32 \<Rightarrow> insn" where
  "ldb_abs v = mk_insn (BPF_LD OR BPF_B OR BPF_ABS) 0 0 v"

definition ldw_abs :: "u32 \<Rightarrow> insn" where
  "ldw_abs v = mk_insn (BPF_LD OR BPF_W OR BPF_ABS) 0 0 v"

definition ldx_msh :: "u32 \<Rightarrow> insn" where
  "ldx_msh v = mk_insn (BPF_LDX OR BPF_B OR BPF_MSH) 0 0 v"

definition ldh_ind :: "u32 \<Rightarrow> insn" where
  "ldh_ind v = mk_insn (BPF_LD OR BPF_H OR BPF_IND) 0 0 v"

definition jeq :: "u32 \<Rightarrow> u8 \<Rightarrow> u8 \<Rightarrow> insn" where
  "jeq v t f = mk_insn (BPF_JMP OR BPF_JEQ OR BPF_K) t f v"

definition jgt :: "u32 \<Rightarrow> u8 \<Rightarrow> u8 \<Rightarrow> insn" where
  "jgt v t f = mk_insn (BPF_JMP OR BPF_JGT OR BPF_K) t f v"

definition jge :: "u32 \<Rightarrow> u8 \<Rightarrow> u8 \<Rightarrow> insn" where
  "jge v t f = mk_insn (BPF_JMP OR BPF_JGE OR BPF_K) t f v"

definition jset :: "u32 \<Rightarrow> u8 \<Rightarrow> u8 \<Rightarrow> insn" where
  "jset v t f = mk_insn (BPF_JMP OR BPF_JSET OR BPF_K) t f v"

definition jmp :: "u32 \<Rightarrow> insn" where
  "jmp v = mk_insn (BPF_JMP OR BPF_JA) 0 0 v"

definition ret :: "u32 \<Rightarrow> insn" where
  "ret v = mk_insn (BPF_RET OR BPF_K) 0 0 v"

definition and_k :: "u32 \<Rightarrow> insn" where
  "and_k v = mk_insn (BPF_ALU OR BPF_AND OR BPF_K) 0 0 v"

lemmas insn_constructors =
  ldh_abs_def ldb_abs_def ldw_abs_def ldx_msh_def ldh_ind_def jeq_def jgt_def jge_def jset_def
  jmp_def ret_def and_k_def

section \<open>Decoding\<close>

datatype op =
    LdhAbs u32 | LdbAbs u32 | LdwAbs u32 | LdhInd u32 | LdxMsh u32 | AluAndK u32
  | Ja u32 | Jeq u32 | Jgt u32 | Jge u32 | Jset u32 | Ret u32 | Unknown

definition decode :: "insn \<Rightarrow> op" where
  "decode i =
     (let c = i_code i in
      if c = BPF_LD OR BPF_H OR BPF_ABS then LdhAbs (i_k i)
      else if c = BPF_LD OR BPF_B OR BPF_ABS then LdbAbs (i_k i)
      else if c = BPF_LD OR BPF_W OR BPF_ABS then LdwAbs (i_k i)
      else if c = BPF_LD OR BPF_H OR BPF_IND then LdhInd (i_k i)
      else if c = BPF_LDX OR BPF_B OR BPF_MSH then LdxMsh (i_k i)
      else if c = BPF_ALU OR BPF_AND OR BPF_K then AluAndK (i_k i)
      else if c = BPF_JMP OR BPF_JA then Ja (i_k i)
      else if c = BPF_JMP OR BPF_JEQ OR BPF_K then Jeq (i_k i)
      else if c = BPF_JMP OR BPF_JGT OR BPF_K then Jgt (i_k i)
      else if c = BPF_JMP OR BPF_JGE OR BPF_K then Jge (i_k i)
      else if c = BPF_JMP OR BPF_JSET OR BPF_K then Jset (i_k i)
      else if c = BPF_RET OR BPF_K then Ret (i_k i)
      else Unknown)"

definition is_conditional_jump :: "insn \<Rightarrow> bool" where
  "is_conditional_jump i =
     (case decode i of
        Jeq _ \<Rightarrow> True | Jgt _ \<Rightarrow> True | Jge _ \<Rightarrow> True | Jset _ \<Rightarrow> True | _ \<Rightarrow> False)"

text \<open>Every constructor is decoded to its own operation.\<close>

lemma decode_constructors [simp]:
  "decode (ldh_abs v) = LdhAbs v"
  "decode (ldb_abs v) = LdbAbs v"
  "decode (ldw_abs v) = LdwAbs v"
  "decode (ldh_ind v) = LdhInd v"
  "decode (ldx_msh v) = LdxMsh v"
  "decode (and_k v) = AluAndK v"
  "decode (jmp v) = Ja v"
  "decode (jeq v t f) = Jeq v"
  "decode (jgt v t f) = Jgt v"
  "decode (jge v t f) = Jge v"
  "decode (jset v t f) = Jset v"
  "decode (ret v) = Ret v"
  by (simp_all add: decode_def insn_constructors mk_insn_def bpf_fields)

lemma branch_fields [simp]:
  "i_jt (jeq v t f) = t" "i_jf (jeq v t f) = f"
  "i_jt (jgt v t f) = t" "i_jf (jgt v t f) = f"
  "i_jt (jge v t f) = t" "i_jf (jge v t f) = f"
  "i_jt (jset v t f) = t" "i_jf (jset v t f) = f"
  by (simp_all add: insn_constructors mk_insn_def)

section \<open>Listing\<close>

definition describe :: "insn \<Rightarrow> nat \<Rightarrow> string \<times> string" where
  "describe i index =
     (case decode i of
        LdhAbs v \<Rightarrow> (''ldh'', ''['' @ show_dec (unat v) @ '']'')
      | LdbAbs v \<Rightarrow> (''ldb'', ''['' @ show_dec (unat v) @ '']'')
      | LdwAbs v \<Rightarrow> (''ld'', ''['' @ show_dec (unat v) @ '']'')
      | LdhInd v \<Rightarrow> (''ldh'', ''[x + '' @ show_dec (unat v) @ '']'')
      | LdxMsh v \<Rightarrow> (''ldxb'', ''4*(['' @ show_dec (unat v) @ '']&0xf)'')
      | AluAndK v \<Rightarrow> (''and'', ''#0x'' @ show_hex (unat v))
      | Ja v \<Rightarrow> (''ja'', show_dec (index + 1 + unat v))
      | Jeq v \<Rightarrow> (''jeq'', ''#0x'' @ show_hex (unat v))
      | Jgt v \<Rightarrow> (''jgt'', ''#0x'' @ show_hex (unat v))
      | Jge v \<Rightarrow> (''jge'', ''#0x'' @ show_hex (unat v))
      | Jset v \<Rightarrow> (''jset'', ''#0x'' @ show_hex (unat v))
      | Ret v \<Rightarrow> (''ret'', ''#0x'' @ show_hex (unat v))
      | Unknown \<Rightarrow> (''unimp'', ''0x'' @ show_hex (unat (i_code i))))"

definition fmt_insn :: "insn \<Rightarrow> nat \<Rightarrow> string" where
  "fmt_insn i index =
     (case describe i index of
        (mnemonic, operand) \<Rightarrow>
          if is_conditional_jump i then
            ''('' @ pad_left CHR ''0'' 3 (show_dec index) @ '') '' @ pad_right 8 mnemonic @ '' '' @
            pad_right 16 operand @ '' jt '' @ show_dec (index + 1 + unat (i_jt i)) @ [CHR 0x09] @
            ''jf '' @ show_dec (index + 1 + unat (i_jf i))
          else
            ''('' @ pad_left CHR ''0'' 3 (show_dec index) @ '') '' @ pad_right 8 mnemonic @ '' '' @
            operand)"

end
