(* ===== verification/Vm.thy ===== *)
theory Vm
  imports Insn
begin

text \<open>
  \<open>src/vm.rs\<close>: the interpreter. The body of its loop is a step function on the registers and the
  program counter; the loop itself is total, because every step that does not return moves the
  program counter forward.
\<close>

section \<open>Reading the packet\<close>

definition read_u8 :: "packet \<Rightarrow> nat \<Rightarrow> u32 option" where
  "read_u8 packet offset = map_option ucast (get packet offset)"

definition read_u16 :: "packet \<Rightarrow> nat \<Rightarrow> u32 option" where
  "read_u16 packet offset =
     (case checked_add offset 2 of
        None \<Rightarrow> None
      | Some e \<Rightarrow>
          (case get_range packet offset e of
             None \<Rightarrow> None
           | Some bytes \<Rightarrow> Some (ucast (u16_from_be_bytes (bytes ! 0) (bytes ! 1)))))"

definition read_u32 :: "packet \<Rightarrow> nat \<Rightarrow> u32 option" where
  "read_u32 packet offset =
     (case checked_add offset 4 of
        None \<Rightarrow> None
      | Some e \<Rightarrow>
          (case get_range packet offset e of
             None \<Rightarrow> None
           | Some bytes \<Rightarrow>
               Some (u32_from_be_bytes (bytes ! 0) (bytes ! 1) (bytes ! 2) (bytes ! 3))))"

section \<open>One turn of the loop\<close>

record vm_state =
  reg_a :: u32
  reg_x :: u32
  reg_pc :: nat

datatype vm_result = Continue vm_state | Return u32

definition vm_init :: vm_state where
  "vm_init = \<lparr>reg_a = 0, reg_x = 0, reg_pc = 0\<rparr>"

definition branch :: "nat \<Rightarrow> insn \<Rightarrow> bool \<Rightarrow> nat" where
  "branch pc i taken = pc + 1 + unat (if taken then i_jt i else i_jf i)"

definition step :: "nat \<Rightarrow> u32 \<Rightarrow> nat option" where
  "step pc d = checked_add (pc + 1) (unat d)"

text \<open>
  The loads, the mask and the end of the loop body (\<open>pc += 1\<close>) for an instruction that is not a
  jump: \<open>load\<close> stores a value that was read, or rejects.
\<close>

definition load_a :: "vm_state \<Rightarrow> u32 option \<Rightarrow> vm_result" where
  "load_a s v =
     (case v of
        None \<Rightarrow> Return 0
      | Some a \<Rightarrow> Continue (s\<lparr>reg_a := a, reg_pc := reg_pc s + 1\<rparr>))"

definition vm_step :: "insn list \<Rightarrow> packet \<Rightarrow> vm_state \<Rightarrow> vm_result" where
  "vm_step insns packet s =
     (case get insns (reg_pc s) of
        None \<Rightarrow> Return 0
      | Some i \<Rightarrow>
          (case decode i of
             LdhAbs v \<Rightarrow> load_a s (read_u16 packet (unat v))
           | LdbAbs v \<Rightarrow> load_a s (read_u8 packet (unat v))
           | LdhInd v \<Rightarrow>
               (case checked_add (unat (reg_x s)) (unat v) of
                  None \<Rightarrow> Return 0
                | Some offset \<Rightarrow> load_a s (read_u16 packet offset))
           | LdwAbs v \<Rightarrow> load_a s (read_u32 packet (unat v))
           | LdxMsh v \<Rightarrow>
               (case read_u8 packet (unat v) of
                  Some byte \<Rightarrow>
                    Continue (s\<lparr>reg_x := (byte AND 0x0f) * 4, reg_pc := reg_pc s + 1\<rparr>)
                | None \<Rightarrow> Return 0)
           | AluAndK v \<Rightarrow> Continue (s\<lparr>reg_a := reg_a s AND v, reg_pc := reg_pc s + 1\<rparr>)
           | Ja v \<Rightarrow>
               (case step (reg_pc s) v of
                  Some pc' \<Rightarrow> Continue (s\<lparr>reg_pc := pc'\<rparr>)
                | None \<Rightarrow> Return 0)
           | Jeq v \<Rightarrow> Continue (s\<lparr>reg_pc := branch (reg_pc s) i (reg_a s = v)\<rparr>)
           | Jgt v \<Rightarrow> Continue (s\<lparr>reg_pc := branch (reg_pc s) i (v < reg_a s)\<rparr>)
           | Jge v \<Rightarrow> Continue (s\<lparr>reg_pc := branch (reg_pc s) i (v \<le> reg_a s)\<rparr>)
           | Jset v \<Rightarrow> Continue (s\<lparr>reg_pc := branch (reg_pc s) i (reg_a s AND v \<noteq> 0)\<rparr>)
           | Ret v \<Rightarrow> Return v
           | Unknown \<Rightarrow> Return 0))"

section \<open>The loop\<close>

text \<open>Progress: a step that goes on started inside the program and moved forward.\<close>

lemma vm_step_forward:
  assumes "vm_step insns packet s = Continue s'"
  shows "reg_pc s < length insns" and "reg_pc s < reg_pc s'"
proof -
  show "reg_pc s < length insns"
    using assms by (auto simp: vm_step_def get_def split: if_splits)
  show "reg_pc s < reg_pc s'"
    using assms
    by (auto simp: vm_step_def get_def load_a_def branch_def step_def checked_add_def
          split: if_splits op.splits option.splits)
qed

function vm_loop :: "insn list \<Rightarrow> packet \<Rightarrow> vm_state \<Rightarrow> u32" where
  "vm_loop insns packet s =
     (case vm_step insns packet s of
        Return v \<Rightarrow> v
      | Continue s' \<Rightarrow> vm_loop insns packet s')"
  by pat_completeness auto
termination
  by (relation "measure (\<lambda>(insns, packet, s). length insns - reg_pc s)")
     (auto intro: diff_less_mono2 dest: vm_step_forward)

declare vm_loop.simps [simp del]

definition run :: "insn list \<Rightarrow> packet \<Rightarrow> u32" where
  "run insns packet = vm_loop insns packet vm_init"

end
