(* ===== verification/Irep.thy ===== *)
theory Irep
  imports Errors
begin

text \<open>
  \<open>src/irep.rs\<close>: the intermediate representation with symbolic jump targets, its builder, and the
  meaning of a stretch of it.
\<close>

section \<open>Representation\<close>

text \<open>
  A label is a counter value. The code counts in \<open>u32\<close>; the counter here is a natural number, and
  the code generator's cost theorem bounds it far below \<open>2^32\<close> for every source that fits memory.
\<close>

datatype label = Label nat

primrec label_index :: "label \<Rightarrow> nat" where
  "label_index (Label n) = n"

lemma label_index_eq: "l = m \<longleftrightarrow> label_index l = label_index m"
  by (cases l; cases m) simp

datatype ir_op2 =
    IrLdhAbs u32 | IrLdbAbs u32 | IrLdwAbs u32 | IrLdxMsh u32 | IrLdhInd u32 | IrAndK u32
  | IrJeq u32 label label | IrJgt u32 label label | IrJge u32 label label | IrJset u32 label label
  | IrJmp label | IrRet u32

record ir_insn =
  ir_op2 :: ir_op2
  ir_offset :: offset

datatype ir_op = Real ir_insn | Mark label

record ir_builder =
  stream :: "ir_op list"
  num_labels :: nat

definition new_builder :: ir_builder where
  "new_builder = \<lparr>stream = [], num_labels = 0\<rparr>"

definition new_label :: "ir_builder \<Rightarrow> label \<times> ir_builder" where
  "new_label b = (Label (num_labels b), b\<lparr>num_labels := num_labels b + 1\<rparr>)"

definition place :: "label \<Rightarrow> ir_builder \<Rightarrow> ir_builder" where
  "place l b = b\<lparr>stream := stream b @ [Mark l]\<rparr>"

definition emit :: "ir_op2 \<Rightarrow> offset \<Rightarrow> ir_builder \<Rightarrow> ir_builder" where
  "emit op ofs b = b\<lparr>stream := stream b @ [Real \<lparr>ir_op2 = op, ir_offset = ofs\<rparr>]\<rparr>"

record ir_program =
  prog_stream :: "ir_op list"
  prog_num_labels :: nat

definition finish :: "ir_builder \<Rightarrow> ir_program" where
  "finish b = \<lparr>prog_stream = stream b, prog_num_labels = num_labels b\<rparr>"

lemma builder_fields [simp]:
  "stream (place l b) = stream b @ [Mark l]"
  "num_labels (place l b) = num_labels b"
  "stream (emit op ofs b) = stream b @ [Real \<lparr>ir_op2 = op, ir_offset = ofs\<rparr>]"
  "num_labels (emit op ofs b) = num_labels b"
  "stream new_builder = []"
  "num_labels new_builder = 0"
  "prog_stream (finish b) = stream b"
  "prog_num_labels (finish b) = num_labels b"
  by (simp_all add: place_def emit_def new_builder_def finish_def)

lemma new_label_eq [simp]:
  "fst (new_label b) = Label (num_labels b)"
  "stream (snd (new_label b)) = stream b"
  "num_labels (snd (new_label b)) = num_labels b + 1"
  by (simp_all add: new_label_def)

instantiation label :: linorder
begin

definition less_eq_label :: "label \<Rightarrow> label \<Rightarrow> bool" where
  "less_eq_label l m \<longleftrightarrow> label_index l \<le> label_index m"

definition less_label :: "label \<Rightarrow> label \<Rightarrow> bool" where
  "less_label l m \<longleftrightarrow> label_index l < label_index m"

instance
proof
  fix l m n :: label
  show "l < m \<longleftrightarrow> l \<le> m \<and> \<not> m \<le> l"
    by (auto simp: less_eq_label_def less_label_def)
  show "l \<le> l" by (simp add: less_eq_label_def)
  show "l \<le> m \<Longrightarrow> m \<le> n \<Longrightarrow> l \<le> n" by (simp add: less_eq_label_def)
  show "l \<le> m \<Longrightarrow> m \<le> l \<Longrightarrow> l = m"
    by (cases l; cases m) (simp add: less_eq_label_def)
  show "l \<le> m \<or> m \<le> l" by (auto simp: less_eq_label_def)
qed

end

lemma label_order [simp]:
  "Label m \<le> Label n \<longleftrightarrow> m \<le> n"
  "Label m < Label n \<longleftrightarrow> m < n"
  by (simp_all add: less_eq_label_def less_label_def)

end
