(* ===== verification/Backpatch.thy ===== *)
theory Backpatch
  imports Irep Insn
begin

text \<open>\<open>src/backpatch.rs\<close>: the two-pass assembler from symbolic labels to displacements.\<close>

section \<open>Pass A: label offsets\<close>

text \<open>
  The loop over the stream: the table of label offsets (an index out of the table is a panic) and
  the real instructions so far. \<open>real.len() as u32\<close> keeps the low 32 bits.
\<close>

fun pass_a :: "ir_op list \<Rightarrow> u32 option list \<Rightarrow> ir_insn list \<Rightarrow>
    (u32 option list \<times> ir_insn list) res" where
  "pass_a [] offsets real = Ok (offsets, real)"
| "pass_a (Mark l # ops) offsets real =
     (if label_index l < length offsets
      then pass_a ops (offsets[label_index l := Some (of_nat (length real))]) real
      else Panic)"
| "pass_a (Real i # ops) offsets real = pass_a ops offsets (real @ [i])"

section \<open>Pass B: lowering\<close>

text \<open>
  \<open>displacement_from\<close>: the target must have been placed (\<open>expect\<close>) and must not lie behind
  (\<open>debug_assert!\<close>, and the subtraction that would underflow).
\<close>

definition displacement_from :: "nat \<Rightarrow> label \<Rightarrow> u32 option list \<Rightarrow> nat res" where
  "displacement_from idx l offsets =
     (case get offsets (label_index l) of
        None \<Rightarrow> Panic
      | Some None \<Rightarrow> Panic
      | Some (Some t) \<Rightarrow>
          (let target = unat t; next = idx + 1
           in if next \<le> target then Ok (target - next) else Panic))"

definition resolve_branch :: "nat \<Rightarrow> label \<Rightarrow> u32 option list \<Rightarrow> offset \<Rightarrow> u8 res" where
  "resolve_branch idx l offsets ofs =
     and_then (displacement_from idx l offsets)
       (\<lambda>displacement.
          if displacement < 256 then Ok (of_nat displacement)
          else Err (new_error ofs (JumpDisplacementOverflow idx (of_nat displacement))))"

definition resolve_jmp :: "nat \<Rightarrow> label \<Rightarrow> u32 option list \<Rightarrow> u32 res" where
  "resolve_jmp idx l offsets =
     and_then (displacement_from idx l offsets) (\<lambda>displacement. Ok (of_nat displacement))"

definition resolve_pair ::
    "nat \<Rightarrow> label \<Rightarrow> label \<Rightarrow> u32 option list \<Rightarrow> offset \<Rightarrow> (u8 \<Rightarrow> u8 \<Rightarrow> insn) \<Rightarrow> insn res" where
  "resolve_pair idx t f offsets ofs mk =
     and_then (resolve_branch idx t offsets ofs)
       (\<lambda>dt. and_then (resolve_branch idx f offsets ofs) (\<lambda>df. Ok (mk dt df)))"

definition lower :: "nat \<Rightarrow> ir_insn \<Rightarrow> u32 option list \<Rightarrow> insn res" where
  "lower idx i offsets =
     (case ir_op2 i of
        IrLdhAbs v \<Rightarrow> Ok (ldh_abs v)
      | IrLdbAbs v \<Rightarrow> Ok (ldb_abs v)
      | IrLdwAbs v \<Rightarrow> Ok (ldw_abs v)
      | IrLdxMsh v \<Rightarrow> Ok (ldx_msh v)
      | IrLdhInd v \<Rightarrow> Ok (ldh_ind v)
      | IrAndK v \<Rightarrow> Ok (and_k v)
      | IrJeq imm t f \<Rightarrow> resolve_pair idx t f offsets (ir_offset i) (jeq imm)
      | IrJgt imm t f \<Rightarrow> resolve_pair idx t f offsets (ir_offset i) (jgt imm)
      | IrJge imm t f \<Rightarrow> resolve_pair idx t f offsets (ir_offset i) (jge imm)
      | IrJset imm t f \<Rightarrow> resolve_pair idx t f offsets (ir_offset i) (jset imm)
      | IrJmp target \<Rightarrow> and_then (resolve_jmp idx target offsets) (\<lambda>d. Ok (jmp d))
      | IrRet v \<Rightarrow> Ok (ret v))"

text \<open>The collected \<open>map\<close> over the enumerated instructions: the first error ends it.\<close>

fun pass_b :: "nat \<Rightarrow> ir_insn list \<Rightarrow> u32 option list \<Rightarrow> insn list res" where
  "pass_b idx [] offsets = Ok []"
| "pass_b idx (i # is) offsets =
     and_then (lower idx i offsets)
       (\<lambda>i'. and_then (pass_b (idx + 1) is offsets) (\<lambda>is'. Ok (i' # is')))"

definition assemble :: "ir_program \<Rightarrow> insn list res" where
  "assemble p =
     and_then (pass_a (prog_stream p) (replicate (prog_num_labels p) None) [])
       (\<lambda>(offsets, real). pass_b 0 real offsets)"

end
