(* ===== verification/Codegen.thy ===== *)
theory Codegen
  imports Desugar Irep Linktype
begin

text \<open>
  \<open>src/codegen.rs\<close>: code generation in continuation-passing style. The mutable builder inside the
  code's \<open>Ctx\<close> is threaded through every function; the read-only rest of \<open>Ctx\<close> is a record.
\<close>

section \<open>Constants\<close>

definition ETH_TYPE_IP :: u32 where "ETH_TYPE_IP = 0x0800"
definition ETH_TYPE_ARP :: u32 where "ETH_TYPE_ARP = 0x0806"
definition ETH_TYPE_RARP :: u32 where "ETH_TYPE_RARP = 0x8035"
definition ETH_TYPE_IPV6 :: u32 where "ETH_TYPE_IPV6 = 0x86dd"
definition IP_PROTO_ICMP :: u32 where "IP_PROTO_ICMP = 1"
definition IP_PROTO_TCP :: u32 where "IP_PROTO_TCP = 6"
definition IP_PROTO_UDP :: u32 where "IP_PROTO_UDP = 17"
definition IP_PROTO_SCTP :: u32 where "IP_PROTO_SCTP = 132"
definition IP_FLAGS_FRAG_OFFSET :: u32 where "IP_FLAGS_FRAG_OFFSET = 6"
definition IP_PROTO_OFFSET :: u32 where "IP_PROTO_OFFSET = 9"
definition IP_SRC_OFFSET :: u32 where "IP_SRC_OFFSET = 12"
definition IP_DST_OFFSET :: u32 where "IP_DST_OFFSET = 16"
definition FRAG_MASK :: u32 where "FRAG_MASK = 0x1fff"
definition IP6_SRC_OFFSET :: u32 where "IP6_SRC_OFFSET = 8"
definition IP6_DST_OFFSET :: u32 where "IP6_DST_OFFSET = 24"
definition IP6_NEXTHDR_OFFSET :: u32 where "IP6_NEXTHDR_OFFSET = 6"
definition IP6_HEADER_LEN :: u32 where "IP6_HEADER_LEN = 40"
definition ARP_SENDER_PA_OFFSET :: u32 where "ARP_SENDER_PA_OFFSET = 14"
definition ARP_TARGET_PA_OFFSET :: u32 where "ARP_TARGET_PA_OFFSET = 24"
definition ETH_DST_MAC_OFFSET :: u32 where "ETH_DST_MAC_OFFSET = 0"
definition ETH_SRC_MAC_OFFSET :: u32 where "ETH_SRC_MAC_OFFSET = 6"
definition ETH_MAC_BROADCAST :: mac_addr where
  "ETH_MAC_BROADCAST = MacAddr 0xff 0xff 0xff 0xff 0xff 0xff"
definition PORT_SRC_REL :: u32 where "PORT_SRC_REL = 0"
definition PORT_DST_REL :: u32 where "PORT_DST_REL = 2"

lemmas codegen_constants =
  ETH_TYPE_IP_def ETH_TYPE_ARP_def ETH_TYPE_RARP_def ETH_TYPE_IPV6_def IP_PROTO_ICMP_def
  IP_PROTO_TCP_def IP_PROTO_UDP_def IP_PROTO_SCTP_def IP_FLAGS_FRAG_OFFSET_def IP_PROTO_OFFSET_def
  IP_SRC_OFFSET_def IP_DST_OFFSET_def FRAG_MASK_def IP6_SRC_OFFSET_def IP6_DST_OFFSET_def
  IP6_NEXTHDR_OFFSET_def IP6_HEADER_LEN_def ARP_SENDER_PA_OFFSET_def ARP_TARGET_PA_OFFSET_def
  ETH_DST_MAC_OFFSET_def ETH_SRC_MAC_OFFSET_def ETH_MAC_BROADCAST_def PORT_SRC_REL_def
  PORT_DST_REL_def

section \<open>Context and branches\<close>

record ctx =
  ip_base :: u32
  eth_field :: "u32 option"
  ctx_link_type :: link_type

record branch =
  on_true :: label
  on_false :: label

definition mk_branch :: "label \<Rightarrow> label \<Rightarrow> branch" where
  "mk_branch t f = \<lparr>on_true = t, on_false = f\<rparr>"

definition swapped :: "branch \<Rightarrow> branch" where
  "swapped br = mk_branch (on_false br) (on_true br)"

section \<open>Gates\<close>

definition gate_ldh_eq :: "u32 \<Rightarrow> u32 \<Rightarrow> offset \<Rightarrow> label \<Rightarrow> ir_builder \<Rightarrow> ir_builder" where
  "gate_ldh_eq jump imm ofs lf b =
     (let b = emit (IrLdhAbs jump) ofs b;
          (cont, b) = new_label b;
          b = emit (IrJeq imm cont lf) ofs b
      in place cont b)"

definition gate_ldb_eq :: "u32 \<Rightarrow> u32 \<Rightarrow> offset \<Rightarrow> label \<Rightarrow> ir_builder \<Rightarrow> ir_builder" where
  "gate_ldb_eq jump imm ofs lf b =
     (let b = emit (IrLdbAbs jump) ofs b;
          (cont, b) = new_label b;
          b = emit (IrJeq imm cont lf) ofs b
      in place cont b)"

definition gate_ip_version ::
    "ctx \<Rightarrow> u32 \<Rightarrow> offset \<Rightarrow> label \<Rightarrow> ir_builder \<Rightarrow> ir_builder" where
  "gate_ip_version ctx version_nibble ofs lf b =
     (let b = emit (IrLdbAbs (ip_base ctx)) ofs b;
          b = emit (IrAndK 0xf0) ofs b;
          (cont, b) = new_label b;
          b = emit (IrJeq version_nibble cont lf) ofs b
      in place cont b)"

text \<open>\<open>unreachable!\<close> on a link type without an ethertype field is a panic.\<close>

definition emit_l3_gate ::
    "ctx \<Rightarrow> u32 \<Rightarrow> offset \<Rightarrow> label \<Rightarrow> ir_builder \<Rightarrow> ir_builder res" where
  "emit_l3_gate ctx ethertype ofs lf b =
     (case eth_field ctx of
        Some f \<Rightarrow> Ok (gate_ldh_eq f ethertype ofs lf b)
      | None \<Rightarrow>
          if ethertype = ETH_TYPE_IP then Ok (gate_ip_version ctx 0x40 ofs lf b)
          else if ethertype = ETH_TYPE_IPV6 then Ok (gate_ip_version ctx 0x60 ofs lf b)
          else Panic)"

definition emit_ethertype_and_proto_gates ::
    "ctx \<Rightarrow> u32 \<Rightarrow> u32 \<Rightarrow> u32 option \<Rightarrow> offset \<Rightarrow> label \<Rightarrow> ir_builder \<Rightarrow> ir_builder res" where
  "emit_ethertype_and_proto_gates ctx ethertype proto_field_offset ip_proto ofs lf b =
     and_then (emit_l3_gate ctx ethertype ofs lf b)
       (\<lambda>b. case ip_proto of
              None \<Rightarrow> Ok b
            | Some proto_num \<Rightarrow>
                Ok (gate_ldb_eq (ip_base ctx + proto_field_offset) proto_num ofs lf b))"

definition emit_not_fragment_gate :: "ctx \<Rightarrow> offset \<Rightarrow> label \<Rightarrow> ir_builder \<Rightarrow> ir_builder" where
  "emit_not_fragment_gate ctx ofs lf b =
     (let b = emit (IrLdhAbs (ip_base ctx + IP_FLAGS_FRAG_OFFSET)) ofs b;
          (not_fragment, b) = new_label b;
          b = emit (IrJset FRAG_MASK lf not_fragment) ofs b
      in place not_fragment b)"

section \<open>Addresses\<close>

record gates =
  g_ethertype :: u32
  g_ip_proto :: "u32 option"
  g_src_offset :: u32
  g_dst_offset :: u32

definition ip_gates :: "u32 option \<Rightarrow> gates" where
  "ip_gates proto =
     \<lparr>g_ethertype = ETH_TYPE_IP, g_ip_proto = proto,
      g_src_offset = IP_SRC_OFFSET, g_dst_offset = IP_DST_OFFSET\<rparr>"

definition arp_gates :: "u32 \<Rightarrow> gates" where
  "arp_gates ethertype =
     \<lparr>g_ethertype = ethertype, g_ip_proto = None,
      g_src_offset = ARP_SENDER_PA_OFFSET, g_dst_offset = ARP_TARGET_PA_OFFSET\<rparr>"

fun addr_gates :: "compiled_proto \<Rightarrow> offset \<Rightarrow> gates res" where
  "addr_gates CIp ofs = Ok (ip_gates None)"
| "addr_gates CTcp ofs = Ok (ip_gates (Some IP_PROTO_TCP))"
| "addr_gates CUdp ofs = Ok (ip_gates (Some IP_PROTO_UDP))"
| "addr_gates CIcmp ofs = Ok (ip_gates (Some IP_PROTO_ICMP))"
| "addr_gates CArp ofs = Ok (arp_gates ETH_TYPE_ARP)"
| "addr_gates CRarp ofs = Ok (arp_gates ETH_TYPE_RARP)"
| "addr_gates CIp6 ofs =
     Err (new_error ofs (InvalidPrimitiveCombination
       (quoted ''ip6'' @ '' needs an IPv6 address, not an IPv4 one'')))"
| "addr_gates CSctp ofs =
     Err (new_error ofs (InvalidPrimitiveCombination
       (quoted ''sctp'' @
        '' has no host/net addressing; it'' @ [CHR 0x27] @ ''s a transport protocol, usable only with '' @
        quoted ''port'' @ ''/'' @ quoted ''portrange'')))"

definition ensure_ethertype_available :: "ctx \<Rightarrow> gates \<Rightarrow> offset \<Rightarrow> unit res" where
  "ensure_ethertype_available ctx gates ofs =
     (let needs_ethertype = (g_ethertype gates = ETH_TYPE_ARP \<or> g_ethertype gates = ETH_TYPE_RARP)
      in if eth_field ctx = None \<and> needs_ethertype then
           Err (new_error ofs (InvalidPrimitiveCombination
             (quoted ''arp'' @ ''/'' @ quoted ''rarp'' @
              '' need a link layer with an ethertype field; this link type has none'')))
         else Ok ())"

text \<open>
  A prefix length above 32 is the arithmetic overflow of \<open>32 - prefix\<close>.
\<close>

definition netmask :: "u8 \<Rightarrow> u32 res" where
  "netmask prefix =
     (if prefix = 0 then Ok 0
      else if 32 < unat prefix then Panic
      else Ok (push_bit (32 - unat prefix) (-1)))"

fun map_netmask :: "u8 option \<Rightarrow> u32 option res" where
  "map_netmask None = Ok None"
| "map_netmask (Some n) = and_then (netmask n) (\<lambda>m. Ok (Some m))"

definition full_prefix :: "addr_lit \<Rightarrow> u8" where
  "full_prefix addr = (case addr of V4 _ \<Rightarrow> 32 | V6 _ \<Rightarrow> 128)"

definition dir_offset :: "gates \<Rightarrow> dir_tag \<Rightarrow> u32" where
  "dir_offset gates d = (case d of Src \<Rightarrow> g_src_offset gates | Dst \<Rightarrow> g_dst_offset gates)"

definition emit_addr_terminal ::
    "ctx \<Rightarrow> gates \<Rightarrow> dir_tag \<Rightarrow> u32 option \<Rightarrow> u32 \<Rightarrow> offset \<Rightarrow> branch \<Rightarrow> ir_builder \<Rightarrow> ir_builder"
  where
  "emit_addr_terminal ctx gates d msk target ofs br b =
     (let b = emit (IrLdwAbs (ip_base ctx + dir_offset gates d)) ofs b;
          b = (case msk of
                 None \<Rightarrow> b
               | Some m \<Rightarrow> if m \<noteq> -1 then emit (IrAndK m) ofs b else b)
      in emit (IrJeq target (on_true br) (on_false br)) ofs b)"

text \<open>
  One word of an IPv6 comparison. The shift \<open>96 - 32 * i\<close> underflows past the fourth word, which a
  prefix above 128 would reach.
\<close>

definition emit_addr6_word ::
    "ctx \<Rightarrow> u32 \<Rightarrow> u128 \<Rightarrow> nat \<Rightarrow> nat \<Rightarrow> offset \<Rightarrow> branch \<Rightarrow> nat \<Rightarrow> ir_builder \<Rightarrow> ir_builder res" where
  "emit_addr6_word ctx start addr prefix words ofs br i b =
     (if 96 < 32 * i then Panic
      else
        (let word = ucast (drop_bit (96 - 32 * i) addr) :: u32;
             bits_in_prefix = min (prefix - 32 * i) 32
         in and_then (netmask (of_nat bits_in_prefix))
              (\<lambda>mask.
                 let last = (i = words - 1);
                     (next, b) = (if last then (on_true br, b) else new_label b);
                     b = emit (IrLdwAbs (ip_base ctx + start + 4 * of_nat i)) ofs b;
                     b = (if mask \<noteq> -1 then emit (IrAndK mask) ofs b else b);
                     b = emit (IrJeq (word AND mask) next (on_false br)) ofs b
                 in Ok (if last then b else place next b))))"

fun emit_addr6_words ::
    "ctx \<Rightarrow> u32 \<Rightarrow> u128 \<Rightarrow> nat \<Rightarrow> nat \<Rightarrow> offset \<Rightarrow> branch \<Rightarrow> nat list \<Rightarrow> ir_builder \<Rightarrow> ir_builder res"
  where
  "emit_addr6_words ctx start addr prefix words ofs br [] b = Ok b"
| "emit_addr6_words ctx start addr prefix words ofs br (i # is) b =
     and_then (emit_addr6_word ctx start addr prefix words ofs br i b)
       (emit_addr6_words ctx start addr prefix words ofs br is)"

definition emit_addr6_terminal ::
    "ctx \<Rightarrow> gates \<Rightarrow> dir_tag \<Rightarrow> u128 \<Rightarrow> nat \<Rightarrow> offset \<Rightarrow> branch \<Rightarrow> ir_builder \<Rightarrow> ir_builder res"
  where
  "emit_addr6_terminal ctx gates d addr prefix ofs br b =
     (let words = (prefix + 31) div 32
      in if words = 0 then Ok (emit (IrJmp (on_true br)) ofs b)
         else emit_addr6_words ctx (dir_offset gates d) addr prefix words ofs br [0..<words] b)"

definition ip6_gates :: gates where
  "ip6_gates =
     \<lparr>g_ethertype = ETH_TYPE_IPV6, g_ip_proto = None,
      g_src_offset = IP6_SRC_OFFSET, g_dst_offset = IP6_DST_OFFSET\<rparr>"

definition compile_addr6 ::
    "compiled_primitive \<Rightarrow> compiled_primitive option \<Rightarrow> ctx \<Rightarrow> u128 \<Rightarrow> u8 option \<Rightarrow> branch \<Rightarrow>
     ir_builder \<Rightarrow> ir_builder res" where
  "compile_addr6 p1 second ctx addr prefix br b =
     (let ofs = cp_offset p1 in
      if cp_proto p1 \<noteq> CIp6 then
        Err (new_error ofs (InvalidPrimitiveCombination
          (''an IPv6 address needs '' @ quoted ''ip6'' @ '' (or no protocol)'')))
      else
        and_then (ensure_ethertype_available ctx ip6_gates ofs) (\<lambda>_.
        and_then (emit_ethertype_and_proto_gates ctx (g_ethertype ip6_gates) IP6_NEXTHDR_OFFSET None
                    ofs (on_false br) b) (\<lambda>b.
          let prefix = unat (case prefix of None \<Rightarrow> 128 | Some n \<Rightarrow> n) in
          case second of
            None \<Rightarrow> emit_addr6_terminal ctx ip6_gates (cp_dir p1) addr prefix ofs br b
          | Some p2 \<Rightarrow>
              (let (mid, b) = new_label b in
               and_then (emit_addr6_terminal ctx ip6_gates (cp_dir p1) addr prefix ofs
                           (mk_branch (on_true br) mid) b)
                 (\<lambda>b. emit_addr6_terminal ctx ip6_gates (cp_dir p2) addr prefix ofs br
                         (place mid b))))))"

definition mask_target :: "u32 option \<Rightarrow> u32 \<Rightarrow> u32" where
  "mask_target msk a = (case msk of Some m \<Rightarrow> a AND m | None \<Rightarrow> a)"

definition compile_addr ::
    "compiled_primitive \<Rightarrow> ctx \<Rightarrow> addr_lit \<Rightarrow> u8 option \<Rightarrow> branch \<Rightarrow> ir_builder \<Rightarrow> ir_builder res" where
  "compile_addr p ctx addr prefix br b =
     (case addr of
        V6 a \<Rightarrow> compile_addr6 p None ctx a prefix br b
      | V4 a \<Rightarrow>
          and_then (addr_gates (cp_proto p) (cp_offset p)) (\<lambda>gates.
          and_then (ensure_ethertype_available ctx gates (cp_offset p)) (\<lambda>_.
          and_then (emit_ethertype_and_proto_gates ctx (g_ethertype gates) IP_PROTO_OFFSET
                      (g_ip_proto gates) (cp_offset p) (on_false br) b) (\<lambda>b.
          and_then (map_netmask prefix) (\<lambda>mask.
            Ok (emit_addr_terminal ctx gates (cp_dir p) mask (mask_target mask a) (cp_offset p)
                  br b))))))"

definition compile_addr_pair ::
    "compiled_primitive \<Rightarrow> compiled_primitive \<Rightarrow> ctx \<Rightarrow> addr_lit \<Rightarrow> u8 option \<Rightarrow> branch \<Rightarrow>
     ir_builder \<Rightarrow> ir_builder res" where
  "compile_addr_pair p1 p2 ctx addr prefix br b =
     (case addr of
        V6 a \<Rightarrow> compile_addr6 p1 (Some p2) ctx a prefix br b
      | V4 a \<Rightarrow>
          and_then (addr_gates (cp_proto p1) (cp_offset p1)) (\<lambda>gates.
          and_then (ensure_ethertype_available ctx gates (cp_offset p1)) (\<lambda>_.
          and_then (emit_ethertype_and_proto_gates ctx (g_ethertype gates) IP_PROTO_OFFSET
                      (g_ip_proto gates) (cp_offset p1) (on_false br) b) (\<lambda>b.
          and_then (map_netmask prefix) (\<lambda>mask.
            let target = mask_target mask a;
                (mid, b) = new_label b;
                b = emit_addr_terminal ctx gates (cp_dir p1) mask target (cp_offset p1)
                      (mk_branch (on_true br) mid) b
            in Ok (emit_addr_terminal ctx gates (cp_dir p2) mask target (cp_offset p1) br
                     (place mid b)))))))"

section \<open>Ports\<close>

definition port_proto_num :: "compiled_proto \<Rightarrow> offset \<Rightarrow> u32 res" where
  "port_proto_num proto ofs =
     (case proto of
        CTcp \<Rightarrow> Ok IP_PROTO_TCP
      | CUdp \<Rightarrow> Ok IP_PROTO_UDP
      | CSctp \<Rightarrow> Ok IP_PROTO_SCTP
      | _ \<Rightarrow>
          Err (new_error ofs (InvalidPrimitiveCombination
            (quoted ''port'' @ ''/'' @ quoted ''portrange'' @
             '' only apply to tcp, udp, or sctp''))))"

definition emit_port_compare ::
    "u16 \<Rightarrow> u16 \<Rightarrow> offset \<Rightarrow> branch \<Rightarrow> ir_builder \<Rightarrow> ir_builder" where
  "emit_port_compare lo hi ofs br b =
     (if lo = hi then emit (IrJeq (ucast lo) (on_true br) (on_false br)) ofs b
      else
        (let (after_lo, b) = new_label b;
             b = emit (IrJge (ucast lo) after_lo (on_false br)) ofs b;
             b = place after_lo b
         in emit (IrJgt (ucast hi) (on_false br) (on_true br)) ofs b))"

definition port_rel :: "dir_tag \<Rightarrow> u32" where
  "port_rel d = (case d of Src \<Rightarrow> PORT_SRC_REL | Dst \<Rightarrow> PORT_DST_REL)"

definition emit_port_terminal ::
    "ctx \<Rightarrow> dir_tag \<Rightarrow> u16 \<Rightarrow> u16 \<Rightarrow> offset \<Rightarrow> branch \<Rightarrow> ir_builder \<Rightarrow> ir_builder" where
  "emit_port_terminal ctx d lo hi ofs br b =
     emit_port_compare lo hi ofs br (emit (IrLdhInd (ip_base ctx + port_rel d)) ofs b)"

definition emit_port6_terminal ::
    "ctx \<Rightarrow> dir_tag \<Rightarrow> u16 \<Rightarrow> u16 \<Rightarrow> offset \<Rightarrow> branch \<Rightarrow> ir_builder \<Rightarrow> ir_builder" where
  "emit_port6_terminal ctx d lo hi ofs br b =
     emit_port_compare lo hi ofs br
       (emit (IrLdhAbs (ip_base ctx + IP6_HEADER_LEN + port_rel d)) ofs b)"

definition compile_port4 ::
    "ctx \<Rightarrow> u32 \<Rightarrow> dir_tag \<Rightarrow> u16 \<Rightarrow> u16 \<Rightarrow> offset \<Rightarrow> branch \<Rightarrow> ir_builder \<Rightarrow> ir_builder res" where
  "compile_port4 ctx proto_num d lo hi ofs br b =
     and_then (emit_ethertype_and_proto_gates ctx ETH_TYPE_IP IP_PROTO_OFFSET (Some proto_num) ofs
                 (on_false br) b)
       (\<lambda>b. let b = emit_not_fragment_gate ctx ofs (on_false br) b;
                b = emit (IrLdxMsh (ip_base ctx)) ofs b
            in Ok (emit_port_terminal ctx d lo hi ofs br b))"

definition compile_port4_pair ::
    "ctx \<Rightarrow> u32 \<Rightarrow> dir_tag \<times> dir_tag \<Rightarrow> u16 \<Rightarrow> u16 \<Rightarrow> offset \<Rightarrow> branch \<Rightarrow> ir_builder \<Rightarrow> ir_builder res"
  where
  "compile_port4_pair ctx proto_num dirs lo hi ofs br b =
     (case dirs of (dir1, dir2) \<Rightarrow>
        and_then (emit_ethertype_and_proto_gates ctx ETH_TYPE_IP IP_PROTO_OFFSET (Some proto_num) ofs
                    (on_false br) b)
          (\<lambda>b. let b = emit_not_fragment_gate ctx ofs (on_false br) b;
                   b = emit (IrLdxMsh (ip_base ctx)) ofs b;
                   (mid, b) = new_label b;
                   b = emit_port_terminal ctx dir1 lo hi ofs (mk_branch (on_true br) mid) b
               in Ok (emit_port_terminal ctx dir2 lo hi ofs br (place mid b))))"

definition compile_port6 ::
    "ctx \<Rightarrow> u32 \<Rightarrow> dir_tag \<Rightarrow> u16 \<Rightarrow> u16 \<Rightarrow> offset \<Rightarrow> branch \<Rightarrow> ir_builder \<Rightarrow> ir_builder res" where
  "compile_port6 ctx proto_num d lo hi ofs br b =
     and_then (emit_ethertype_and_proto_gates ctx ETH_TYPE_IPV6 IP6_NEXTHDR_OFFSET (Some proto_num) ofs
                 (on_false br) b)
       (\<lambda>b. Ok (emit_port6_terminal ctx d lo hi ofs br b))"

definition compile_port6_pair ::
    "ctx \<Rightarrow> u32 \<Rightarrow> dir_tag \<times> dir_tag \<Rightarrow> u16 \<Rightarrow> u16 \<Rightarrow> offset \<Rightarrow> branch \<Rightarrow> ir_builder \<Rightarrow> ir_builder res"
  where
  "compile_port6_pair ctx proto_num dirs lo hi ofs br b =
     (case dirs of (dir1, dir2) \<Rightarrow>
        and_then (emit_ethertype_and_proto_gates ctx ETH_TYPE_IPV6 IP6_NEXTHDR_OFFSET (Some proto_num)
                    ofs (on_false br) b)
          (\<lambda>b. let (mid, b) = new_label b;
                   b = emit_port6_terminal ctx dir1 lo hi ofs (mk_branch (on_true br) mid) b
               in Ok (emit_port6_terminal ctx dir2 lo hi ofs br (place mid b))))"

definition compile_port ::
    "compiled_primitive \<Rightarrow> ctx \<Rightarrow> u16 \<Rightarrow> u16 \<Rightarrow> branch \<Rightarrow> ir_builder \<Rightarrow> ir_builder res" where
  "compile_port p ctx lo hi br b =
     and_then (port_proto_num (cp_proto p) (cp_offset p)) (\<lambda>proto_num.
       let (try_v6, b) = new_label b in
       and_then (compile_port4 ctx proto_num (cp_dir p) lo hi (cp_offset p)
                   (mk_branch (on_true br) try_v6) b)
         (\<lambda>b. compile_port6 ctx proto_num (cp_dir p) lo hi (cp_offset p) br (place try_v6 b)))"

definition compile_port_pair ::
    "compiled_primitive \<Rightarrow> compiled_primitive \<Rightarrow> ctx \<Rightarrow> u16 \<Rightarrow> u16 \<Rightarrow> branch \<Rightarrow> ir_builder \<Rightarrow> ir_builder res"
  where
  "compile_port_pair p1 p2 ctx lo hi br b =
     and_then (port_proto_num (cp_proto p1) (cp_offset p1)) (\<lambda>proto_num.
       let (try_v6, b) = new_label b in
       and_then (compile_port4_pair ctx proto_num (cp_dir p1, cp_dir p2) lo hi (cp_offset p1)
                   (mk_branch (on_true br) try_v6) b)
         (\<lambda>b. compile_port6_pair ctx proto_num (cp_dir p1, cp_dir p2) lo hi (cp_offset p1) br
                 (place try_v6 b)))"

section \<open>Link-layer primitives\<close>

definition emit_mac_eq ::
    "u32 \<Rightarrow> mac_addr \<Rightarrow> offset \<Rightarrow> branch \<Rightarrow> ir_builder \<Rightarrow> ir_builder" where
  "emit_mac_eq field_offset mac ofs br b =
     (case mac of MacAddr m0 m1 m2 m3 m4 m5 \<Rightarrow>
        (let hi = u32_from_be_bytes m0 m1 m2 m3;
             lo = ucast (u16_from_be_bytes m4 m5) :: u32;
             (mid, b) = new_label b;
             b = emit (IrLdwAbs field_offset) ofs b;
             b = emit (IrJeq hi mid (on_false br)) ofs b;
             b = place mid b;
             b = emit (IrLdhAbs (field_offset + 4)) ofs b
         in emit (IrJeq lo (on_true br) (on_false br)) ofs b))"

definition compile_ether_host ::
    "mac_addr \<Rightarrow> dir_tag option \<Rightarrow> offset \<Rightarrow> branch \<Rightarrow> ir_builder \<Rightarrow> ir_builder res" where
  "compile_ether_host mac d ofs br b =
     (case d of
        Some Src \<Rightarrow> Ok (emit_mac_eq ETH_SRC_MAC_OFFSET mac ofs br b)
      | Some Dst \<Rightarrow> Ok (emit_mac_eq ETH_DST_MAC_OFFSET mac ofs br b)
      | None \<Rightarrow>
          (let (mid, b) = new_label b;
               b = emit_mac_eq ETH_DST_MAC_OFFSET mac ofs (mk_branch (on_true br) mid) b
           in Ok (emit_mac_eq ETH_SRC_MAC_OFFSET mac ofs br (place mid b))))"

definition compile_ether_proto ::
    "u16 \<Rightarrow> ctx \<Rightarrow> offset \<Rightarrow> branch \<Rightarrow> ir_builder \<Rightarrow> ir_builder res" where
  "compile_ether_proto ethertype ctx ofs br b =
     (case eth_field ctx of
        None \<Rightarrow> Panic
      | Some f \<Rightarrow>
          Ok (emit (IrJeq (ucast ethertype) (on_true br) (on_false br)) ofs
                (emit (IrLdhAbs f) ofs b)))"

definition compile_ether_multicast :: "offset \<Rightarrow> branch \<Rightarrow> ir_builder \<Rightarrow> ir_builder res" where
  "compile_ether_multicast ofs br b =
     Ok (emit (IrJset 0x01 (on_true br) (on_false br)) ofs
           (emit (IrLdbAbs ETH_DST_MAC_OFFSET) ofs b))"

definition compile_ether ::
    "ether_primitive \<Rightarrow> ctx \<Rightarrow> branch \<Rightarrow> ir_builder \<Rightarrow> ir_builder res" where
  "compile_ether e ctx br b =
     (if ctx_link_type ctx \<noteq> Ethernet then
        Err (new_error (ether_offset e) (InvalidPrimitiveCombination
          (quoted ''ether'' @ ''/'' @ quoted ''broadcast'' @
           ''/'' @ quoted ''multicast'' @
           '' need a real source/destination MAC pair; this link type doesn'' @ [CHR 0x27] @
           ''t have one'')))
      else
        (case ether_kind e of
           EtherHost mac d \<Rightarrow> compile_ether_host mac d (ether_offset e) br b
         | EtherProto ethertype \<Rightarrow> compile_ether_proto ethertype ctx (ether_offset e) br b
         | EtherBroadcast \<Rightarrow>
             Ok (emit_mac_eq ETH_DST_MAC_OFFSET ETH_MAC_BROADCAST (ether_offset e) br b)
         | EtherMulticast \<Rightarrow> compile_ether_multicast (ether_offset e) br b))"

section \<open>Expressions\<close>

definition compile_primitive ::
    "compiled_primitive \<Rightarrow> ctx \<Rightarrow> branch \<Rightarrow> ir_builder \<Rightarrow> ir_builder res" where
  "compile_primitive p ctx br b =
     (case cp_ty p of
        Host addr \<Rightarrow> compile_addr p ctx addr None br b
      | Net addr prefix \<Rightarrow>
          compile_addr p ctx addr
            (Some (case prefix of None \<Rightarrow> full_prefix addr | Some n \<Rightarrow> n)) br b
      | Port port \<Rightarrow> compile_port p ctx port port br b
      | PortRange lo hi \<Rightarrow> compile_port p ctx lo hi br b)"

definition compile_dir_pair ::
    "compiled_primitive \<Rightarrow> compiled_primitive \<Rightarrow> ctx \<Rightarrow> branch \<Rightarrow> ir_builder \<Rightarrow> ir_builder res" where
  "compile_dir_pair p1 p2 ctx br b =
     (case cp_ty p1 of
        Host addr \<Rightarrow> compile_addr_pair p1 p2 ctx addr None br b
      | Net addr prefix \<Rightarrow>
          compile_addr_pair p1 p2 ctx addr
            (Some (case prefix of None \<Rightarrow> full_prefix addr | Some n \<Rightarrow> n)) br b
      | Port port \<Rightarrow> compile_port_pair p1 p2 ctx port port br b
      | PortRange lo hi \<Rightarrow> compile_port_pair p1 p2 ctx lo hi br b)"

definition differs_only_in_dir :: "compiled_primitive \<Rightarrow> compiled_primitive \<Rightarrow> bool" where
  "differs_only_in_dir p1 p2 \<longleftrightarrow>
     cp_proto p1 = cp_proto p2 \<and> cp_dir p1 \<noteq> cp_dir p2 \<and> cp_ty p1 = cp_ty p2"

text \<open>The \<open>if let\<close> guard of the \<open>or\<close> case: two leaves that differ only in direction.\<close>

fun dir_pair ::
    "expanded_expr \<Rightarrow> expanded_expr \<Rightarrow> (compiled_primitive \<times> compiled_primitive) option" where
  "dir_pair (Leaf p1) (Leaf p2) = (if differs_only_in_dir p1 p2 then Some (p1, p2) else None)"
| "dir_pair l r = None"

fun compile_expr :: "expanded_expr \<Rightarrow> ctx \<Rightarrow> branch \<Rightarrow> ir_builder \<Rightarrow> ir_builder res" where
  "compile_expr (Leaf p) ctx br b = compile_primitive p ctx br b"
| "compile_expr (EtherLeaf e) ctx br b = compile_ether e ctx br b"
| "compile_expr (XNot inner) ctx br b = compile_expr inner ctx (swapped br) b"
| "compile_expr (XAnd l r) ctx br b =
     (let (mid, b) = new_label b in
      and_then (compile_expr l ctx (mk_branch mid (on_false br)) b)
        (\<lambda>b. compile_expr r ctx br (place mid b)))"
| "compile_expr (XOr l r) ctx br b =
     (case dir_pair l r of
        Some (p1, p2) \<Rightarrow> compile_dir_pair p1 p2 ctx br b
      | None \<Rightarrow>
          (let (mid, b) = new_label b in
           and_then (compile_expr l ctx (mk_branch (on_true br) mid) b)
             (\<lambda>b. compile_expr r ctx br (place mid b))))"

definition mk_ctx :: "link_type \<Rightarrow> ctx" where
  "mk_ctx lt =
     (let info = l3_offset_info lt
      in \<lparr>ip_base = info_ip_base info, eth_field = info_ethertype_offset info,
          ctx_link_type = lt\<rparr>)"

definition generate :: "expanded_expr \<Rightarrow> link_type \<Rightarrow> u32 \<Rightarrow> ir_program res" where
  "generate e lt snaplen =
     (let b = new_builder;
          (accept, b) = new_label b;
          (reject, b) = new_label b
      in and_then (compile_expr e (mk_ctx lt) (mk_branch accept reject) b)
           (\<lambda>b. let b = place accept b;
                    b = emit (IrRet snaplen) (Range 0 0) b;
                    b = place reject b;
                    b = emit (IrRet 0) (Range 0 0) b
                in Ok (finish b)))"

end
