(* ===== verification/Program.thy ===== *)
theory Program
  imports Parser Codegen Backpatch Vm
begin

text \<open>
  \<open>src/program.rs\<close> and \<open>src/lib.rs\<close>: a finished program, its listing and its evaluation on a packet,
  and the compilation pipeline.
\<close>

record program =
  prog_insns :: "insn list"

definition from_validated :: "insn list \<Rightarrow> program" where
  "from_validated insns = \<lparr>prog_insns = insns\<rparr>"

definition instructions :: "program \<Rightarrow> insn list" where
  "instructions p = prog_insns p"

definition program_run :: "program \<Rightarrow> packet \<Rightarrow> u32" where
  "program_run p packet = run (prog_insns p) packet"

definition program_matches :: "program \<Rightarrow> packet \<Rightarrow> bool" where
  "program_matches p packet \<longleftrightarrow> program_run p packet \<noteq> 0"

text \<open>The \<open>Display\<close> loop: a newline in front of every instruction but the first.\<close>

fun display_from :: "nat \<Rightarrow> insn list \<Rightarrow> string" where
  "display_from index [] = []"
| "display_from index (i # is) =
     (if 0 < index then [CHR 0x0A] else []) @ fmt_insn i index @ display_from (index + 1) is"

definition display :: "program \<Rightarrow> string" where
  "display p = display_from 0 (prog_insns p)"

definition compile :: "rstr \<Rightarrow> link_type \<Rightarrow> u32 \<Rightarrow> program res" where
  "compile src lt snaplen =
     and_then (lex src) (\<lambda>tokens.
     and_then (parse tokens) (\<lambda>ast.
     and_then (expand ast) (\<lambda>expanded.
     and_then (generate expanded lt snaplen) (\<lambda>ir.
     and_then (assemble ir) (\<lambda>insns.
       Ok (from_validated insns))))))"

end
