(* ===== verification/Attach.thy ===== *)
theory Attach
  imports Program
begin

text \<open>
  \<open>src/attach/mod.rs\<close>: handing a program to a Linux socket. The C library and the kernel behind it are
  not part of the repository: their constants and \<open>setsockopt\<close> are an argument of the model, the latter as
  a function from the arguments of the call and the state of the system to the returned value, the
  \<open>errno\<close> it leaves behind and the next state.
\<close>

section \<open>The C library\<close>

type_synonym c_int = "32 word"

text \<open>
  \<open>struct sock_fprog\<close>. The pointer stands for the instructions of the slice it was taken from.
\<close>

record sock_fprog =
  fprog_len :: u16
  fprog_filter :: "insn list"

record 's libc =
  c_SOL_SOCKET :: c_int
  c_SO_ATTACH_FILTER :: c_int
  c_sizeof_fprog :: u32
  c_setsockopt :: "c_int \<Rightarrow> c_int \<Rightarrow> c_int \<Rightarrow> sock_fprog \<Rightarrow> u32 \<Rightarrow> 's \<Rightarrow> (c_int \<times> c_int) \<times> 's"

section \<open>Attaching\<close>

datatype io_error = InvalidInput string | OsError c_int

text \<open>\<open>usize::try_into::<u16>\<close>.\<close>

definition u16_try_from :: "nat \<Rightarrow> u16 option" where
  "u16_try_from n = (if n < 2 ^ 16 then Some (of_nat n) else None)"

definition attach ::
    "('s, 'x) libc_scheme \<Rightarrow> c_int \<Rightarrow> program \<Rightarrow> 's \<Rightarrow> (io_error, unit) result \<times> 's" where
  "attach c sock_fd program s =
     (let insns = instructions program in
      case u16_try_from (length insns) of
        None \<Rightarrow> (Err (InvalidInput ''program has more than u16::MAX instructions''), s)
      | Some len \<Rightarrow>
          (let fprog = \<lparr>fprog_len = len, fprog_filter = insns\<rparr>;
               ((rv, errno), s') =
                 c_setsockopt c sock_fd (c_SOL_SOCKET c) (c_SO_ATTACH_FILTER c) fprog
                   (c_sizeof_fprog c) s
           in (if rv = 0 then Ok () else Err (OsError errno), s')))"

section \<open>What the kernel is given\<close>

text \<open>The slice that a \<open>sock_fprog\<close> describes: \<open>len\<close> instructions from the pointer on.\<close>

definition fprog_insns :: "sock_fprog \<Rightarrow> insn list" where
  "fprog_insns f = take (unat (fprog_len f)) (fprog_filter f)"

text \<open>The one system call that attaching \<open>insns\<close> makes.\<close>

definition filter_call ::
    "('s, 'x) libc_scheme \<Rightarrow> c_int \<Rightarrow> sock_fprog \<Rightarrow> 's \<Rightarrow> (c_int \<times> c_int) \<times> 's" where
  "filter_call c fd fprog s =
     c_setsockopt c fd (c_SOL_SOCKET c) (c_SO_ATTACH_FILTER c) fprog (c_sizeof_fprog c) s"

text \<open>A program that fits is handed over whole; one that does not never reaches the system call.\<close>

lemma attach_fits:
  assumes "length (instructions prog) < 2 ^ 16"
  obtains fprog where "fprog_insns fprog = instructions prog"
    and "attach c fd prog s =
      (case filter_call c fd fprog s of
         ((rv, errno), s') \<Rightarrow> (if rv = 0 then Ok () else Err (OsError errno), s'))"
proof
  let ?fprog = "\<lparr>fprog_len = of_nat (length (instructions prog)), fprog_filter = instructions prog\<rparr>"
  show "fprog_insns ?fprog = instructions prog"
    using assms by (simp add: fprog_insns_def unat_of_nat)
  show "attach c fd prog s =
      (case filter_call c fd ?fprog s of
         ((rv, errno), s') \<Rightarrow> (if rv = 0 then Ok () else Err (OsError errno), s'))"
    using assms by (simp add: attach_def filter_call_def u16_try_from_def Let_def split: prod.split)
qed

lemma attach_too_long:
  "2 ^ 16 \<le> length (instructions prog) \<Longrightarrow>
   attach c fd prog s = (Err (InvalidInput ''program has more than u16::MAX instructions''), s)"
  by (simp add: attach_def u16_try_from_def Let_def)

lemma attach_Ok:
  assumes "attach c fd prog s = (Ok (), s')"
  obtains fprog errno where "fprog_insns fprog = instructions prog"
    and "filter_call c fd fprog s = ((0, errno), s')"
proof (cases "length (instructions prog) < 2 ^ 16")
  case True
  then obtain fprog where "fprog_insns fprog = instructions prog"
    and "attach c fd prog s =
      (case filter_call c fd fprog s of
         ((rv, errno), s') \<Rightarrow> (if rv = 0 then Ok () else Err (OsError errno), s'))"
    by (rule attach_fits)
  with assms that show thesis by (auto split: prod.splits if_splits)
next
  case False
  with assms show thesis using attach_too_long [of prog c fd s] by simp
qed

end
