(* ===== verification/IrSem.thy ===== *)
theory IrSem
  imports Irep Vm
begin

text \<open>
  The meaning of a stretch of intermediate code, with labels still symbolic. A stretch ends by
  falling off its end, by jumping to a label that is not placed in the rest of it, or by returning.
  All jumps are forward, so execution is a structural recursion on the code.
\<close>

section \<open>Execution\<close>

datatype ir_outcome = Fall u32 u32 | Goto label u32 u32 | Done u32

definition ir_load :: "u32 option \<Rightarrow> (u32 \<Rightarrow> ir_outcome) \<Rightarrow> ir_outcome" where
  "ir_load v f = (case v of None \<Rightarrow> Done 0 | Some a \<Rightarrow> f a)"

function (sequential) ir_exec :: "packet \<Rightarrow> ir_op list \<Rightarrow> u32 \<Rightarrow> u32 \<Rightarrow> ir_outcome"
  and ir_goto :: "packet \<Rightarrow> ir_op list \<Rightarrow> label \<Rightarrow> u32 \<Rightarrow> u32 \<Rightarrow> ir_outcome" where
  "ir_exec p [] a x = Fall a x"
| "ir_exec p (Mark l # ops) a x = ir_exec p ops a x"
| "ir_exec p (Real i # ops) a x =
     (case ir_op2 i of
        IrLdhAbs v \<Rightarrow> ir_load (read_u16 p (unat v)) (\<lambda>a. ir_exec p ops a x)
      | IrLdbAbs v \<Rightarrow> ir_load (read_u8 p (unat v)) (\<lambda>a. ir_exec p ops a x)
      | IrLdwAbs v \<Rightarrow> ir_load (read_u32 p (unat v)) (\<lambda>a. ir_exec p ops a x)
      | IrLdxMsh v \<Rightarrow> ir_load (read_u8 p (unat v)) (\<lambda>byte. ir_exec p ops a ((byte AND 0x0f) * 4))
      | IrLdhInd v \<Rightarrow>
          ir_load (Option.bind (checked_add (unat x) (unat v)) (read_u16 p)) (\<lambda>a. ir_exec p ops a x)
      | IrAndK v \<Rightarrow> ir_exec p ops (a AND v) x
      | IrJeq v t f \<Rightarrow> ir_goto p ops (if a = v then t else f) a x
      | IrJgt v t f \<Rightarrow> ir_goto p ops (if v < a then t else f) a x
      | IrJge v t f \<Rightarrow> ir_goto p ops (if v \<le> a then t else f) a x
      | IrJset v t f \<Rightarrow> ir_goto p ops (if a AND v \<noteq> 0 then t else f) a x
      | IrJmp t \<Rightarrow> ir_goto p ops t a x
      | IrRet v \<Rightarrow> Done v)"
| "ir_goto p [] l a x = Goto l a x"
| "ir_goto p (i # ops) l a x = (if i = Mark l then ir_exec p ops a x else ir_goto p ops l a x)"
  by pat_completeness auto
termination
  by (relation "measure (\<lambda>s. case s of Inl (p, ops, a, x) \<Rightarrow> length ops
                                      | Inr (p, ops, l, a, x) \<Rightarrow> length ops)") auto

text \<open>What the code after a stretch makes of the stretch's outcome.\<close>

fun ir_continue :: "packet \<Rightarrow> ir_op list \<Rightarrow> ir_outcome \<Rightarrow> ir_outcome" where
  "ir_continue p ops (Fall a x) = ir_exec p ops a x"
| "ir_continue p ops (Goto l a x) = ir_goto p ops l a x"
| "ir_continue p ops (Done v) = Done v"

lemma ir_load_continue:
  "ir_continue p ops (ir_load v f) = ir_load v (\<lambda>a. ir_continue p ops (f a))"
  by (cases v) (simp_all add: ir_load_def)

lemma ir_append:
  "ir_exec p (c1 @ c2) a x = ir_continue p c2 (ir_exec p c1 a x)"
  "ir_goto p (c1 @ c2) l a x = ir_continue p c2 (ir_goto p c1 l a x)"
  by (induction p c1 a x and p c1 l a x rule: ir_exec_ir_goto.induct)
     (simp_all add: ir_load_continue split: ir_op2.split)

section \<open>Labels in code\<close>

fun mark_list :: "ir_op list \<Rightarrow> label list" where
  "mark_list [] = []"
| "mark_list (Mark l # ops) = l # mark_list ops"
| "mark_list (Real i # ops) = mark_list ops"

fun reals :: "ir_op list \<Rightarrow> ir_insn list" where
  "reals [] = []"
| "reals (Mark l # ops) = reals ops"
| "reals (Real i # ops) = i # reals ops"

lemma mark_list_append [simp]: "mark_list (c1 @ c2) = mark_list c1 @ mark_list c2"
  by (induction c1 rule: mark_list.induct) auto

lemma reals_append [simp]: "reals (c1 @ c2) = reals c1 @ reals c2"
  by (induction c1 rule: reals.induct) auto

lemma mark_list_set: "l \<in> set (mark_list ops) \<longleftrightarrow> Mark l \<in> set ops"
  by (induction ops rule: mark_list.induct) auto

fun targets :: "ir_op2 \<Rightarrow> label set" where
  "targets (IrJeq v t f) = {t, f}"
| "targets (IrJgt v t f) = {t, f}"
| "targets (IrJge v t f) = {t, f}"
| "targets (IrJset v t f) = {t, f}"
| "targets (IrJmp t) = {t}"
| "targets _ = {}"

text \<open>
  Every jump goes forward: to a label placed later in the stretch, or to one of its exits \<open>X\<close>.
\<close>

fun scoped :: "label set \<Rightarrow> ir_op list \<Rightarrow> bool" where
  "scoped X [] = True"
| "scoped X (Mark l # ops) = scoped X ops"
| "scoped X (Real i # ops) = (targets (ir_op2 i) \<subseteq> X \<union> set (mark_list ops) \<and> scoped X ops)"

lemma scoped_append [simp]:
  "scoped X (c1 @ c2) \<longleftrightarrow> scoped (X \<union> set (mark_list c2)) c1 \<and> scoped X c2"
  by (induction c1 rule: mark_list.induct) auto

lemma scoped_mono: "scoped X c \<Longrightarrow> X \<subseteq> Y \<Longrightarrow> scoped Y c"
  by (induction c rule: mark_list.induct) auto

text \<open>A jump to a label that a stretch does not place leaves the stretch.\<close>

lemma ir_goto_leaves: "l \<notin> set (mark_list ops) \<Longrightarrow> ir_goto p ops l a x = Goto l a x"
  by (induction ops) (auto simp: mark_list_set)

lemma ir_goto_Mark [simp]: "ir_goto p (Mark l # ops) l a x = ir_exec p ops a x"
  by simp

text \<open>
  A stretch whose jumps are scoped leaves only through its exits, and a jump that finds its label
  continues right after the mark.
\<close>

lemma ir_goto_split:
  "l \<in> set (mark_list ops) \<Longrightarrow>
     \<exists>pre post. ops = pre @ Mark l # post \<and> l \<notin> set (mark_list pre) \<and>
       (\<forall>a x. ir_goto p ops l a x = ir_exec p post a x)"
proof -
  assume "l \<in> set (mark_list ops)"
  then have "Mark l \<in> set ops" by (simp add: mark_list_set)
  then obtain pre post where *: "ops = pre @ Mark l # post" "Mark l \<notin> set pre"
    by (meson split_list_first)
  then have "l \<notin> set (mark_list pre)" by (simp add: mark_list_set)
  with * show ?thesis
    by (intro exI [of _ pre] exI [of _ post]) (simp add: ir_append ir_goto_leaves)
qed

lemma scoped_exits:
  "scoped X ops \<Longrightarrow> ir_exec p ops a x = Goto l a' x' \<Longrightarrow> l \<in> X"
  "scoped X ops \<Longrightarrow> m \<in> X \<union> set (mark_list ops) \<Longrightarrow> ir_goto p ops m a x = Goto l a' x' \<Longrightarrow> l \<in> X"
proof (induction p ops a x and p ops m a x rule: ir_exec_ir_goto.induct)
  case (3 p i ops a x)
  then show ?case
    by (cases "ir_op2 i") (auto simp: ir_load_def split: option.splits if_splits)
next
  case (5 p i ops l a x)
  then show ?case
    by (cases i) (auto split: if_splits)
qed auto

end
