(* ===== verification/Assembler.thy ===== *)
theory Assembler
  imports Backpatch IrSem
begin

text \<open>
  Correctness of the assembler: on well-formed intermediate programs it never panics, it fails only
  where a conditional displacement does not fit its byte, and the interpreter runs its output the way
  the intermediate code executes.
\<close>

section \<open>Well-formed programs\<close>

text \<open>
  Every allocated label is placed exactly once, every jump goes forward to a placed label, and the
  instruction indices fit the \<open>u32\<close> the label table stores.
\<close>

definition labels_placed_once :: "ir_program \<Rightarrow> bool" where
  "labels_placed_once p \<longleftrightarrow>
     distinct (mark_list (prog_stream p)) \<and>
     set (mark_list (prog_stream p)) = Label ` {..<prog_num_labels p}"

definition wf_program :: "ir_program \<Rightarrow> bool" where
  "wf_program p \<longleftrightarrow> labels_placed_once p \<and> scoped {} (prog_stream p)"

definition small_program :: "ir_program \<Rightarrow> bool" where
  "small_program p \<longleftrightarrow> length (reals (prog_stream p)) < 2 ^ 32"

text \<open>The index of the instruction a label resolves to.\<close>

definition target_index :: "ir_op list \<Rightarrow> label \<Rightarrow> nat" where
  "target_index ops l = length (reals (takeWhile (\<lambda>i. i \<noteq> Mark l) ops))"

lemma target_index_split:
  "l \<notin> set (mark_list pre) \<Longrightarrow> target_index (pre @ Mark l # post) l = length (reals pre)"
proof -
  assume "l \<notin> set (mark_list pre)"
  then have "\<forall>i \<in> set pre. i \<noteq> Mark l" by (metis mark_list_set)
  then have "takeWhile (\<lambda>i. i \<noteq> Mark l) (pre @ Mark l # post) = pre"
    by (subst takeWhile_append2) auto
  then show ?thesis by (simp add: target_index_def)
qed

section \<open>Pass A\<close>

definition table_ok :: "ir_op list \<Rightarrow> nat \<Rightarrow> u32 option list \<Rightarrow> bool" where
  "table_ok ops n offsets \<longleftrightarrow>
     (\<forall>l \<in> set (mark_list ops).
        get offsets (label_index l) = Some (Some (of_nat (n + target_index ops l))))"

lemma label_index_inject: "label_index l = label_index m \<longleftrightarrow> l = m"
  by (cases l; cases m) simp

lemma pass_a_reals: "pass_a ops offsets real = r \<Longrightarrow> r = Panic \<or> (\<exists>offsets'. r = Ok (offsets', real @ reals ops))"
  by (induction ops offsets real arbitrary: r rule: pass_a.induct) auto

lemma pass_a_keeps:
  "pass_a ops offsets real = Ok (offsets', real') \<Longrightarrow> l \<notin> set (mark_list ops) \<Longrightarrow>
     get offsets' (label_index l) = get offsets (label_index l)"
proof (induction ops offsets real arbitrary: offsets' real' rule: pass_a.induct)
  case (2 m ops offsets real)
  then have "label_index m \<noteq> label_index l" by (auto simp: label_index_inject)
  with 2 show ?case by (auto simp: get_def split: if_splits)
qed auto

lemma pass_a_total:
  "\<forall>l \<in> set (mark_list ops). label_index l < length offsets \<Longrightarrow>
     \<exists>offsets'. pass_a ops offsets real = Ok (offsets', real @ reals ops)"
  by (induction ops offsets real rule: pass_a.induct) auto

lemma pass_a_table:
  "pass_a ops offsets real = Ok (offsets', real') \<Longrightarrow> distinct (mark_list ops) \<Longrightarrow>
     table_ok ops (length real) offsets'"
proof (induction ops offsets real arbitrary: offsets' real' rule: pass_a.induct)
  case (1 offsets real)
  then show ?case by (simp add: table_ok_def)
next
  case (2 m ops offsets real)
  then have m: "label_index m < length offsets" and
    run: "pass_a ops (offsets[label_index m := Some (of_nat (length real))]) real =
      Ok (offsets', real')" and
    fresh: "m \<notin> set (mark_list ops)" and dist: "distinct (mark_list ops)"
    by (auto split: if_splits)
  have ih: "table_ok ops (length real) offsets'" using "2.IH" m run dist by blast
  have "get offsets' (label_index m) = Some (Some (of_nat (length real)))"
    using pass_a_keeps [OF run fresh] m by (simp add: get_def)
  then show ?case
    using ih fresh by (auto simp: table_ok_def target_index_def)
next
  case (3 i ops offsets real)
  then have "table_ok ops (length (real @ [i])) offsets'" by simp
  then show ?case by (simp add: table_ok_def target_index_def)
qed

section \<open>Pass B\<close>

lemma pass_b_Ok:
  "pass_b idx is offsets = Ok insns \<Longrightarrow>
     length insns = length is \<and> (\<forall>j < length is. lower (idx + j) (is ! j) offsets = Ok (insns ! j))"
proof (induction idx "is" offsets arbitrary: insns rule: pass_b.induct)
  case (2 idx i "is" offsets)
  then obtain i' is' where *: "lower idx i offsets = Ok i'"
      "pass_b (idx + 1) is offsets = Ok is'" "insns = i' # is'"
    by auto
  have "length is' = length is \<and>
    (\<forall>j < length is. lower (idx + 1 + j) (is ! j) offsets = Ok (is' ! j))"
    using "2.IH" [OF *(1) *(2)] .
  with * show ?case by (auto simp: nth_Cons split: nat.splits)
qed auto

lemma displacement_from_placed:
  assumes "get offsets (label_index l) = Some (Some (of_nat t))" and "t < 2 ^ 32"
  shows "displacement_from idx l offsets = (if idx + 1 \<le> t then Ok (t - (idx + 1)) else Panic)"
  using assms by (simp add: displacement_from_def unat_of_nat_u32)

lemma resolve_branch_Ok:
  assumes "resolve_branch idx l offsets ofs = Ok d"
    and "get offsets (label_index l) = Some (Some (of_nat t))" and "t < 2 ^ 32"
  shows "idx + 1 + unat d = t"
proof -
  from assms have *: "idx + 1 \<le> t" "t - (idx + 1) < 256" "d = of_nat (t - (idx + 1))"
    by (auto simp: resolve_branch_def displacement_from_placed simp del: of_nat_diff
        split: if_splits)
  then have "unat d = t - (idx + 1)" by (simp only: unat_of_nat_u8)
  with *(1) show ?thesis by simp
qed

lemma resolve_jmp_Ok:
  assumes "resolve_jmp idx l offsets = Ok d"
    and "get offsets (label_index l) = Some (Some (of_nat t))" and "t < 2 ^ 32"
  shows "idx + 1 + unat d = t"
proof -
  from assms have *: "idx + 1 \<le> t" "d = of_nat (t - (idx + 1))"
    by (auto simp: resolve_jmp_def displacement_from_placed simp del: of_nat_diff
        split: if_splits)
  moreover have "t - (idx + 1) < 2 ^ 32" using assms(3) by simp
  ultimately have "unat d = t - (idx + 1)" by (simp only: unat_of_nat_u32)
  with *(1) show ?thesis by simp
qed

section \<open>The assembled program refines the intermediate code\<close>

text \<open>The value the interpreter gives to an outcome; running off the end rejects.\<close>

fun outcome_value :: "ir_outcome \<Rightarrow> u32" where
  "outcome_value (Done v) = v"
| "outcome_value (Fall a x) = 0"
| "outcome_value (Goto l a x) = 0"

text \<open>What the two passes establish about each instruction and each label.\<close>

definition assembled :: "ir_op list \<Rightarrow> u32 option list \<Rightarrow> insn list \<Rightarrow> bool" where
  "assembled ops offsets insns \<longleftrightarrow>
     distinct (mark_list ops) \<and> scoped {} ops \<and> length (reals ops) < 2 ^ 32 \<and>
     table_ok ops 0 offsets \<and> length insns = length (reals ops) \<and>
     (\<forall>j < length insns. lower j (reals ops ! j) offsets = Ok (insns ! j))"

lemma assemble_assembled:
  assumes "wf_program p" and "small_program p" and "assemble p = Ok insns"
  shows "\<exists>offsets. assembled (prog_stream p) offsets insns"
proof -
  let ?ops = "prog_stream p"
  let ?init = "replicate (prog_num_labels p) (None :: u32 option)"
  have "\<forall>l \<in> set (mark_list ?ops). label_index l < length ?init"
    using assms(1) by (auto simp: wf_program_def labels_placed_once_def)
  then obtain offsets where a: "pass_a ?ops ?init [] = Ok (offsets, reals ?ops)"
    using pass_a_total [of ?ops ?init "[]"] by auto
  then have b: "pass_b 0 (reals ?ops) offsets = Ok insns"
    using assms(3) by (simp add: assemble_def)
  show ?thesis
    using pass_b_Ok [OF b] pass_a_table [OF a] assms(1,2)
    by (auto simp: assembled_def wf_program_def labels_placed_once_def small_program_def)
qed

lemma assembled_label:
  assumes "assembled (pre @ Mark l # post) offsets insns"
  shows "get offsets (label_index l) = Some (Some (of_nat (length (reals pre))))"
    and "length (reals pre) < 2 ^ 32"
  using assms by (auto simp: assembled_def table_ok_def target_index_split)

lemma assembled_insn:
  assumes "assembled (pre @ Real i # rest) offsets insns"
  shows "\<exists>insn. get insns (length (reals pre)) = Some insn \<and>
    lower (length (reals pre)) i offsets = Ok insn"
proof -
  let ?n = "length (reals pre)"
  have "?n < length insns" using assms by (simp add: assembled_def)
  moreover from this have "lower ?n (reals (pre @ Real i # rest) ! ?n) offsets = Ok (insns ! ?n)"
    using assms unfolding assembled_def by blast
  ultimately show ?thesis by (simp add: get_def nth_append)
qed

text \<open>
  A jump target of an instruction, resolved: the code after the mark is a shorter suffix, and the
  table holds its index.
\<close>

lemma assembled_target:
  assumes "assembled (pre @ Real i # rest) offsets insns"
    and "l \<in> targets (ir_op2 i)"
  shows "\<exists>pre' post. pre @ Real i # rest = pre' @ post \<and> length post < length rest \<and>
    (\<forall>a x. ir_goto pk rest l a x = ir_exec pk post a x) \<and>
    get offsets (label_index l) = Some (Some (of_nat (length (reals pre')))) \<and>
    length (reals pre') < 2 ^ 32"
proof -
  have "l \<in> set (mark_list rest)" using assms by (auto simp: assembled_def)
  then obtain mid post where *: "rest = mid @ Mark l # post" "l \<notin> set (mark_list mid)"
      "\<forall>a x. ir_goto pk rest l a x = ir_exec pk post a x"
    using ir_goto_split by blast
  have "assembled ((pre @ Real i # mid) @ Mark l # post) offsets insns"
    using assms(1) *(1) by simp
  from assembled_label [OF this] * show ?thesis
    by (intro exI [of _ "pre @ Real i # mid @ [Mark l]"] exI [of _ post]) auto
qed

text \<open>The interpreter's state in front of a suffix of the intermediate code.\<close>

definition vm_at :: "u32 \<Rightarrow> u32 \<Rightarrow> ir_op list \<Rightarrow> vm_state" where
  "vm_at a x pre = \<lparr>reg_a = a, reg_x = x, reg_pc = length (reals pre)\<rparr>"

lemma vm_at_fields [simp]:
  "reg_a (vm_at a x pre) = a" "reg_x (vm_at a x pre) = x"
  "reg_pc (vm_at a x pre) = length (reals pre)"
  "(vm_at a x pre)\<lparr>reg_pc := length (reals pre')\<rparr> = vm_at a x pre'"
  by (simp_all add: vm_at_def)

lemma vm_branch:
  assumes asm: "assembled (pre @ Real i # rest) offsets insns"
    and lower: "resolve_pair (length (reals pre)) t f offsets ofs mk = Ok insn"
    and fields: "\<And>dt df. i_jt (mk dt df) = dt" "\<And>dt df. i_jf (mk dt df) = df"
    and targets: "targets (ir_op2 i) = {t, f}"
  shows "\<exists>pre' post. pre @ Real i # rest = pre' @ post \<and> length post < length rest \<and>
    branch (length (reals pre)) insn taken = length (reals pre') \<and>
    (\<forall>a x. ir_goto pk rest (if taken then t else f) a x = ir_exec pk post a x)"
proof -
  let ?l = "if taken then t else f"
  let ?n = "length (reals pre)"
  obtain dt df where d: "resolve_branch ?n t offsets ofs = Ok dt"
      "resolve_branch ?n f offsets ofs = Ok df" "insn = mk dt df"
    using lower by (auto simp: resolve_pair_def)
  have "?l \<in> targets (ir_op2 i)" using targets by auto
  from assembled_target [OF asm this] obtain pre' post where
    *: "pre @ Real i # rest = pre' @ post" "length post < length rest"
      "\<forall>a x. ir_goto pk rest ?l a x = ir_exec pk post a x"
      "get offsets (label_index ?l) = Some (Some (of_nat (length (reals pre'))))"
      "length (reals pre') < 2 ^ 32"
    by blast
  have "?n + 1 + unat (if taken then dt else df) = length (reals pre')"
    by (rule resolve_branch_Ok [OF _ *(4,5)]) (use d in auto)
  then have "branch ?n insn taken = length (reals pre')"
    using d(3) fields by (cases taken) (simp_all add: branch_def)
  with * show ?thesis by blast
qed

lemma vm_jump:
  assumes asm: "assembled (pre @ Real i # rest) offsets insns"
    and d: "resolve_jmp (length (reals pre)) t offsets = Ok d"
    and targets: "targets (ir_op2 i) = {t}"
  shows "\<exists>pre' post. pre @ Real i # rest = pre' @ post \<and> length post < length rest \<and>
    step (length (reals pre)) d = Some (length (reals pre')) \<and>
    (\<forall>a x. ir_goto pk rest t a x = ir_exec pk post a x)"
proof -
  let ?n = "length (reals pre)"
  have "t \<in> targets (ir_op2 i)" using targets by auto
  from assembled_target [OF asm this] obtain pre' post where
    *: "pre @ Real i # rest = pre' @ post" "length post < length rest"
      "\<forall>a x. ir_goto pk rest t a x = ir_exec pk post a x"
      "get offsets (label_index t) = Some (Some (of_nat (length (reals pre'))))"
      "length (reals pre') < 2 ^ 32"
    by blast
  have "?n + 1 + unat d = length (reals pre')"
    by (rule resolve_jmp_Ok [OF d *(4,5)])
  then have "step ?n d = Some (length (reals pre'))"
    using *(5) by (simp add: step_def checked_add_def usize_limit_def)
  with * show ?thesis by blast
qed

lemma vm_at_next:
  "(vm_at a x pre)\<lparr>reg_a := a', reg_pc := Suc (length (reals pre))\<rparr> = vm_at a' x (pre @ [Real i])"
  "(vm_at a x pre)\<lparr>reg_x := x', reg_pc := Suc (length (reals pre))\<rparr> = vm_at a x' (pre @ [Real i])"
  by (simp_all add: vm_at_def)

text \<open>
  The simulation: from the instruction a suffix starts at, the interpreter computes what the suffix
  executes to.
\<close>

definition agrees :: "packet \<Rightarrow> insn list \<Rightarrow> ir_op list \<Rightarrow> ir_op list \<Rightarrow> bool" where
  "agrees pk insns pre rest \<longleftrightarrow>
     (\<forall>a x. vm_loop insns pk (vm_at a x pre) = outcome_value (ir_exec pk rest a x))"

lemma agrees_Nil:
  assumes "assembled pre offsets insns"
  shows "agrees pk insns pre []"
proof -
  have "get insns (length (reals pre)) = None"
    using assms by (simp add: assembled_def get_def)
  then show ?thesis
    by (simp add: agrees_def vm_loop.simps [where s = "vm_at _ _ _"] vm_step_def)
qed

lemma agrees_Mark: "agrees pk insns (pre @ [Mark l]) rest \<Longrightarrow> agrees pk insns pre (Mark l # rest)"
  by (simp add: agrees_def vm_at_def)

text \<open>An instruction that is not a jump: the rest of the suffix follows.\<close>

lemma run_load:
  assumes "agrees pk insns (pre @ [Real i]) rest"
    and "vm_step insns pk (vm_at a x pre) = load_a (vm_at a x pre) v"
  shows "vm_loop insns pk (vm_at a x pre) = outcome_value (ir_load v (\<lambda>a. ir_exec pk rest a x))"
  using assms
  by (cases v)
     (simp_all add: vm_loop.simps [where s = "vm_at a x pre"] load_a_def ir_load_def agrees_def
       vm_at_next [where i = i])

lemma agrees_straight:
  assumes next_insn: "agrees pk insns (pre @ [Real i]) rest"
    and fetch: "get insns (length (reals pre)) = Some insn"
    and low: "lower (length (reals pre)) i offsets = Ok insn"
    and "targets (ir_op2 i) = {}"
  shows "agrees pk insns pre (Real i # rest)"
  unfolding agrees_def
proof (intro allI)
  fix a x
  note turn = vm_loop.simps [where s = "vm_at a x pre"] vm_step_def fetch
  note go_on = next_insn [unfolded agrees_def, rule_format]
  show "vm_loop insns pk (vm_at a x pre) = outcome_value (ir_exec pk (Real i # rest) a x)"
  proof (cases "ir_op2 i")
    case (IrLdxMsh v)
    with low go_on show ?thesis
      by (cases "read_u8 pk (unat v)")
         (auto simp: turn lower_def ir_load_def vm_at_next [where i = i])
  next
    case (IrLdhInd v)
    with low fetch show ?thesis
      by (auto simp: lower_def vm_step_def load_a_def intro!: run_load [OF next_insn]
          split: option.split)
  next
    case (IrAndK v)
    with low go_on show ?thesis by (auto simp: turn lower_def vm_at_next [where i = i])
  next
    case (IrRet v)
    with low show ?thesis by (auto simp: turn lower_def)
  qed (use assms in \<open>auto simp: lower_def vm_step_def intro!: run_load [OF next_insn]\<close>)
qed

text \<open>A jump: the code after its target's mark follows.\<close>

lemma agrees_branch:
  assumes asm: "assembled (pre @ Real i # rest) offsets insns"
    and IH: "\<And>pre' post. pre @ Real i # rest = pre' @ post \<Longrightarrow> length post \<le> length rest \<Longrightarrow>
      agrees pk insns pre' post"
    and pair: "resolve_pair (length (reals pre)) t f offsets (ir_offset i) mk = Ok insn"
    and fields: "\<And>dt df. i_jt (mk dt df) = dt" "\<And>dt df. i_jf (mk dt df) = df"
    and tgt: "targets (ir_op2 i) = {t, f}"
    and turn: "\<And>a x. vm_step insns pk (vm_at a x pre) =
      Continue ((vm_at a x pre)\<lparr>reg_pc := branch (length (reals pre)) insn (taken a)\<rparr>)"
    and ir: "\<And>a x. ir_exec pk (Real i # rest) a x = ir_goto pk rest (if taken a then t else f) a x"
  shows "agrees pk insns pre (Real i # rest)"
  unfolding agrees_def
proof (intro allI)
  fix a x
  obtain pre' post where *: "pre @ Real i # rest = pre' @ post" "length post < length rest"
      "branch (length (reals pre)) insn (taken a) = length (reals pre')"
      "\<forall>a' x. ir_goto pk rest (if taken a then t else f) a' x = ir_exec pk post a' x"
    using vm_branch [OF asm pair fields tgt, of "taken a" pk] by blast
  then show "vm_loop insns pk (vm_at a x pre) = outcome_value (ir_exec pk (Real i # rest) a x)"
    using IH [OF *(1)] turn [of a x] ir [of a x]
    by (simp add: vm_loop.simps [of insns pk "vm_at a x pre"] agrees_def)
qed

lemma agrees_jump:
  assumes asm: "assembled (pre @ Real i # rest) offsets insns"
    and IH: "\<And>pre' post. pre @ Real i # rest = pre' @ post \<Longrightarrow> length post \<le> length rest \<Longrightarrow>
      agrees pk insns pre' post"
    and fetch: "get insns (length (reals pre)) = Some (jmp d)"
    and d: "resolve_jmp (length (reals pre)) t offsets = Ok d" and op: "ir_op2 i = IrJmp t"
  shows "agrees pk insns pre (Real i # rest)"
proof -
  obtain pre' post where *: "pre @ Real i # rest = pre' @ post" "length post < length rest"
      "step (length (reals pre)) d = Some (length (reals pre'))"
      "\<forall>a x. ir_goto pk rest t a x = ir_exec pk post a x"
    using vm_jump [OF asm d, of pk] op by auto
  then show ?thesis
    using IH [OF *(1)] op fetch
    by (simp add: agrees_def vm_loop.simps [where s = "vm_at _ _ _"] vm_step_def)
qed

lemma agrees_Real:
  assumes asm: "assembled (pre @ Real i # rest) offsets insns"
    and IH: "\<And>pre' post. pre @ Real i # rest = pre' @ post \<Longrightarrow> length post \<le> length rest \<Longrightarrow>
      agrees pk insns pre' post"
  shows "agrees pk insns pre (Real i # rest)"
proof -
  obtain insn where fetch: "get insns (length (reals pre)) = Some insn"
    and low: "lower (length (reals pre)) i offsets = Ok insn"
    using assembled_insn [OF asm] by blast
  have straight: ?thesis if "targets (ir_op2 i) = {}"
    by (rule agrees_straight [OF _ fetch low that]) (simp add: IH)
  note branched = agrees_branch [OF asm IH _ _ _ _ _ _, where insn = insn]
  show ?thesis
  proof (cases "ir_op2 i")
    case (IrJmp t)
    with low fetch show ?thesis
      by (auto simp: lower_def intro: agrees_jump [OF asm IH])
  next
    case (IrJeq v t f)
    with low fetch show ?thesis
      by (intro branched [where mk = "jeq v" and taken = "\<lambda>a. a = v" and t = t and f = f])
         (auto simp: lower_def resolve_pair_def vm_step_def)
  next
    case (IrJgt v t f)
    with low fetch show ?thesis
      by (intro branched [where mk = "jgt v" and taken = "\<lambda>a. v < a" and t = t and f = f])
         (auto simp: lower_def resolve_pair_def vm_step_def)
  next
    case (IrJge v t f)
    with low fetch show ?thesis
      by (intro branched [where mk = "jge v" and taken = "\<lambda>a. v \<le> a" and t = t and f = f])
         (auto simp: lower_def resolve_pair_def vm_step_def)
  next
    case (IrJset v t f)
    with low fetch show ?thesis
      by (intro branched [where mk = "jset v" and taken = "\<lambda>a. a AND v \<noteq> 0" and t = t and f = f])
         (auto simp: lower_def resolve_pair_def vm_step_def)
  qed (use straight in simp_all)
qed

lemma assembled_agrees: "assembled (pre @ rest) offsets insns \<Longrightarrow> agrees pk insns pre rest"
proof (induction "length rest" arbitrary: pre rest rule: less_induct)
  case less
  show ?case
  proof (cases rest)
    case Nil
    with less.prems show ?thesis by (simp add: agrees_Nil)
  next
    case (Cons op rest')
    have IH: "agrees pk insns pre' post"
      if "pre @ op # rest' = pre' @ post" "length post \<le> length rest'" for pre' post
      using less.hyps [of post pre'] less.prems that Cons by simp
    show ?thesis
    proof (cases op)
      case (Mark l)
      have "agrees pk insns (pre @ [Mark l]) rest'" by (rule IH) (simp_all add: Mark)
      with Cons Mark show ?thesis by (simp add: agrees_Mark)
    next
      case (Real i)
      have "assembled (pre @ Real i # rest') offsets insns" using less.prems Cons Real by simp
      from agrees_Real [OF this IH [unfolded Real]] Cons Real show ?thesis by simp
    qed
  qed
qed

theorem assemble_refines:
  assumes "wf_program p" and "small_program p" and "assemble p = Ok insns"
  shows "run insns pk = outcome_value (ir_exec pk (prog_stream p) 0 0)"
proof -
  obtain offsets where "assembled ([] @ prog_stream p) offsets insns"
    using assemble_assembled [OF assms] by auto
  then have "agrees pk insns [] (prog_stream p)" by (rule assembled_agrees)
  then show ?thesis by (simp add: agrees_def run_def vm_init_def vm_at_def)
qed

section \<open>When assembling fails\<close>

text \<open>
  The displacement of a jump at instruction \<open>j\<close>, and the first conditional jump whose displacement
  does not fit a byte (its true target is resolved before its false one).
\<close>

definition displacement :: "ir_op list \<Rightarrow> nat \<Rightarrow> label \<Rightarrow> nat" where
  "displacement ops j l = target_index ops l - (j + 1)"

fun cond_targets :: "ir_op2 \<Rightarrow> label list" where
  "cond_targets (IrJeq v t f) = [t, f]"
| "cond_targets (IrJgt v t f) = [t, f]"
| "cond_targets (IrJge v t f) = [t, f]"
| "cond_targets (IrJset v t f) = [t, f]"
| "cond_targets _ = []"

fun first_overflow :: "ir_op list \<Rightarrow> nat \<Rightarrow> ir_insn list \<Rightarrow> compile_error option" where
  "first_overflow ops j [] = None"
| "first_overflow ops j (i # is) =
     (case filter (\<lambda>l. 255 < displacement ops j l) (cond_targets (ir_op2 i)) of
        l # _ \<Rightarrow>
          Some (new_error (ir_offset i) (JumpDisplacementOverflow j (of_nat (displacement ops j l))))
      | [] \<Rightarrow> first_overflow ops (j + 1) is)"

lemma scoped_forward:
  assumes "scoped {} ops" and "distinct (mark_list ops)" and "j < length (reals ops)"
    and "l \<in> targets (ir_op2 (reals ops ! j))"
  shows "l \<in> set (mark_list ops) \<and> j + 1 \<le> target_index ops l \<and>
    target_index ops l \<le> length (reals ops)"
  using assms
proof (induction ops arbitrary: j rule: mark_list.induct)
  case (2 m ops)
  then show ?case by (auto simp: target_index_def)
next
  case (3 i ops)
  have bound: "target_index ops l \<le> length (reals ops)"
  proof -
    have "reals ops = reals (takeWhile (\<lambda>i. i \<noteq> Mark l) ops) @ reals (dropWhile (\<lambda>i. i \<noteq> Mark l) ops)"
      by (simp flip: reals_append)
    then show ?thesis by (metis target_index_def le_add1 length_append)
  qed
  have step: "target_index (Real i # ops) l = Suc (target_index ops l)"
    by (simp add: target_index_def)
  show ?case
  proof (cases j)
    case 0
    then show ?thesis using 3 bound step by auto
  next
    case (Suc j')
    then have "l \<in> set (mark_list ops) \<and> j' + 1 \<le> target_index ops l"
      using 3 by auto
    then show ?thesis using Suc bound step by simp
  qed
qed simp

text \<open>A label of a well-formed program, resolved from an instruction that jumps to it.\<close>

definition resolved :: "ir_op list \<Rightarrow> nat \<Rightarrow> ir_insn \<Rightarrow> u32 option list \<Rightarrow> bool" where
  "resolved ops j i offsets \<longleftrightarrow>
     (\<forall>l \<in> targets (ir_op2 i). displacement_from j l offsets = Ok (displacement ops j l))"

lemma resolved_insn:
  assumes "wf_program p" and "small_program p" and "table_ok (prog_stream p) 0 offsets"
    and "j < length (reals (prog_stream p))"
  shows "resolved (prog_stream p) j (reals (prog_stream p) ! j) offsets"
  unfolding resolved_def
proof
  fix l
  assume "l \<in> targets (ir_op2 (reals (prog_stream p) ! j))"
  with assms(1,4) have *: "l \<in> set (mark_list (prog_stream p))"
      "j + 1 \<le> target_index (prog_stream p) l"
      "target_index (prog_stream p) l \<le> length (reals (prog_stream p))"
    using scoped_forward by (auto simp: wf_program_def labels_placed_once_def)
  then have "get offsets (label_index l) = Some (Some (of_nat (target_index (prog_stream p) l)))"
    using assms(3) by (simp add: table_ok_def)
  from displacement_from_placed [OF this, of j] * assms(2)
  show "displacement_from j l offsets = Ok (displacement (prog_stream p) j l)"
    by (simp add: displacement_def small_program_def)
qed

lemma lower_resolved:
  assumes "resolved ops j i offsets"
  shows "case filter (\<lambda>l. 255 < displacement ops j l) (cond_targets (ir_op2 i)) of
      [] \<Rightarrow> \<exists>insn. lower j i offsets = Ok insn
    | l # _ \<Rightarrow> lower j i offsets =
        Err (new_error (ir_offset i) (JumpDisplacementOverflow j (of_nat (displacement ops j l))))"
  using assms
  by (cases "ir_op2 i")
     (auto simp: lower_def resolve_pair_def resolve_branch_def resolve_jmp_def resolved_def)

lemma pass_b_resolved:
  "(\<forall>n < length is. resolved ops (j + n) (is ! n) offsets) \<Longrightarrow>
   (case first_overflow ops j is of
      None \<Rightarrow> \<exists>insns. pass_b j is offsets = Ok insns
    | Some e \<Rightarrow> pass_b j is offsets = Err e)"
proof (induction j "is" offsets rule: pass_b.induct)
  case (2 j i "is" offsets)
  have now: "resolved ops j i offsets" using 2(2) by (metis Nat.add_0_right length_greater_0_conv list.discI nth_Cons_0)
  have later: "\<forall>n < length is. resolved ops (j + 1 + n) (is ! n) offsets"
    using 2(2) by (metis Suc_less_eq add.assoc add.commute length_Cons nth_Cons_Suc plus_1_eq_Suc)
  show ?case
    using lower_resolved [OF now] "2.IH" [OF _ later]
    by (auto split: list.splits option.splits)
qed simp

theorem assemble_outcome:
  assumes "wf_program p" and "small_program p"
  shows "case first_overflow (prog_stream p) 0 (reals (prog_stream p)) of
      None \<Rightarrow> \<exists>insns. assemble p = Ok insns
    | Some e \<Rightarrow> assemble p = Err e"
proof -
  let ?ops = "prog_stream p"
  let ?init = "replicate (prog_num_labels p) (None :: u32 option)"
  have "\<forall>l \<in> set (mark_list ?ops). label_index l < length ?init"
    using assms(1) by (auto simp: wf_program_def labels_placed_once_def)
  then obtain offsets where a: "pass_a ?ops ?init [] = Ok (offsets, reals ?ops)"
    using pass_a_total [of ?ops ?init "[]"] by auto
  have "table_ok ?ops 0 offsets"
    using pass_a_table [OF a] assms(1) by (simp add: wf_program_def labels_placed_once_def)
  then have "\<forall>n < length (reals ?ops). resolved ?ops (0 + n) (reals ?ops ! n) offsets"
    using resolved_insn [OF assms] by simp
  from pass_b_resolved [OF this] show ?thesis
    using a by (auto simp: assemble_def split: option.splits)
qed

end
