(* ===== verification/Eval.thy ===== *)
theory Eval
  imports Codegen Vm
begin

text \<open>
  What a compiled filter decides on a packet, without reference to the generated code. The value is
  three-valued: a read outside the packet ends the program with a rejection whatever the rest of the
  expression says (\<open>None\<close>), so connectives evaluate from left to right and stop at the first value
  that decides them.
\<close>

section \<open>Connectives\<close>

fun and3 :: "bool option \<Rightarrow> bool option \<Rightarrow> bool option" where
  "and3 (Some True) v = v"
| "and3 (Some False) v = Some False"
| "and3 None v = None"

fun or3 :: "bool option \<Rightarrow> bool option \<Rightarrow> bool option" where
  "or3 (Some False) v = v"
| "or3 (Some True) v = Some True"
| "or3 None v = None"

definition not3 :: "bool option \<Rightarrow> bool option" where
  "not3 v = map_option (\<lambda>t. \<not> t) v"

lemma and3_Some [simp]: "and3 (Some t) v = (if t then v else Some False)"
  by (cases t) auto

lemma or3_Some [simp]: "or3 (Some t) v = (if t then Some True else v)"
  by (cases t) auto

lemma and3_True_right [simp]: "and3 v (Some True) = v"
  by (cases v) auto

lemma and3_assoc: "and3 (and3 u v) w = and3 u (and3 v w)"
  by (cases u) auto

lemma or3_assoc: "or3 (or3 u v) w = or3 u (or3 v w)"
  by (cases u) auto

lemma not3_not3 [simp]: "not3 (not3 v) = v"
  by (cases v) (simp_all add: not3_def)

lemma not3_and3: "not3 (and3 u v) = or3 (not3 u) (not3 v)"
  by (cases u) (auto simp: not3_def)

lemma and3_or3_distrib: "or3 (and3 g t) (and3 g u) = and3 g (or3 t u)"
  by (cases g) auto

section \<open>Network-layer gates\<close>

definition holds :: "('a \<Rightarrow> bool) \<Rightarrow> 'a option \<Rightarrow> bool option" where
  "holds P v = map_option P v"

lemma holds_simps [simp]: "holds P None = None" "holds P (Some v) = Some (P v)"
  by (simp_all add: holds_def)

definition version_nibble :: "u32 \<Rightarrow> u32" where
  "version_nibble ethertype = (if ethertype = ETH_TYPE_IP then 0x40 else 0x60)"

definition eval_l3 :: "ctx \<Rightarrow> u32 \<Rightarrow> packet \<Rightarrow> bool option" where
  "eval_l3 ctx ethertype p =
     (case eth_field ctx of
        Some f \<Rightarrow> holds (\<lambda>v. v = ethertype) (read_u16 p (unat f))
      | None \<Rightarrow>
          holds (\<lambda>v. v AND 0xf0 = version_nibble ethertype) (read_u8 p (unat (ip_base ctx))))"

definition eval_gates :: "ctx \<Rightarrow> u32 \<Rightarrow> u32 \<Rightarrow> u32 option \<Rightarrow> packet \<Rightarrow> bool option" where
  "eval_gates ctx ethertype proto_field_offset ip_proto p =
     and3 (eval_l3 ctx ethertype p)
       (case ip_proto of
          None \<Rightarrow> Some True
        | Some n \<Rightarrow>
            holds (\<lambda>v. v = n) (read_u8 p (unat (ip_base ctx + proto_field_offset))))"

text \<open>IPv4 and IPv6 exclude each other.\<close>

lemma eval_l3_exclusive:
  "eval_l3 ctx ETH_TYPE_IP p = Some True \<Longrightarrow> eval_l3 ctx ETH_TYPE_IPV6 p = Some False"
  by (auto simp: eval_l3_def holds_def version_nibble_def ETH_TYPE_IP_def ETH_TYPE_IPV6_def
      split: option.splits)

section \<open>Addresses\<close>

definition eval_addr_word ::
    "ctx \<Rightarrow> gates \<Rightarrow> dir_tag \<Rightarrow> u32 option \<Rightarrow> u32 \<Rightarrow> packet \<Rightarrow> bool option" where
  "eval_addr_word ctx gates d msk target p =
     holds (\<lambda>v. mask_target msk v = target) (read_u32 p (unat (ip_base ctx + dir_offset gates d)))"

definition mask_of :: "nat \<Rightarrow> u32" where
  "mask_of n = (if n = 0 then 0 else push_bit (32 - n) (-1))"

definition eval_addr6_word :: "ctx \<Rightarrow> u32 \<Rightarrow> u128 \<Rightarrow> nat \<Rightarrow> packet \<Rightarrow> nat \<Rightarrow> bool option" where
  "eval_addr6_word ctx start addr prefix p i =
     (let m = mask_of (min (prefix - 32 * i) 32)
      in holds (\<lambda>v. v AND m = ucast (drop_bit (96 - 32 * i) addr) AND m)
           (read_u32 p (unat (ip_base ctx + start + 4 * of_nat i))))"

fun eval_addr6_words :: "ctx \<Rightarrow> u32 \<Rightarrow> u128 \<Rightarrow> nat \<Rightarrow> packet \<Rightarrow> nat list \<Rightarrow> bool option" where
  "eval_addr6_words ctx start addr prefix p [] = Some True"
| "eval_addr6_words ctx start addr prefix p (i # is) =
     and3 (eval_addr6_word ctx start addr prefix p i) (eval_addr6_words ctx start addr prefix p is)"

definition eval_addr6 ::
    "ctx \<Rightarrow> gates \<Rightarrow> dir_tag \<Rightarrow> u128 \<Rightarrow> nat \<Rightarrow> packet \<Rightarrow> bool option" where
  "eval_addr6 ctx gates d addr prefix p =
     eval_addr6_words ctx (dir_offset gates d) addr prefix p [0..<(prefix + 31) div 32]"

text \<open>A \<open>host\<close> or \<open>net\<close> leaf; a protocol without such addresses decides nothing (it does not
  compile).\<close>

definition eval_addr ::
    "ctx \<Rightarrow> compiled_proto \<Rightarrow> dir_tag \<Rightarrow> addr_lit \<Rightarrow> u8 option \<Rightarrow> packet \<Rightarrow> bool option" where
  "eval_addr ctx proto d addr prefix p =
     (case addr of
        V6 a \<Rightarrow>
          and3 (eval_gates ctx ETH_TYPE_IPV6 IP6_NEXTHDR_OFFSET None p)
            (eval_addr6 ctx ip6_gates d a (unat (case prefix of None \<Rightarrow> 128 | Some n \<Rightarrow> n)) p)
      | V4 a \<Rightarrow>
          (case addr_gates proto (Range 0 0) of
             Ok gates \<Rightarrow>
               and3 (eval_gates ctx (g_ethertype gates) IP_PROTO_OFFSET (g_ip_proto gates) p)
                 (let msk = map_option (\<lambda>n. mask_of (unat n)) prefix
                  in eval_addr_word ctx gates d msk (mask_target msk a) p)
           | _ \<Rightarrow> None))"

section \<open>Ports\<close>

definition in_range :: "u16 \<Rightarrow> u16 \<Rightarrow> u32 \<Rightarrow> bool" where
  "in_range lo hi v \<longleftrightarrow> ucast lo \<le> v \<and> v \<le> ucast hi"

definition eval_port4_gates :: "ctx \<Rightarrow> u32 \<Rightarrow> packet \<Rightarrow> bool option" where
  "eval_port4_gates ctx proto_num p =
     and3 (eval_gates ctx ETH_TYPE_IP IP_PROTO_OFFSET (Some proto_num) p)
       (and3
          (holds (\<lambda>v. v AND FRAG_MASK = 0)
            (read_u16 p (unat (ip_base ctx + IP_FLAGS_FRAG_OFFSET))))
          (holds (\<lambda>v. True) (read_u8 p (unat (ip_base ctx)))))"

text \<open>The header length that \<open>ldx_msh\<close> leaves in the index register.\<close>

definition header_len :: "ctx \<Rightarrow> packet \<Rightarrow> u32" where
  "header_len ctx p =
     (case read_u8 p (unat (ip_base ctx)) of None \<Rightarrow> 0 | Some byte \<Rightarrow> (byte AND 0x0f) * 4)"

definition eval_port4_at :: "ctx \<Rightarrow> dir_tag \<Rightarrow> u16 \<Rightarrow> u16 \<Rightarrow> packet \<Rightarrow> u32 \<Rightarrow> bool option" where
  "eval_port4_at ctx d lo hi p x =
     holds (in_range lo hi)
       (Option.bind (checked_add (unat x) (unat (ip_base ctx + port_rel d))) (read_u16 p))"

definition eval_port6_at :: "ctx \<Rightarrow> dir_tag \<Rightarrow> u16 \<Rightarrow> u16 \<Rightarrow> packet \<Rightarrow> bool option" where
  "eval_port6_at ctx d lo hi p =
     holds (in_range lo hi) (read_u16 p (unat (ip_base ctx + IP6_HEADER_LEN + port_rel d)))"

definition eval_port4 :: "ctx \<Rightarrow> u32 \<Rightarrow> dir_tag \<Rightarrow> u16 \<Rightarrow> u16 \<Rightarrow> packet \<Rightarrow> bool option" where
  "eval_port4 ctx proto_num d lo hi p =
     and3 (eval_port4_gates ctx proto_num p) (eval_port4_at ctx d lo hi p (header_len ctx p))"

definition eval_port6 :: "ctx \<Rightarrow> u32 \<Rightarrow> dir_tag \<Rightarrow> u16 \<Rightarrow> u16 \<Rightarrow> packet \<Rightarrow> bool option" where
  "eval_port6 ctx proto_num d lo hi p =
     and3 (eval_gates ctx ETH_TYPE_IPV6 IP6_NEXTHDR_OFFSET (Some proto_num) p)
       (eval_port6_at ctx d lo hi p)"

definition eval_port ::
    "ctx \<Rightarrow> compiled_proto \<Rightarrow> dir_tag \<Rightarrow> u16 \<Rightarrow> u16 \<Rightarrow> packet \<Rightarrow> bool option" where
  "eval_port ctx proto d lo hi p =
     (case port_proto_num proto (Range 0 0) of
        Ok n \<Rightarrow> or3 (eval_port4 ctx n d lo hi p) (eval_port6 ctx n d lo hi p)
      | _ \<Rightarrow> None)"

section \<open>Link-layer primitives\<close>

fun eval_mac :: "u32 \<Rightarrow> mac_addr \<Rightarrow> packet \<Rightarrow> bool option" where
  "eval_mac field_offset (MacAddr m0 m1 m2 m3 m4 m5) p =
     and3 (holds (\<lambda>v. v = u32_from_be_bytes m0 m1 m2 m3) (read_u32 p (unat field_offset)))
       (holds (\<lambda>v. v = ucast (u16_from_be_bytes m4 m5)) (read_u16 p (unat (field_offset + 4))))"

definition mac_field :: "dir_tag \<Rightarrow> u32" where
  "mac_field d = (case d of Src \<Rightarrow> ETH_SRC_MAC_OFFSET | Dst \<Rightarrow> ETH_DST_MAC_OFFSET)"

definition eval_ether :: "ctx \<Rightarrow> ether_kind \<Rightarrow> packet \<Rightarrow> bool option" where
  "eval_ether ctx kind p =
     (case kind of
        EtherHost mac (Some d) \<Rightarrow> eval_mac (mac_field d) mac p
      | EtherHost mac None \<Rightarrow> or3 (eval_mac (mac_field Dst) mac p) (eval_mac (mac_field Src) mac p)
      | EtherProto et \<Rightarrow>
          (case eth_field ctx of
             None \<Rightarrow> None
           | Some f \<Rightarrow> holds (\<lambda>v. v = ucast et) (read_u16 p (unat f)))
      | EtherBroadcast \<Rightarrow> eval_mac ETH_DST_MAC_OFFSET ETH_MAC_BROADCAST p
      | EtherMulticast \<Rightarrow>
          holds (\<lambda>v. v AND 0x01 \<noteq> 0) (read_u8 p (unat ETH_DST_MAC_OFFSET)))"

section \<open>Expressions\<close>

definition eval_primitive :: "ctx \<Rightarrow> compiled_primitive \<Rightarrow> packet \<Rightarrow> bool option" where
  "eval_primitive ctx c p =
     (case cp_ty c of
        Host addr \<Rightarrow> eval_addr ctx (cp_proto c) (cp_dir c) addr None p
      | Net addr prefix \<Rightarrow>
          eval_addr ctx (cp_proto c) (cp_dir c) addr
            (Some (case prefix of None \<Rightarrow> full_prefix addr | Some n \<Rightarrow> n)) p
      | Port port \<Rightarrow> eval_port ctx (cp_proto c) (cp_dir c) port port p
      | PortRange lo hi \<Rightarrow> eval_port ctx (cp_proto c) (cp_dir c) lo hi p)"

fun eval :: "ctx \<Rightarrow> expanded_expr \<Rightarrow> packet \<Rightarrow> bool option" where
  "eval ctx (Leaf c) p = eval_primitive ctx c p"
| "eval ctx (EtherLeaf e) p = eval_ether ctx (ether_kind e) p"
| "eval ctx (XNot e) p = not3 (eval ctx e p)"
| "eval ctx (XAnd l r) p = and3 (eval ctx l p) (eval ctx r p)"
| "eval ctx (XOr l r) p = or3 (eval ctx l p) (eval ctx r p)"

end
