(* ===== verification/Emit.thy ===== *)
theory Emit
  imports Codegen IrSem Eval
begin

text \<open>
  The contract of the emitters. A chunk is the code that a builder transition appends: its labels are
  the freshly allocated ones, each placed once, and its jumps go forward or to its exits. A gate falls
  through when its condition holds and jumps to its false exit when not; a test ends in one of the two
  targets of a branch. The combinators below are how the code generator puts emitters together.
\<close>

section \<open>Chunks\<close>

definition chunk :: "ir_builder \<Rightarrow> ir_builder \<Rightarrow> label set \<Rightarrow> ir_op list \<Rightarrow> bool" where
  "chunk b b' X ops \<longleftrightarrow>
     stream b' = stream b @ ops \<and> num_labels b \<le> num_labels b' \<and>
     distinct (mark_list ops) \<and>
     set (mark_list ops) = {Label (num_labels b)..<Label (num_labels b')} \<and> scoped X ops"

lemma chunk_refl: "chunk b b X []"
  by (simp add: chunk_def)

lemma chunk_mono: "chunk b b' X ops \<Longrightarrow> X \<subseteq> Y \<Longrightarrow> chunk b b' Y ops"
  by (auto simp: chunk_def intro: scoped_mono)

lemma label_in_interval [simp]:
  "l \<in> {Label m..<Label n} \<longleftrightarrow> m \<le> label_index l \<and> label_index l < n"
  by (cases l) auto

lemma chunk_marks:
  "chunk b b' X ops \<Longrightarrow>
     l \<in> set (mark_list ops) \<longleftrightarrow> num_labels b \<le> label_index l \<and> label_index l < num_labels b'"
  by (simp add: chunk_def del: atLeastLessThan_iff)

lemma chunk_grows: "chunk b b' X ops \<Longrightarrow> num_labels b \<le> num_labels b'"
  by (simp add: chunk_def)

lemma chunkI:
  assumes "stream b' = stream b @ ops" and "num_labels b \<le> num_labels b'"
    and "distinct (mark_list ops)" and "scoped X ops"
    and "\<And>l. l \<in> set (mark_list ops) \<longleftrightarrow>
           num_labels b \<le> label_index l \<and> label_index l < num_labels b'"
  shows "chunk b b' X ops"
  using assms by (simp add: chunk_def set_eq_iff del: atLeastLessThan_iff)

text \<open>Chunks in sequence.\<close>

lemma chunk_append:
  assumes "chunk b b1 X c1" and "chunk b1 b2 X c2"
  shows "chunk b b2 X (c1 @ c2)"
proof (rule chunkI)
  show "distinct (mark_list (c1 @ c2))"
    using assms chunk_marks [OF assms(1)] chunk_marks [OF assms(2)] by (auto simp: chunk_def)
  show "scoped X (c1 @ c2)"
    using assms by (auto simp: chunk_def intro: scoped_mono)
next
  fix l
  show "l \<in> set (mark_list (c1 @ c2)) \<longleftrightarrow> num_labels b \<le> label_index l \<and> label_index l < num_labels b2"
    using chunk_grows [OF assms(1)] chunk_grows [OF assms(2)]
    by (auto simp: chunk_marks [OF assms(1)] chunk_marks [OF assms(2)])
qed (use assms in \<open>auto simp: chunk_def\<close>)

text \<open>Two chunks around a label that was allocated before both and is placed between them.\<close>

lemma chunk_mid:
  assumes "new_label b = (mid, b0)" and "chunk b0 b1 (insert mid X) c1"
    and "chunk (place mid b1) b2 X c2"
  shows "chunk b b2 X (c1 @ Mark mid # c2)"
proof -
  have mid: "mid = Label (num_labels b)" "stream b0 = stream b" "num_labels b0 = Suc (num_labels b)"
    using assms(1) by (auto simp: new_label_def)
  note m1 = chunk_marks [OF assms(2)] and m2 = chunk_marks [OF assms(3)]
  note le = chunk_grows [OF assms(2)] chunk_grows [OF assms(3)]
  show ?thesis
  proof (rule chunkI)
    show "distinct (mark_list (c1 @ Mark mid # c2))"
      using assms(2,3) m1 m2 mid le by (auto simp: chunk_def)
    show "scoped X (c1 @ Mark mid # c2)"
      using assms(2,3) by (auto simp: chunk_def intro: scoped_mono)
  next
    fix l
    show "l \<in> set (mark_list (c1 @ Mark mid # c2)) \<longleftrightarrow>
            num_labels b \<le> label_index l \<and> label_index l < num_labels b2"
      using le mid by (auto simp: m1 m2 label_index_eq)
  qed (use assms mid le in \<open>auto simp: chunk_def\<close>)
qed

section \<open>Gates and tests\<close>

definition below :: "branch \<Rightarrow> ir_builder \<Rightarrow> bool" where
  "below br b \<longleftrightarrow>
     label_index (on_true br) < num_labels b \<and> label_index (on_false br) < num_labels b"

definition pick :: "branch \<Rightarrow> bool \<Rightarrow> label" where
  "pick br t = (if t then on_true br else on_false br)"

lemma pick_below: "below br b \<Longrightarrow> label_index (pick br t) < num_labels b"
  by (simp add: below_def pick_def)

lemma pick_simps [simp]:
  "pick (mk_branch t f) c = (if c then t else f)"
  "pick br True = on_true br"
  "pick br False = on_false br"
  by (simp_all add: pick_def mk_branch_def)

lemma mk_branch_fields [simp]: "on_true (mk_branch t f) = t" "on_false (mk_branch t f) = f"
  by (simp_all add: mk_branch_def)

text \<open>What a test and a gate may end in, given the value \<open>v\<close> they decide.\<close>

fun test_outcome :: "bool \<Rightarrow> branch \<Rightarrow> u32 \<Rightarrow> bool option \<Rightarrow> ir_outcome \<Rightarrow> bool" where
  "test_outcome keep br x None r \<longleftrightarrow> r = Done 0"
| "test_outcome keep br x (Some t) r \<longleftrightarrow> (\<exists>a' x'. r = Goto (pick br t) a' x' \<and> (keep \<longrightarrow> x' = x))"

fun gate_outcome :: "label \<Rightarrow> bool option \<Rightarrow> u32 \<Rightarrow> ir_outcome \<Rightarrow> bool" where
  "gate_outcome lf None y r \<longleftrightarrow> r = Done 0"
| "gate_outcome lf (Some True) y r \<longleftrightarrow> (\<exists>a'. r = Fall a' y)"
| "gate_outcome lf (Some False) y r \<longleftrightarrow> (\<exists>a' x'. r = Goto lf a' x')"

text \<open>
  \<open>test keep b b' br sem\<close>: from \<open>b\<close> to \<open>b'\<close> a chunk was emitted that decides \<open>sem\<close> (a function of
  the packet and of the index register) and leaves to \<open>br\<close>; with \<open>keep\<close> it does not change the
  index register. \<open>gate b b' lf sem xf\<close>: a chunk that falls through with the index register \<open>xf\<close> when
  \<open>sem\<close> holds, and leaves to \<open>lf\<close> when not.
\<close>

definition test ::
    "bool \<Rightarrow> ir_builder \<Rightarrow> ir_builder \<Rightarrow> branch \<Rightarrow> (packet \<Rightarrow> u32 \<Rightarrow> bool option) \<Rightarrow> bool" where
  "test keep b b' br sem \<longleftrightarrow>
     (\<exists>ops. chunk b b' {on_true br, on_false br} ops \<and>
        (\<forall>p a x. test_outcome keep br x (sem p x) (ir_exec p ops a x)))"

definition gate ::
    "ir_builder \<Rightarrow> ir_builder \<Rightarrow> label \<Rightarrow> (packet \<Rightarrow> u32 \<Rightarrow> bool option) \<Rightarrow>
     (packet \<Rightarrow> u32 \<Rightarrow> u32) \<Rightarrow> bool" where
  "gate b b' lf sem xf \<longleftrightarrow>
     (\<exists>ops. chunk b b' {lf} ops \<and>
        (\<forall>p a x. gate_outcome lf (sem p x) (xf p x) (ir_exec p ops a x)))"

text \<open>A test whose verdict does not depend on the registers.\<close>

abbreviation decides :: "ir_builder \<Rightarrow> ir_builder \<Rightarrow> branch \<Rightarrow> (packet \<Rightarrow> bool option) \<Rightarrow> bool" where
  "decides b b' br f \<equiv> test False b b' br (\<lambda>p x. f p)"

lemma test_grows: "test keep b b' br sem \<Longrightarrow> num_labels b \<le> num_labels b'"
  by (auto simp: test_def chunk_def)

lemma gate_grows: "gate b b' lf sem xf \<Longrightarrow> num_labels b \<le> num_labels b'"
  by (auto simp: gate_def chunk_def)

lemma below_grows: "below br b \<Longrightarrow> num_labels b \<le> num_labels b' \<Longrightarrow> below br b'"
  by (auto simp: below_def)

lemma below_builder [simp]:
  "below br (place l b) = below br b"
  "below br (emit op ofs b) = below br b"
  by (simp_all add: below_def)

lemma below_swapped [simp]: "below (swapped br) b = below br b"
  by (auto simp: below_def swapped_def)

text \<open>The branches that a fresh middle label forms with the targets at hand.\<close>

lemma below_mid:
  assumes "new_label b = (mid, b0)" and "below br b"
  shows "below br b0" and "below (mk_branch (on_true br) mid) b0"
    and "below (mk_branch mid (on_false br)) b0"
  using assms by (auto simp: new_label_def below_def)

lemma fresh_label: "label_index l < n \<Longrightarrow> Label n \<noteq> l"
  by auto

lemma test_outcome_forget: "test_outcome keep br x v r \<Longrightarrow> test_outcome False br x v r"
  by (cases v) auto

lemma test_forget: "test keep b b' br sem \<Longrightarrow> test False b b' br sem"
  unfolding test_def by (meson test_outcome_forget)

section \<open>Composition\<close>

lemma gate_outcome_continue:
  assumes "gate_outcome lf v y r" and "lf \<notin> set (mark_list ops)"
  shows "v = None \<Longrightarrow> ir_continue p ops r = Done 0"
    and "v = Some False \<Longrightarrow> \<exists>a' x'. ir_continue p ops r = Goto lf a' x'"
    and "v = Some True \<Longrightarrow> \<exists>a'. ir_continue p ops r = ir_exec p ops a' y"
  using assms by (auto simp: ir_goto_leaves)

lemma gate_gate:
  assumes "gate b b1 lf s1 f1" and "gate b1 b2 lf s2 f2" and "label_index lf < num_labels b"
  shows "gate b b2 lf (\<lambda>p x. and3 (s1 p x) (s2 p (f1 p x))) (\<lambda>p x. f2 p (f1 p x))"
proof -
  obtain c1 c2 where c: "chunk b b1 {lf} c1" "chunk b1 b2 {lf} c2"
    and e1: "\<And>p a x. gate_outcome lf (s1 p x) (f1 p x) (ir_exec p c1 a x)"
    and e2: "\<And>p a x. gate_outcome lf (s2 p x) (f2 p x) (ir_exec p c2 a x)"
    using assms(1,2) by (auto simp: gate_def)
  have lf: "lf \<notin> set (mark_list c2)"
    using chunk_marks [OF c(2), of lf] chunk_grows [OF c(1)] assms(3) by auto
  have "gate_outcome lf (and3 (s1 p x) (s2 p (f1 p x))) (f2 p (f1 p x)) (ir_exec p (c1 @ c2) a x)"
    for p a x
  proof (cases "s1 p x")
    case None
    then show ?thesis using gate_outcome_continue(1) [OF e1 lf] by (simp add: ir_append)
  next
    case (Some t)
    show ?thesis
    proof (cases t)
      case True
      then have "s1 p x = Some True" using Some by simp
      then obtain a' where "ir_continue p c2 (ir_exec p c1 a x) = ir_exec p c2 a' (f1 p x)"
        using gate_outcome_continue(3) [OF e1 lf] by blast
      then show ?thesis using e2 [of p "f1 p x" a'] Some True by (simp add: ir_append)
    next
      case False
      then show ?thesis
        using gate_outcome_continue(2) [OF e1 lf, of p x p a] Some by (auto simp: ir_append)
    qed
  qed
  then show ?thesis using chunk_append [OF c] by (auto simp: gate_def)
qed

lemma gate_test:
  assumes "gate b b1 (on_false br) s1 f1" and "test keep b1 b2 br s2" and "below br b"
  shows "test False b b2 br (\<lambda>p x. and3 (s1 p x) (s2 p (f1 p x)))"
proof -
  obtain c1 c2 where c: "chunk b b1 {on_false br} c1" "chunk b1 b2 {on_true br, on_false br} c2"
    and e1: "\<And>p a x. gate_outcome (on_false br) (s1 p x) (f1 p x) (ir_exec p c1 a x)"
    and e2: "\<And>p a x. test_outcome keep br x (s2 p x) (ir_exec p c2 a x)"
    using assms(1,2) by (auto simp: gate_def test_def)
  have lf: "on_false br \<notin> set (mark_list c2)"
    using chunk_marks [OF c(2), of "on_false br"] chunk_grows [OF c(1)] assms(3)
    by (auto simp: below_def)
  have "test_outcome False br x (and3 (s1 p x) (s2 p (f1 p x))) (ir_exec p (c1 @ c2) a x)" for p a x
  proof (cases "s1 p x")
    case None
    then show ?thesis using gate_outcome_continue(1) [OF e1 lf] by (simp add: ir_append)
  next
    case (Some t)
    show ?thesis
    proof (cases t)
      case True
      then have "s1 p x = Some True" using Some by simp
      then obtain a' where "ir_continue p c2 (ir_exec p c1 a x) = ir_exec p c2 a' (f1 p x)"
        using gate_outcome_continue(3) [OF e1 lf] by blast
      then show ?thesis
        using test_outcome_forget [OF e2 [of "f1 p x" p a']] Some True
        by (cases "s2 p (f1 p x)") (auto simp: ir_append)
    next
      case False
      then show ?thesis
        using gate_outcome_continue(2) [OF e1 lf, of p x p a] Some by (auto simp: ir_append)
    qed
  qed
  then show ?thesis
    using chunk_append [OF chunk_mono [OF c(1)] c(2)] by (auto simp: test_def)
qed

text \<open>
  Two tests around a middle label \<open>mid\<close>. The second may read the index register only when the first
  keeps it.
\<close>

lemma test_mid:
  assumes "new_label b = (mid, b0)" and "test keep b0 b1 br1 s1"
    and "test keep' (place mid b1) b2 br s2" and "below br b"
    and "\<And>t. pick br1 t \<noteq> mid \<Longrightarrow> pick br1 t = pick br t"
    and "keep \<or> (\<forall>p x y. s2 p x = s2 p y)"
  shows "test False b b2 br
     (\<lambda>p x. case s1 p x of
        None \<Rightarrow> None | Some t \<Rightarrow> if pick br1 t = mid then s2 p x else Some t)"
proof -
  obtain c1 c2 where c1: "chunk b0 b1 {on_true br1, on_false br1} c1"
    and c2: "chunk (place mid b1) b2 {on_true br, on_false br} c2"
    and e1: "\<And>p a x. test_outcome keep br1 x (s1 p x) (ir_exec p c1 a x)"
    and e2: "\<And>p a x. test_outcome keep' br x (s2 p x) (ir_exec p c2 a x)"
    using assms(2,3) by (auto simp: test_def)
  have "{on_true br1, on_false br1} \<subseteq> insert mid {on_true br, on_false br}"
    using assms(5) [of True] assms(5) [of False] by auto
  then have chunk: "chunk b b2 {on_true br, on_false br} (c1 @ Mark mid # c2)"
    using chunk_mid [OF assms(1) chunk_mono [OF c1] c2] by blast
  have mid: "mid = Label (num_labels b)" "num_labels b0 = Suc (num_labels b)"
    using assms(1) by (auto simp: new_label_def)
  have out: "pick br t \<notin> set (mark_list c2)" "pick br t \<noteq> mid" for t
    using chunk_marks [OF c2, of "pick br t"] pick_below [OF assms(4), of t] chunk_grows [OF c1] mid
    by auto
  have "test_outcome False br x
          (case s1 p x of None \<Rightarrow> None | Some t \<Rightarrow> if pick br1 t = mid then s2 p x else Some t)
          (ir_exec p (c1 @ Mark mid # c2) a x)" for p a x
  proof (cases "s1 p x")
    case None
    then show ?thesis using e1 [of x p a] by (simp add: ir_append)
  next
    case (Some t)
    then obtain a' x' where g: "ir_exec p c1 a x = Goto (pick br1 t) a' x'" "keep \<longrightarrow> x' = x"
      using e1 [of x p a] by auto
    have s2: "s2 p x' = s2 p x" using g(2) assms(6) by auto
    show ?thesis
    proof (cases "pick br1 t = mid")
      case True
      then show ?thesis
        using Some g s2 test_outcome_forget [OF e2 [of x' p a']]
        by (cases "s2 p x") (auto simp: ir_append)
    next
      case False
      then show ?thesis
        using Some g assms(5) [OF False] out [of t]
        by (auto simp: ir_append ir_goto_leaves)
    qed
  qed
  with chunk show ?thesis by (auto simp: test_def)
qed

lemma test_or:
  assumes "new_label b = (mid, b0)" and "test keep b0 b1 (mk_branch (on_true br) mid) s1"
    and "test keep' (place mid b1) b2 br s2" and "below br b"
    and "keep \<or> (\<forall>p x y. s2 p x = s2 p y)"
  shows "test False b b2 br (\<lambda>p x. or3 (s1 p x) (s2 p x))"
proof -
  have "on_true br \<noteq> mid" using assms(1,4) by (auto simp: new_label_def below_def)
  moreover have "test False b b2 br
     (\<lambda>p x. case s1 p x of None \<Rightarrow> None
        | Some t \<Rightarrow> if pick (mk_branch (on_true br) mid) t = mid then s2 p x else Some t)"
    using assms by (intro test_mid [where keep = keep]) (auto split: if_splits)
  moreover have "(case s1 p x of None \<Rightarrow> None
        | Some t \<Rightarrow> if pick (mk_branch (on_true br) mid) t = mid then s2 p x else Some t) =
      or3 (s1 p x) (s2 p x)" for p x
    using calculation(1) by (cases "s1 p x") auto
  ultimately show ?thesis by simp
qed

lemma test_and:
  assumes "new_label b = (mid, b0)" and "test keep b0 b1 (mk_branch mid (on_false br)) s1"
    and "test keep' (place mid b1) b2 br s2" and "below br b"
    and "keep \<or> (\<forall>p x y. s2 p x = s2 p y)"
  shows "test False b b2 br (\<lambda>p x. and3 (s1 p x) (s2 p x))"
proof -
  have "on_false br \<noteq> mid" using assms(1,4) by (auto simp: new_label_def below_def)
  moreover have "test False b b2 br
     (\<lambda>p x. case s1 p x of None \<Rightarrow> None
        | Some t \<Rightarrow> if pick (mk_branch mid (on_false br)) t = mid then s2 p x else Some t)"
    using assms by (intro test_mid [where keep = keep]) (auto split: if_splits)
  moreover have "(case s1 p x of None \<Rightarrow> None
        | Some t \<Rightarrow> if pick (mk_branch mid (on_false br)) t = mid then s2 p x else Some t) =
      and3 (s1 p x) (s2 p x)" for p x
    using calculation(1) by (cases "s1 p x") auto
  ultimately show ?thesis by simp
qed

lemma test_not:
  "test keep b b' (swapped br) sem \<Longrightarrow> test keep b b' br (\<lambda>p x. not3 (sem p x))"
proof -
  assume "test keep b b' (swapped br) sem"
  then obtain ops where ops: "chunk b b' {on_true (swapped br), on_false (swapped br)} ops"
    and e: "\<And>p a x. test_outcome keep (swapped br) x (sem p x) (ir_exec p ops a x)"
    by (auto simp: test_def)
  have "test_outcome keep br x (not3 (sem p x)) (ir_exec p ops a x)" for p a x
    using e [of x p a] by (cases "sem p x") (auto simp: not3_def swapped_def pick_def)
  moreover have "chunk b b' {on_true br, on_false br} ops"
    using ops by (simp add: swapped_def insert_commute)
  ultimately show ?thesis by (auto simp: test_def)
qed

end
