(* ===== verification/CodegenCorrect.thy ===== *)
theory CodegenCorrect
  imports Emit
begin

text \<open>
  Each emitter of the code generator meets its contract, up to the whole expression: from a builder
  \<open>b\<close> to the builder it returns, the code that \<open>compile_expr\<close> appended decides \<open>eval\<close>.
\<close>

named_theorems emits "what the emitters' chunks decide"

section \<open>Straight-line chunks\<close>

lemma testI:
  assumes "stream b' = stream b @ ops" and "num_labels b' = num_labels b" and "mark_list ops = []"
    and "scoped {on_true br, on_false br} ops"
    and "\<And>p a x. test_outcome keep br x (sem p x) (ir_exec p ops a x)"
  shows "test keep b b' br sem"
  unfolding test_def using assms by (intro exI [of _ ops]) (auto intro!: chunkI)

lemma gateI:
  assumes "stream b' = stream b @ ops" and "num_labels b' = num_labels b + 1"
    and "mark_list ops = [Label (num_labels b)]" and "scoped {lf} ops"
    and "\<And>p a x. gate_outcome lf (sem p x) (xf p x) (ir_exec p ops a x)"
  shows "gate b b' lf sem xf"
  unfolding gate_def using assms by (intro exI [of _ ops]) (auto intro!: chunkI simp: label_index_eq)

text \<open>A conditional jump whose true or false side is the next instruction, behind one load.\<close>

lemma gate_ldh_eq_gate [emits]:
  assumes "label_index lf < num_labels b"
  shows "gate b (gate_ldh_eq j imm ofs lf b) lf
     (\<lambda>p x. holds (\<lambda>v. v = imm) (read_u16 p (unat j))) (\<lambda>p x. x)"
proof (rule gateI)
  show "gate_outcome lf (holds (\<lambda>v. v = imm) (read_u16 p (unat j))) x
     (ir_exec p [Real \<lparr>ir_op2 = IrLdhAbs j, ir_offset = ofs\<rparr>,
        Real \<lparr>ir_op2 = IrJeq imm (Label (num_labels b)) lf, ir_offset = ofs\<rparr>,
        Mark (Label (num_labels b))] a x)" for p a x
    using assms by (cases "read_u16 p (unat j)") (auto simp: ir_load_def)
qed (auto simp: gate_ldh_eq_def new_label_def Let_def)

lemma gate_ldb_eq_gate [emits]:
  assumes "label_index lf < num_labels b"
  shows "gate b (gate_ldb_eq j imm ofs lf b) lf
     (\<lambda>p x. holds (\<lambda>v. v = imm) (read_u8 p (unat j))) (\<lambda>p x. x)"
proof (rule gateI)
  show "gate_outcome lf (holds (\<lambda>v. v = imm) (read_u8 p (unat j))) x
     (ir_exec p [Real \<lparr>ir_op2 = IrLdbAbs j, ir_offset = ofs\<rparr>,
        Real \<lparr>ir_op2 = IrJeq imm (Label (num_labels b)) lf, ir_offset = ofs\<rparr>,
        Mark (Label (num_labels b))] a x)" for p a x
    using assms by (cases "read_u8 p (unat j)") (auto simp: ir_load_def)
qed (auto simp: gate_ldb_eq_def new_label_def Let_def)

lemma gate_ip_version_gate [emits]:
  assumes "label_index lf < num_labels b"
  shows "gate b (gate_ip_version ctx n ofs lf b) lf
     (\<lambda>p x. holds (\<lambda>v. v AND 0xf0 = n) (read_u8 p (unat (ip_base ctx)))) (\<lambda>p x. x)"
proof (rule gateI)
  show "gate_outcome lf (holds (\<lambda>v. v AND 0xf0 = n) (read_u8 p (unat (ip_base ctx)))) x
     (ir_exec p [Real \<lparr>ir_op2 = IrLdbAbs (ip_base ctx), ir_offset = ofs\<rparr>,
        Real \<lparr>ir_op2 = IrAndK 0xf0, ir_offset = ofs\<rparr>,
        Real \<lparr>ir_op2 = IrJeq n (Label (num_labels b)) lf, ir_offset = ofs\<rparr>,
        Mark (Label (num_labels b))] a x)" for p a x
    using assms by (cases "read_u8 p (unat (ip_base ctx))") (auto simp: ir_load_def)
qed (auto simp: gate_ip_version_def new_label_def Let_def)

lemma emit_not_fragment_gate_gate [emits]:
  assumes "label_index lf < num_labels b"
  shows "gate b (emit_not_fragment_gate ctx ofs lf b) lf
     (\<lambda>p x. holds (\<lambda>v. v AND FRAG_MASK = 0)
        (read_u16 p (unat (ip_base ctx + IP_FLAGS_FRAG_OFFSET)))) (\<lambda>p x. x)"
proof (rule gateI)
  show "gate_outcome lf (holds (\<lambda>v. v AND FRAG_MASK = 0)
        (read_u16 p (unat (ip_base ctx + IP_FLAGS_FRAG_OFFSET)))) x
     (ir_exec p [Real \<lparr>ir_op2 = IrLdhAbs (ip_base ctx + IP_FLAGS_FRAG_OFFSET), ir_offset = ofs\<rparr>,
        Real \<lparr>ir_op2 = IrJset FRAG_MASK lf (Label (num_labels b)), ir_offset = ofs\<rparr>,
        Mark (Label (num_labels b))] a x)" for p a x
    using assms
    by (cases "read_u16 p (unat (ip_base ctx + IP_FLAGS_FRAG_OFFSET))") (auto simp: ir_load_def)
qed (auto simp: emit_not_fragment_gate_def new_label_def Let_def)

lemma ldx_msh_gate [emits]:
  "gate b (emit (IrLdxMsh (ip_base ctx)) ofs b) lf
     (\<lambda>p x. holds (\<lambda>v. True) (read_u8 p (unat (ip_base ctx)))) (\<lambda>p x. header_len ctx p)"
  unfolding gate_def
proof (intro exI conjI allI)
  show "chunk b (emit (IrLdxMsh (ip_base ctx)) ofs b) {lf}
     [Real \<lparr>ir_op2 = IrLdxMsh (ip_base ctx), ir_offset = ofs\<rparr>]"
    by (rule chunkI) auto
  show "gate_outcome lf (holds (\<lambda>v. True) (read_u8 p (unat (ip_base ctx)))) (header_len ctx p)
     (ir_exec p [Real \<lparr>ir_op2 = IrLdxMsh (ip_base ctx), ir_offset = ofs\<rparr>] a x)" for p a x
    by (cases "read_u8 p (unat (ip_base ctx))") (auto simp: ir_load_def header_len_def)
qed

section \<open>Prologues\<close>

lemma emit_l3_gate_gate [emits]:
  assumes "emit_l3_gate ctx ethertype ofs lf b = Ok b'" and "label_index lf < num_labels b"
  shows "gate b b' lf (\<lambda>p x. eval_l3 ctx ethertype p) (\<lambda>p x. x)"
proof (cases "eth_field ctx")
  case (Some f)
  then show ?thesis
    using assms(1) gate_ldh_eq_gate [OF assms(2), of f ethertype ofs]
    by (auto simp: emit_l3_gate_def eval_l3_def)
next
  case None
  then have "b' = gate_ip_version ctx (version_nibble ethertype) ofs lf b"
    using assms(1)
    by (auto simp: emit_l3_gate_def version_nibble_def ETH_TYPE_IP_def ETH_TYPE_IPV6_def
        split: if_splits)
  then show ?thesis
    using None gate_ip_version_gate [OF assms(2)] by (simp add: eval_l3_def)
qed

lemma gates_gate [emits]:
  assumes "emit_ethertype_and_proto_gates ctx ethertype field proto ofs lf b = Ok b'"
    and "label_index lf < num_labels b"
  shows "gate b b' lf (\<lambda>p x. eval_gates ctx ethertype field proto p) (\<lambda>p x. x)"
proof -
  obtain b1 where b1: "emit_l3_gate ctx ethertype ofs lf b = Ok b1"
    using assms(1) by (auto simp: emit_ethertype_and_proto_gates_def)
  note g1 = emit_l3_gate_gate [OF b1 assms(2)]
  show ?thesis
  proof (cases proto)
    case None
    then show ?thesis
      using assms(1) b1 g1 by (simp add: emit_ethertype_and_proto_gates_def eval_gates_def)
  next
    case (Some n)
    then have b': "b' = gate_ldb_eq (ip_base ctx + field) n ofs lf b1"
      using assms(1) b1 by (simp add: emit_ethertype_and_proto_gates_def)
    have "label_index lf < num_labels b1" using gate_grows [OF g1] assms(2) by simp
    from gate_gate [OF g1 gate_ldb_eq_gate [OF this] assms(2)] show ?thesis
      by (simp add: Some b' eval_gates_def)
  qed
qed

section \<open>Comparisons\<close>

lemma emit_addr_terminal_test [emits]:
  "test True b (emit_addr_terminal ctx gates d msk target ofs br b) br
     (\<lambda>p x. eval_addr_word ctx gates d msk target p)"
proof (rule testI)
  let ?ops = "Real \<lparr>ir_op2 = IrLdwAbs (ip_base ctx + dir_offset gates d), ir_offset = ofs\<rparr> #
     (case msk of None \<Rightarrow> [] | Some m \<Rightarrow> if m \<noteq> -1 then [Real \<lparr>ir_op2 = IrAndK m, ir_offset = ofs\<rparr>] else []) @
     [Real \<lparr>ir_op2 = IrJeq target (on_true br) (on_false br), ir_offset = ofs\<rparr>]"
  show "stream (emit_addr_terminal ctx gates d msk target ofs br b) = stream b @ ?ops"
    by (cases msk) (simp_all add: emit_addr_terminal_def Let_def)
  show "num_labels (emit_addr_terminal ctx gates d msk target ofs br b) = num_labels b"
    by (cases msk) (simp_all add: emit_addr_terminal_def Let_def)
  show "mark_list ?ops = []" "scoped {on_true br, on_false br} ?ops"
    by (cases msk; simp)+
  show "test_outcome True br x (eval_addr_word ctx gates d msk target p) (ir_exec p ?ops a x)" for p a x
    by (cases "read_u32 p (unat (ip_base ctx + dir_offset gates d))"; cases msk)
       (auto simp: eval_addr_word_def ir_load_def mask_target_def)
qed

lemma in_range_single: "in_range lo lo v \<longleftrightarrow> v = ucast lo"
  by (auto simp: in_range_def)

lemma emit_port_compare_test:
  assumes "load \<in> {IrLdhInd v, IrLdhAbs v}" and "below br b"
  shows "test True b (emit_port_compare lo hi ofs br (emit load ofs b)) br
    (\<lambda>p x. holds (in_range lo hi)
       (case load of IrLdhAbs v \<Rightarrow> read_u16 p (unat v)
        | _ \<Rightarrow> Option.bind (checked_add (unat x) (unat v)) (read_u16 p)))"
    (is "test True b ?b' br ?sem")
proof (cases "lo = hi")
  case True
  show ?thesis
  proof (rule testI)
    let ?ops = "[Real \<lparr>ir_op2 = load, ir_offset = ofs\<rparr>,
       Real \<lparr>ir_op2 = IrJeq (ucast lo) (on_true br) (on_false br), ir_offset = ofs\<rparr>]"
    show "stream ?b' = stream b @ ?ops" by (simp add: True emit_port_compare_def)
    show "test_outcome True br x (?sem p x) (ir_exec p ?ops a x)" for p a x
      using assms True
      by (cases "read_u16 p (unat v)";
          cases "Option.bind (checked_add (unat x) (unat v)) (read_u16 p)")
         (auto simp: ir_load_def in_range_single)
  qed (use assms True in \<open>auto simp: emit_port_compare_def\<close>)
next
  case False
  let ?m = "Label (num_labels b)"
  let ?ops = "[Real \<lparr>ir_op2 = load, ir_offset = ofs\<rparr>,
       Real \<lparr>ir_op2 = IrJge (ucast lo) ?m (on_false br), ir_offset = ofs\<rparr>,
       Mark ?m, Real \<lparr>ir_op2 = IrJgt (ucast hi) (on_false br) (on_true br), ir_offset = ofs\<rparr>]"
  have "chunk b ?b' {on_true br, on_false br} ?ops"
    using False assms(1)
    by (intro chunkI) (auto simp: emit_port_compare_def new_label_def Let_def label_index_eq)
  moreover have "?m \<noteq> on_false br" using assms(2) by (simp add: below_def fresh_label)
  then have "test_outcome True br x (?sem p x) (ir_exec p ?ops a x)" for p a x
    using assms(1)
    by (cases "read_u16 p (unat v)";
        cases "Option.bind (checked_add (unat x) (unat v)) (read_u16 p)")
       (auto simp: ir_load_def in_range_def pick_def not_le not_less)
  ultimately show ?thesis by (auto simp: test_def)
qed

lemma emit_port_terminal_test [emits]:
  "below br b \<Longrightarrow>
     test True b (emit_port_terminal ctx d lo hi ofs br b) br (\<lambda>p x. eval_port4_at ctx d lo hi p x)"
  using emit_port_compare_test [of "IrLdhInd (ip_base ctx + port_rel d)" "ip_base ctx + port_rel d"]
  by (simp add: emit_port_terminal_def eval_port4_at_def)

lemma emit_port6_terminal_test [emits]:
  "below br b \<Longrightarrow>
     test True b (emit_port6_terminal ctx d lo hi ofs br b) br (\<lambda>p x. eval_port6_at ctx d lo hi p)"
  using emit_port_compare_test [of "IrLdhAbs (ip_base ctx + IP6_HEADER_LEN + port_rel d)"
      "ip_base ctx + IP6_HEADER_LEN + port_rel d"]
  by (simp add: emit_port6_terminal_def eval_port6_at_def)

text \<open>A MAC comparison: four bytes, then two.\<close>

lemma emit_mac_eq_test [emits]:
  assumes "below br b"
  shows "test True b (emit_mac_eq field mac ofs br b) br (\<lambda>p x. eval_mac field mac p)"
proof -
  obtain m0 m1 m2 m3 m4 m5 where mac: "mac = MacAddr m0 m1 m2 m3 m4 m5" by (cases mac)
  let ?m = "Label (num_labels b)"
  let ?ops = "[Real \<lparr>ir_op2 = IrLdwAbs field, ir_offset = ofs\<rparr>,
     Real \<lparr>ir_op2 = IrJeq (u32_from_be_bytes m0 m1 m2 m3) ?m (on_false br), ir_offset = ofs\<rparr>,
     Mark ?m, Real \<lparr>ir_op2 = IrLdhAbs (field + 4), ir_offset = ofs\<rparr>,
     Real \<lparr>ir_op2 = IrJeq (ucast (u16_from_be_bytes m4 m5)) (on_true br) (on_false br),
       ir_offset = ofs\<rparr>]"
  have "chunk b (emit_mac_eq field mac ofs br b) {on_true br, on_false br} ?ops"
    by (intro chunkI) (auto simp: mac emit_mac_eq_def new_label_def Let_def label_index_eq)
  moreover have "?m \<noteq> on_false br" using assms by (simp add: below_def fresh_label)
  then have "test_outcome True br x (eval_mac field mac p) (ir_exec p ?ops a x)" for p a x
    by (cases "read_u32 p (unat field)"; cases "read_u16 p (unat (field + 4))")
       (auto simp: mac ir_load_def pick_def)
  ultimately show ?thesis by (auto simp: test_def)
qed

section \<open>IPv6 addresses\<close>

lemma netmask_of_bits: "n \<le> 32 \<Longrightarrow> netmask (of_nat n) = Ok (mask_of n)"
proof -
  assume "n \<le> 32"
  moreover have "unat (of_nat n :: u8) = n" using \<open>n \<le> 32\<close> by (simp add: unat_of_nat_u8)
  ultimately show ?thesis by (auto simp: netmask_def mask_of_def unat_eq_zero)
qed

text \<open>One word: the last one is a test, the others are gates.\<close>

lemma emit_addr6_word_last:
  assumes "emit_addr6_word ctx start addr prefix words ofs br i b = Ok b'" and "i = words - 1"
  shows "test True b b' br (\<lambda>p x. eval_addr6_word ctx start addr prefix p i)"
proof (rule testI)
  let ?mask = "mask_of (min (prefix - 32 * i) 32)"
  let ?ops = "Real \<lparr>ir_op2 = IrLdwAbs (ip_base ctx + start + 4 * of_nat i), ir_offset = ofs\<rparr> #
     (if ?mask \<noteq> -1 then [Real \<lparr>ir_op2 = IrAndK ?mask, ir_offset = ofs\<rparr>] else []) @
     [Real \<lparr>ir_op2 = IrJeq (ucast (drop_bit (96 - 32 * i) addr) AND ?mask) (on_true br) (on_false br),
        ir_offset = ofs\<rparr>]"
  show "stream b' = stream b @ ?ops" "num_labels b' = num_labels b"
    using assms by (auto simp: emit_addr6_word_def netmask_of_bits Let_def split: if_splits)
  show "test_outcome True br x (eval_addr6_word ctx start addr prefix p i) (ir_exec p ?ops a x)" for p a x
    by (cases "read_u32 p (unat (ip_base ctx + start + 4 * of_nat i))")
       (auto simp: eval_addr6_word_def ir_load_def Let_def)
qed auto

lemma emit_addr6_word_gate:
  assumes "emit_addr6_word ctx start addr prefix words ofs br i b = Ok b'" and "i \<noteq> words - 1"
    and "label_index (on_false br) < num_labels b"
  shows "gate b b' (on_false br) (\<lambda>p x. eval_addr6_word ctx start addr prefix p i) (\<lambda>p x. x)"
proof (rule gateI)
  let ?mask = "mask_of (min (prefix - 32 * i) 32)"
  let ?ops = "Real \<lparr>ir_op2 = IrLdwAbs (ip_base ctx + start + 4 * of_nat i), ir_offset = ofs\<rparr> #
     (if ?mask \<noteq> -1 then [Real \<lparr>ir_op2 = IrAndK ?mask, ir_offset = ofs\<rparr>] else []) @
     [Real \<lparr>ir_op2 = IrJeq (ucast (drop_bit (96 - 32 * i) addr) AND ?mask)
        (Label (num_labels b)) (on_false br), ir_offset = ofs\<rparr>, Mark (Label (num_labels b))]"
  show "stream b' = stream b @ ?ops" "num_labels b' = num_labels b + 1"
    using assms
    by (auto simp: emit_addr6_word_def netmask_of_bits Let_def new_label_def split: if_splits)
  show "gate_outcome (on_false br) (eval_addr6_word ctx start addr prefix p i) x (ir_exec p ?ops a x)"
    for p a x
    using fresh_label [OF assms(3)]
    by (cases "read_u32 p (unat (ip_base ctx + start + 4 * of_nat i))")
       (auto simp: eval_addr6_word_def ir_load_def Let_def)
qed auto

lemma emit_addr6_words_test:
  assumes "emit_addr6_words ctx start addr prefix words ofs br [i..<words] b = Ok b'"
    and "i < words" and "below br b"
  shows "decides b b' br (\<lambda>p. eval_addr6_words ctx start addr prefix p [i..<words])"
  using assms
proof (induction "words - i" arbitrary: i b)
  case (Suc n)
  then have i: "[i..<words] = i # [Suc i..<words]" by (simp add: upt_conv_Cons)
  with Suc.prems obtain b1 where
    b1: "emit_addr6_word ctx start addr prefix words ofs br i b = Ok b1"
    and b': "emit_addr6_words ctx start addr prefix words ofs br [Suc i..<words] b1 = Ok b'"
    by auto
  show ?case
  proof (cases "i = words - 1")
    case True
    then have "[Suc i..<words] = []" using Suc.prems(2) by simp
    with b' have "b' = b1" "eval_addr6_words ctx start addr prefix p [i..<words] =
        eval_addr6_word ctx start addr prefix p i" for p
      by (simp_all only: i eval_addr6_words.simps emit_addr6_words.simps result.inject and3_True_right)
    then show ?thesis
      using test_forget [OF emit_addr6_word_last [OF b1 True]] by simp
  next
    case False
    then have g: "gate b b1 (on_false br) (\<lambda>p x. eval_addr6_word ctx start addr prefix p i) (\<lambda>p x. x)"
      using emit_addr6_word_gate [OF b1] Suc.prems(3) by (simp add: below_def)
    have "below br b1" using below_grows [OF Suc.prems(3) gate_grows [OF g]] .
    then have "decides b1 b' br (\<lambda>p. eval_addr6_words ctx start addr prefix p [Suc i..<words])"
      using Suc.hyps(1) [OF _ b'] Suc.hyps(2) False Suc.prems(2) by simp
    from gate_test [OF g this Suc.prems(3)] show ?thesis by (simp add: i)
  qed
qed simp

lemma emit_addr6_terminal_test [emits]:
  assumes "emit_addr6_terminal ctx gates d addr prefix ofs br b = Ok b'" and "below br b"
  shows "decides b b' br (\<lambda>p. eval_addr6 ctx gates d addr prefix p)"
proof (cases "(prefix + 31) div 32 = 0")
  case True
  then have "b' = emit (IrJmp (on_true br)) ofs b"
    using assms(1) by (simp add: emit_addr6_terminal_def)
  moreover have "eval_addr6 ctx gates d addr prefix p = Some True" for p
    using True by (simp add: eval_addr6_def)
  ultimately show ?thesis
    by (intro testI [where ops = "[Real \<lparr>ir_op2 = IrJmp (on_true br), ir_offset = ofs\<rparr>]"]) auto
next
  case False
  then show ?thesis
    using assms emit_addr6_words_test [of ctx "dir_offset gates d" addr prefix "(prefix + 31) div 32" ofs br 0 b b']
    by (simp add: emit_addr6_terminal_def eval_addr6_def Let_def)
qed

section \<open>Two directions behind one prologue\<close>

text \<open>
  The terminals of a primitive share an interface: given a direction and a branch they emit a test.
  Where a bare \<open>src or dst\<close> leaf is expanded, two of them stand behind one prologue, and then the
  first must leave the index register alone if the second reads it.
\<close>

locale terminal =
  fixes emit_dir :: "dir_tag \<Rightarrow> branch \<Rightarrow> ir_builder \<Rightarrow> ir_builder res"
    and sem :: "dir_tag \<Rightarrow> packet \<Rightarrow> u32 \<Rightarrow> bool option"
    and keep :: bool
  assumes emits_test:
      "emit_dir d br b = Ok b' \<Longrightarrow> below br b \<Longrightarrow> test keep b b' br (sem d)"
    and index_safe: "keep \<or> (\<forall>d p x y. sem d p x = sem d p y)"
begin

definition emit_pair :: "dir_tag \<Rightarrow> dir_tag \<Rightarrow> branch \<Rightarrow> ir_builder \<Rightarrow> ir_builder res" where
  "emit_pair d1 d2 br b =
     (let (mid, b) = new_label b in
      and_then (emit_dir d1 (mk_branch (on_true br) mid) b) (\<lambda>b. emit_dir d2 br (place mid b)))"

lemma single:
  "emit_dir d br b = Ok b' \<Longrightarrow> below br b \<Longrightarrow> test False b b' br (sem d)"
  by (blast intro: test_forget emits_test)

lemma pair:
  assumes "emit_pair d1 d2 br b = Ok b'" and "below br b"
  shows "test False b b' br (\<lambda>p x. or3 (sem d1 p x) (sem d2 p x))"
proof -
  obtain mid b0 b1 where mid: "new_label b = (mid, b0)"
    and b1: "emit_dir d1 (mk_branch (on_true br) mid) b0 = Ok b1"
    and b': "emit_dir d2 br (place mid b1) = Ok b'"
    using assms(1) by (auto simp: emit_pair_def split: prod.splits)
  note t1 = emits_test [OF b1 below_mid(2) [OF mid assms(2)]]
  have "below br (place mid b1)"
    using below_grows [OF below_mid(1) [OF mid assms(2)] test_grows [OF t1]] by simp
  from test_or [OF mid t1 emits_test [OF b' this] assms(2)] index_safe show ?thesis by blast
qed

text \<open>Behind a prologue that leaves to the false target.\<close>

lemma gated_single:
  assumes "gate b b1 (on_false br) g f" and "emit_dir d br b1 = Ok b'" and "below br b"
  shows "test False b b' br (\<lambda>p x. and3 (g p x) (sem d p (f p x)))"
  by (rule gate_test [OF assms(1) single [OF assms(2) below_grows [OF assms(3) gate_grows [OF assms(1)]]]
        assms(3)])

lemma gated_pair:
  assumes "gate b b1 (on_false br) g f" and "emit_pair d1 d2 br b1 = Ok b'" and "below br b"
  shows "test False b b' br
     (\<lambda>p x. or3 (and3 (g p x) (sem d1 p (f p x))) (and3 (g p x) (sem d2 p (f p x))))"
  using gate_test [OF assms(1) pair [OF assms(2) below_grows [OF assms(3) gate_grows [OF assms(1)]]]
      assms(3)]
  by (simp add: and3_or3_distrib)

end

interpretation addr4: terminal
  "\<lambda>d br b. Ok (emit_addr_terminal ctx gates d msk target ofs br b)"
  "\<lambda>d p x. eval_addr_word ctx gates d msk target p" True
  for ctx gates msk target ofs
  by unfold_locales (auto intro: emit_addr_terminal_test)

interpretation addr6: terminal
  "\<lambda>d br b. emit_addr6_terminal ctx gates d addr prefix ofs br b"
  "\<lambda>d p x. eval_addr6 ctx gates d addr prefix p" False
  for ctx gates addr prefix ofs
  by unfold_locales (auto intro: emit_addr6_terminal_test)

interpretation port4: terminal
  "\<lambda>d br b. Ok (emit_port_terminal ctx d lo hi ofs br b)"
  "\<lambda>d p x. eval_port4_at ctx d lo hi p x" True
  for ctx lo hi ofs
  by unfold_locales (auto intro: emit_port_terminal_test)

interpretation port6: terminal
  "\<lambda>d br b. Ok (emit_port6_terminal ctx d lo hi ofs br b)"
  "\<lambda>d p x. eval_port6_at ctx d lo hi p" True
  for ctx lo hi ofs
  by unfold_locales (auto intro: emit_port6_terminal_test)

lemma mac_field_simps [simp]:
  "mac_field Src = ETH_SRC_MAC_OFFSET" "mac_field Dst = ETH_DST_MAC_OFFSET"
  by (simp_all add: mac_field_def)

interpretation mac: terminal
  "\<lambda>d br b. Ok (emit_mac_eq (mac_field d) m ofs br b)"
  "\<lambda>d p x. eval_mac (mac_field d) m p" True
  for m ofs
  by unfold_locales (auto intro: emit_mac_eq_test)

section \<open>Address leaves\<close>

lemma addr_gates_Ok:
  "addr_gates proto ofs = Ok g \<Longrightarrow> addr_gates proto ofs' = Ok g"
  by (cases proto) auto

lemma map_netmask_Ok: "map_netmask prefix = Ok m \<Longrightarrow> m = map_option (\<lambda>n. mask_of (unat n)) prefix"
  by (cases prefix) (auto simp: netmask_def mask_of_def unat_eq_zero split: if_splits)

lemma g_ethertype_ip6 [simp]: "g_ethertype ip6_gates = ETH_TYPE_IPV6"
  by (simp add: ip6_gates_def)

lemma compile_addr6_decides:
  assumes "compile_addr6 p1 None ctx a prefix br b = Ok b'" and "below br b"
  shows "decides b b' br (eval_addr ctx (cp_proto p1) (cp_dir p1) (V6 a) prefix)"
proof -
  let ?n = "unat (case prefix of None \<Rightarrow> 128 | Some n \<Rightarrow> n)"
  obtain b1 where b1: "emit_ethertype_and_proto_gates ctx ETH_TYPE_IPV6 IP6_NEXTHDR_OFFSET None
      (cp_offset p1) (on_false br) b = Ok b1"
    and b': "emit_addr6_terminal ctx ip6_gates (cp_dir p1) a ?n (cp_offset p1) br b1 = Ok b'"
    using assms(1)
    by (auto simp: compile_addr6_def Let_def split: if_splits)
  have "label_index (on_false br) < num_labels b" using assms(2) by (simp add: below_def)
  from addr6.gated_single [OF gates_gate [OF b1 this] b' assms(2)]
  show ?thesis by (simp add: eval_addr_def)
qed

lemma compile_addr6_pair_decides:
  assumes "compile_addr6 p1 (Some p2) ctx a prefix br b = Ok b'" and "below br b"
  shows "decides b b' br
    (\<lambda>p. or3 (eval_addr ctx (cp_proto p1) (cp_dir p1) (V6 a) prefix p)
             (eval_addr ctx (cp_proto p1) (cp_dir p2) (V6 a) prefix p))"
proof -
  let ?n = "unat (case prefix of None \<Rightarrow> 128 | Some n \<Rightarrow> n)"
  obtain b1 where b1: "emit_ethertype_and_proto_gates ctx ETH_TYPE_IPV6 IP6_NEXTHDR_OFFSET None
      (cp_offset p1) (on_false br) b = Ok b1"
    and b': "addr6.emit_pair ctx ip6_gates a ?n (cp_offset p1) (cp_dir p1) (cp_dir p2) br b1 = Ok b'"
    using assms(1)
    by (auto simp: compile_addr6_def addr6.emit_pair_def Let_def split: if_splits)
  have "label_index (on_false br) < num_labels b" using assms(2) by (simp add: below_def)
  from addr6.gated_pair [OF gates_gate [OF b1 this] b' assms(2)]
  show ?thesis by (simp add: eval_addr_def)
qed

lemma compile_addr_decides [emits]:
  assumes "compile_addr p1 ctx addr prefix br b = Ok b'" and "below br b"
  shows "decides b b' br (eval_addr ctx (cp_proto p1) (cp_dir p1) addr prefix)"
proof (cases addr)
  case (V6 a)
  then show ?thesis using assms compile_addr6_decides by (simp add: compile_addr_def)
next
  case (V4 a)
  then obtain gates b1 m where gates: "addr_gates (cp_proto p1) (cp_offset p1) = Ok gates"
    and b1: "emit_ethertype_and_proto_gates ctx (g_ethertype gates) IP_PROTO_OFFSET (g_ip_proto gates)
        (cp_offset p1) (on_false br) b = Ok b1"
    and m: "map_netmask prefix = Ok m"
    and b': "Ok (emit_addr_terminal ctx gates (cp_dir p1) m (mask_target m a) (cp_offset p1) br b1) =
        (Ok b' :: ir_builder res)"
    using assms(1) by (auto simp: compile_addr_def)
  have "label_index (on_false br) < num_labels b" using assms(2) by (simp add: below_def)
  from addr4.gated_single [OF gates_gate [OF b1 this] b' assms(2)]
  show ?thesis
    using map_netmask_Ok [OF m] addr_gates_Ok [OF gates] by (simp add: V4 eval_addr_def Let_def)
qed

lemma compile_addr_pair_decides [emits]:
  assumes "compile_addr_pair p1 p2 ctx addr prefix br b = Ok b'" and "below br b"
  shows "decides b b' br
    (\<lambda>p. or3 (eval_addr ctx (cp_proto p1) (cp_dir p1) addr prefix p)
             (eval_addr ctx (cp_proto p1) (cp_dir p2) addr prefix p))"
proof (cases addr)
  case (V6 a)
  then show ?thesis using assms compile_addr6_pair_decides by (simp add: compile_addr_pair_def)
next
  case (V4 a)
  then obtain gates b1 m where gates: "addr_gates (cp_proto p1) (cp_offset p1) = Ok gates"
    and b1: "emit_ethertype_and_proto_gates ctx (g_ethertype gates) IP_PROTO_OFFSET (g_ip_proto gates)
        (cp_offset p1) (on_false br) b = Ok b1"
    and m: "map_netmask prefix = Ok m"
    and b': "addr4.emit_pair ctx gates m (mask_target m a) (cp_offset p1) (cp_dir p1) (cp_dir p2) br b1 =
        Ok b'"
    using assms(1)
    by (auto simp: compile_addr_pair_def addr4.emit_pair_def Let_def)
  have "label_index (on_false br) < num_labels b" using assms(2) by (simp add: below_def)
  from addr4.gated_pair [OF gates_gate [OF b1 this] b' assms(2)]
  show ?thesis
    using map_netmask_Ok [OF m] addr_gates_Ok [OF gates] by (simp add: V4 eval_addr_def Let_def)
qed

section \<open>Port leaves\<close>

lemma port4_prologue:
  assumes "emit_ethertype_and_proto_gates ctx ETH_TYPE_IP IP_PROTO_OFFSET (Some n) ofs lf b = Ok b1"
    and "label_index lf < num_labels b"
  shows "gate b (emit (IrLdxMsh (ip_base ctx)) ofs' (emit_not_fragment_gate ctx ofs lf b1)) lf
    (\<lambda>p x. eval_port4_gates ctx n p) (\<lambda>p x. header_len ctx p)"
proof -
  note g1 = gates_gate [OF assms]
  have lf: "label_index lf < num_labels b1" using gate_grows [OF g1] assms(2) by simp
  note g2 = gate_gate [OF emit_not_fragment_gate_gate [OF lf] ldx_msh_gate lf]
  show ?thesis using gate_gate [OF g1 g2 assms(2)] by (simp add: eval_port4_gates_def)
qed

lemma compile_port4_decides:
  assumes "compile_port4 ctx n d lo hi ofs br b = Ok b'" and "below br b"
  shows "decides b b' br (eval_port4 ctx n d lo hi)"
proof -
  obtain b1 where b1: "emit_ethertype_and_proto_gates ctx ETH_TYPE_IP IP_PROTO_OFFSET (Some n) ofs
      (on_false br) b = Ok b1"
    and b': "Ok (emit_port_terminal ctx d lo hi ofs br (emit (IrLdxMsh (ip_base ctx)) ofs
        (emit_not_fragment_gate ctx ofs (on_false br) b1))) = (Ok b' :: ir_builder res)"
    using assms(1) by (auto simp: compile_port4_def Let_def)
  have "label_index (on_false br) < num_labels b" using assms(2) by (simp add: below_def)
  from port4.gated_single [OF port4_prologue [OF b1 this] b' assms(2)]
  show ?thesis by (simp add: eval_port4_def [abs_def])
qed

lemma compile_port4_pair_decides:
  assumes "compile_port4_pair ctx n (d1, d2) lo hi ofs br b = Ok b'" and "below br b"
  shows "decides b b' br
    (\<lambda>p. or3 (eval_port4 ctx n d1 lo hi p) (eval_port4 ctx n d2 lo hi p))"
proof -
  obtain b1 where b1: "emit_ethertype_and_proto_gates ctx ETH_TYPE_IP IP_PROTO_OFFSET (Some n) ofs
      (on_false br) b = Ok b1"
    and b': "port4.emit_pair ctx lo hi ofs d1 d2 br (emit (IrLdxMsh (ip_base ctx)) ofs
        (emit_not_fragment_gate ctx ofs (on_false br) b1)) = Ok b'"
    using assms(1)
    by (auto simp: compile_port4_pair_def port4.emit_pair_def Let_def)
  have "label_index (on_false br) < num_labels b" using assms(2) by (simp add: below_def)
  from port4.gated_pair [OF port4_prologue [OF b1 this] b' assms(2)]
  show ?thesis by (simp add: eval_port4_def [abs_def])
qed

lemma compile_port6_decides:
  assumes "compile_port6 ctx n d lo hi ofs br b = Ok b'" and "below br b"
  shows "decides b b' br (eval_port6 ctx n d lo hi)"
proof -
  obtain b1 where b1: "emit_ethertype_and_proto_gates ctx ETH_TYPE_IPV6 IP6_NEXTHDR_OFFSET (Some n)
      ofs (on_false br) b = Ok b1"
    and b': "Ok (emit_port6_terminal ctx d lo hi ofs br b1) = (Ok b' :: ir_builder res)"
    using assms(1) by (auto simp: compile_port6_def)
  have "label_index (on_false br) < num_labels b" using assms(2) by (simp add: below_def)
  from port6.gated_single [OF gates_gate [OF b1 this] b' assms(2)]
  show ?thesis by (simp add: eval_port6_def [abs_def])
qed

lemma compile_port6_pair_decides:
  assumes "compile_port6_pair ctx n (d1, d2) lo hi ofs br b = Ok b'" and "below br b"
  shows "decides b b' br
    (\<lambda>p. or3 (eval_port6 ctx n d1 lo hi p) (eval_port6 ctx n d2 lo hi p))"
proof -
  obtain b1 where b1: "emit_ethertype_and_proto_gates ctx ETH_TYPE_IPV6 IP6_NEXTHDR_OFFSET (Some n)
      ofs (on_false br) b = Ok b1"
    and b': "port6.emit_pair ctx lo hi ofs d1 d2 br b1 = Ok b'"
    using assms(1)
    by (auto simp: compile_port6_pair_def port6.emit_pair_def Let_def)
  have "label_index (on_false br) < num_labels b" using assms(2) by (simp add: below_def)
  from port6.gated_pair [OF gates_gate [OF b1 this] b' assms(2)]
  show ?thesis by (simp add: eval_port6_def [abs_def])
qed

lemma port_proto_num_Ok: "port_proto_num proto ofs = Ok n \<Longrightarrow> port_proto_num proto ofs' = Ok n"
  by (cases proto) (auto simp: port_proto_num_def)

lemma compile_port_decides [emits]:
  assumes "compile_port p1 ctx lo hi br b = Ok b'" and "below br b"
  shows "decides b b' br (eval_port ctx (cp_proto p1) (cp_dir p1) lo hi)"
proof -
  let ?ofs = "cp_offset p1" and ?d = "cp_dir p1"
  obtain n where n: "port_proto_num (cp_proto p1) ?ofs = Ok n"
    using assms(1) by (auto simp: compile_port_def)
  obtain try6 b0 where mid: "new_label b = (try6, b0)" by fastforce
  obtain b1 where b1: "compile_port4 ctx n ?d lo hi ?ofs (mk_branch (on_true br) try6) b0 = Ok b1"
    and b': "compile_port6 ctx n ?d lo hi ?ofs br (place try6 b1) = Ok b'"
    using assms(1) by (auto simp: compile_port_def n mid)
  note t1 = compile_port4_decides [OF b1 below_mid(2) [OF mid assms(2)]]
  have "below br (place try6 b1)"
    using below_grows [OF below_mid(1) [OF mid assms(2)] test_grows [OF t1]] by simp
  from test_or [OF mid t1 compile_port6_decides [OF b' this] assms(2)] port_proto_num_Ok [OF n]
  show ?thesis by (simp add: eval_port_def [abs_def])
qed

text \<open>
  The pair decides \<open>(v4 src or v4 dst) or (v6 src or v6 dst)\<close>; on every packet that is the same as
  \<open>(v4 src or v6 src) or (v4 dst or v6 dst)\<close>, because the two versions exclude each other.
\<close>

lemma port4_excludes_port6:
  "eval_port4_gates ctx n p = Some True \<Longrightarrow>
     eval_gates ctx ETH_TYPE_IPV6 IP6_NEXTHDR_OFFSET (Some n) p = Some False"
  using eval_l3_exclusive [of ctx p]
  by (cases "eval_l3 ctx ETH_TYPE_IP p")
     (auto simp: eval_port4_gates_def eval_gates_def split: if_splits)

lemma port_pair_regroup:
  "or3 (or3 (eval_port4 ctx n d1 lo hi p) (eval_port4 ctx n d2 lo hi p))
       (or3 (eval_port6 ctx n d1 lo hi p) (eval_port6 ctx n d2 lo hi p)) =
   or3 (or3 (eval_port4 ctx n d1 lo hi p) (eval_port6 ctx n d1 lo hi p))
       (or3 (eval_port4 ctx n d2 lo hi p) (eval_port6 ctx n d2 lo hi p))"
proof (cases "eval_port4_gates ctx n p")
  case (Some t)
  show ?thesis
  proof (cases t)
    case True
    then have "eval_port6 ctx n d lo hi p = Some False" for d
      using port4_excludes_port6 [of ctx n p] Some by (simp add: eval_port6_def)
    then show ?thesis by (cases "eval_port4 ctx n d1 lo hi p") auto
  qed (simp add: Some eval_port4_def)
qed (simp add: eval_port4_def)

lemma compile_port_pair_decides [emits]:
  assumes "compile_port_pair p1 p2 ctx lo hi br b = Ok b'" and "below br b"
  shows "decides b b' br
    (\<lambda>p. or3 (eval_port ctx (cp_proto p1) (cp_dir p1) lo hi p)
             (eval_port ctx (cp_proto p1) (cp_dir p2) lo hi p))"
proof -
  let ?ofs = "cp_offset p1" and ?d = "(cp_dir p1, cp_dir p2)"
  obtain n where n: "port_proto_num (cp_proto p1) ?ofs = Ok n"
    using assms(1) by (auto simp: compile_port_pair_def)
  obtain try6 b0 where mid: "new_label b = (try6, b0)" by fastforce
  obtain b1 where b1: "compile_port4_pair ctx n ?d lo hi ?ofs (mk_branch (on_true br) try6) b0 = Ok b1"
    and b': "compile_port6_pair ctx n ?d lo hi ?ofs br (place try6 b1) = Ok b'"
    using assms(1) by (auto simp: compile_port_pair_def n mid)
  note t1 = compile_port4_pair_decides [OF b1 below_mid(2) [OF mid assms(2)]]
  have "below br (place try6 b1)"
    using below_grows [OF below_mid(1) [OF mid assms(2)] test_grows [OF t1]] by simp
  from test_or [OF mid t1 compile_port6_pair_decides [OF b' this] assms(2)] port_proto_num_Ok [OF n]
  show ?thesis by (simp add: eval_port_def [abs_def] port_pair_regroup)
qed

section \<open>Link-layer leaves\<close>

lemma compile_ether_decides [emits]:
  assumes "compile_ether e ctx br b = Ok b'" and "below br b"
  shows "decides b b' br (eval_ether ctx (ether_kind e))"
proof -
  let ?ofs = "ether_offset e"
  note mac_single = emit_mac_eq_test [OF assms(2), THEN test_forget]
  have ok: "(case ether_kind e of
       EtherHost m d \<Rightarrow> compile_ether_host m d ?ofs br b
     | EtherProto ethertype \<Rightarrow> compile_ether_proto ethertype ctx ?ofs br b
     | EtherBroadcast \<Rightarrow> Ok (emit_mac_eq ETH_DST_MAC_OFFSET ETH_MAC_BROADCAST ?ofs br b)
     | EtherMulticast \<Rightarrow> compile_ether_multicast ?ofs br b) = Ok b'"
    using assms(1) by (simp add: compile_ether_def split: if_splits)
  show ?thesis
  proof (cases "ether_kind e")
    case (EtherHost m d)
    show ?thesis
    proof (cases d)
      case None
      then have "mac.emit_pair m ?ofs Dst Src br b = Ok b'"
        using ok EtherHost by (simp add: compile_ether_host_def mac.emit_pair_def Let_def)
      from mac.pair [OF this assms(2)] show ?thesis
        by (simp add: EtherHost None eval_ether_def [abs_def])
    next
      case (Some d')
      then show ?thesis
        using ok EtherHost mac_single
        by (cases d') (auto simp: compile_ether_host_def eval_ether_def [abs_def] mac_field_def)
    qed
  next
    case (EtherProto et)
    then obtain f where f: "eth_field ctx = Some f"
      and b': "b' = emit (IrJeq (ucast et) (on_true br) (on_false br)) ?ofs (emit (IrLdhAbs f) ?ofs b)"
      using ok by (auto simp: compile_ether_proto_def split: option.splits)
    have "test_outcome False br x (holds (\<lambda>v. v = ucast et) (read_u16 p (unat f)))
        (ir_exec p [Real \<lparr>ir_op2 = IrLdhAbs f, ir_offset = ?ofs\<rparr>,
           Real \<lparr>ir_op2 = IrJeq (ucast et) (on_true br) (on_false br), ir_offset = ?ofs\<rparr>] a x)" for p a x
      by (cases "read_u16 p (unat f)") (auto simp: ir_load_def)
    then show ?thesis
      unfolding b' EtherProto eval_ether_def [abs_def] by (intro testI) (auto simp: f)
  next
    case EtherBroadcast
    then show ?thesis using ok mac_single by (auto simp: eval_ether_def [abs_def])
  next
    case EtherMulticast
    then have b': "b' = emit (IrJset 0x01 (on_true br) (on_false br)) ?ofs
        (emit (IrLdbAbs ETH_DST_MAC_OFFSET) ?ofs b)"
      using ok by (simp add: compile_ether_multicast_def)
    have "test_outcome False br x
        (holds (\<lambda>v. v AND 0x01 \<noteq> 0) (read_u8 p (unat ETH_DST_MAC_OFFSET)))
        (ir_exec p [Real \<lparr>ir_op2 = IrLdbAbs ETH_DST_MAC_OFFSET, ir_offset = ?ofs\<rparr>,
           Real \<lparr>ir_op2 = IrJset 0x01 (on_true br) (on_false br), ir_offset = ?ofs\<rparr>] a x)" for p a x
      by (cases "read_u8 p (unat ETH_DST_MAC_OFFSET)") (auto simp: ir_load_def)
    then show ?thesis
      unfolding b' EtherMulticast eval_ether_def [abs_def] by (intro testI) auto
  qed
qed

section \<open>Expressions\<close>

lemma compile_primitive_decides [emits]:
  assumes "compile_primitive p1 ctx br b = Ok b'" and "below br b"
  shows "decides b b' br (eval_primitive ctx p1)"
  using assms compile_addr_decides compile_port_decides
  by (cases "cp_ty p1") (auto simp: compile_primitive_def eval_primitive_def [abs_def])

lemma compile_dir_pair_decides [emits]:
  assumes "compile_dir_pair p1 p2 ctx br b = Ok b'" and "differs_only_in_dir p1 p2" and "below br b"
  shows "decides b b' br (\<lambda>p. or3 (eval_primitive ctx p1 p) (eval_primitive ctx p2 p))"
  using assms compile_addr_pair_decides [of p1 p2 ctx _ _ br b b']
    compile_port_pair_decides [of p1 p2 ctx _ _ br b b']
  by (cases "cp_ty p1"; cases "cp_ty p2")
     (auto simp: compile_dir_pair_def eval_primitive_def [abs_def] differs_only_in_dir_def)

lemma dir_pair_Some:
  "dir_pair l r = Some (p1, p2) \<Longrightarrow> l = Leaf p1 \<and> r = Leaf p2 \<and> differs_only_in_dir p1 p2"
  by (induction l r rule: dir_pair.induct) (auto split: if_splits)

lemma compile_expr_decides:
  "compile_expr e ctx br b = Ok b' \<Longrightarrow> below br b \<Longrightarrow> decides b b' br (eval ctx e)"
proof (induction e arbitrary: br b b')
  case (XNot e)
  then have "decides b b' (swapped br) (eval ctx e)" by simp
  from test_not [OF this] show ?case by simp
next
  case (XAnd l r)
  obtain mid b0 where mid: "new_label b = (mid, b0)" by fastforce
  obtain b1 where b1: "compile_expr l ctx (mk_branch mid (on_false br)) b0 = Ok b1"
    and b': "compile_expr r ctx br (place mid b1) = Ok b'"
    using XAnd.prems(1) by (auto simp: mid)
  note t1 = XAnd.IH(1) [OF b1 below_mid(3) [OF mid XAnd.prems(2)]]
  have "below br (place mid b1)"
    using below_grows [OF below_mid(1) [OF mid XAnd.prems(2)] test_grows [OF t1]] by simp
  from test_and [OF mid t1 XAnd.IH(2) [OF b' this] XAnd.prems(2)] show ?case by simp
next
  case (XOr l r)
  show ?case
  proof (cases "dir_pair l r")
    case None
    obtain mid b0 where mid: "new_label b = (mid, b0)" by fastforce
    obtain b1 where b1: "compile_expr l ctx (mk_branch (on_true br) mid) b0 = Ok b1"
      and b': "compile_expr r ctx br (place mid b1) = Ok b'"
      using XOr.prems(1) by (auto simp: mid None)
    note t1 = XOr.IH(1) [OF b1 below_mid(2) [OF mid XOr.prems(2)]]
    have "below br (place mid b1)"
      using below_grows [OF below_mid(1) [OF mid XOr.prems(2)] test_grows [OF t1]] by simp
    from test_or [OF mid t1 XOr.IH(2) [OF b' this] XOr.prems(2)] show ?thesis by simp
  next
    case (Some pq)
    then obtain p1 p2 where p: "dir_pair l r = Some (p1, p2)" by (cases pq) auto
    with XOr.prems dir_pair_Some [OF p] show ?thesis
      using compile_dir_pair_decides [of p1 p2 ctx br b b'] by auto
  qed
qed (use emits in \<open>auto\<close>)

end
