(* ===== verification/GenerateCorrect.thy ===== *)
theory GenerateCorrect
  imports CodegenCorrect Assembler
begin

text \<open>
  The whole generated program: it is well-formed, it returns the verdict that \<open>eval\<close> gives, its size
  is linear in the expression, and generation fails exactly on the primitives a link type or protocol
  does not support.
\<close>

section \<open>The verdict\<close>

text \<open>Accept with the snapshot length, reject with 0; a read outside the packet rejects.\<close>

definition verdict :: "u32 \<Rightarrow> bool option \<Rightarrow> u32" where
  "verdict snaplen v = (if v = Some True then snaplen else 0)"

lemma generate_stream:
  assumes "generate e lt snaplen = Ok ir"
  obtains ops where
    "prog_stream ir = ops @ [Mark (Label 0), Real \<lparr>ir_op2 = IrRet snaplen, ir_offset = Range 0 0\<rparr>,
       Mark (Label 1), Real \<lparr>ir_op2 = IrRet 0, ir_offset = Range 0 0\<rparr>]"
    and "set (mark_list ops) = {Label 2..<Label (prog_num_labels ir)}"
    and "2 \<le> prog_num_labels ir"
    and "distinct (mark_list ops)" and "scoped {Label 0, Label 1} ops"
    and "\<And>p a x. test_outcome False (mk_branch (Label 0) (Label 1)) x (eval (mk_ctx lt) e p)
           (ir_exec p ops a x)"
proof -
  let ?br = "mk_branch (Label 0) (Label 1)"
  let ?b = "\<lparr>stream = [], num_labels = 2\<rparr>"
  obtain b' where b': "compile_expr e (mk_ctx lt) ?br ?b = Ok b'"
    and ir: "ir = finish (emit (IrRet 0) (Range 0 0) (place (Label 1)
        (emit (IrRet snaplen) (Range 0 0) (place (Label 0) b'))))"
    using assms by (auto simp: generate_def new_builder_def new_label_def Let_def numeral_2_eq_2)
  have "below ?br ?b" by (simp add: below_def)
  from compile_expr_decides [OF b' this] obtain ops
    where "chunk ?b b' {Label 0, Label 1} ops"
      and "\<And>p a x. test_outcome False ?br x (eval (mk_ctx lt) e p) (ir_exec p ops a x)"
    by (auto simp: test_def)
  then show thesis by (intro that [of ops]) (simp_all add: chunk_def ir)
qed

lemma label_interval_image: "{Label m..<Label n} = Label ` {m..<n}"
proof (rule set_eqI)
  fix l
  show "l \<in> {Label m..<Label n} \<longleftrightarrow> l \<in> Label ` {m..<n}" by (cases l) auto
qed

lemma generate_wf_program: "generate e lt snaplen = Ok ir \<Longrightarrow> wf_program ir"
proof (erule generate_stream)
  fix ops
  assume ops: "prog_stream ir = ops @ [Mark (Label 0), Real \<lparr>ir_op2 = IrRet snaplen, ir_offset = Range 0 0\<rparr>,
       Mark (Label 1), Real \<lparr>ir_op2 = IrRet 0, ir_offset = Range 0 0\<rparr>]"
    "set (mark_list ops) = {Label 2..<Label (prog_num_labels ir)}" "2 \<le> prog_num_labels ir"
    "distinct (mark_list ops)" "scoped {Label 0, Label 1} ops"
  have "insert (Label 0) (insert (Label 1) (set (mark_list ops))) = Label ` {..<prog_num_labels ir}"
    using ops(3) by (auto simp: ops(2) label_interval_image)
  then show "wf_program ir"
    using ops by (simp add: wf_program_def labels_placed_once_def label_interval_image)
      (auto simp: insert_commute)
qed

lemma generate_exec:
  assumes "generate e lt snaplen = Ok ir"
  shows "ir_exec p (prog_stream ir) a x = Done (verdict snaplen (eval (mk_ctx lt) e p))"
proof -
  obtain ops where
    ops: "prog_stream ir = ops @ [Mark (Label 0), Real \<lparr>ir_op2 = IrRet snaplen, ir_offset = Range 0 0\<rparr>,
       Mark (Label 1), Real \<lparr>ir_op2 = IrRet 0, ir_offset = Range 0 0\<rparr>]"
    and out: "\<And>p a x. test_outcome False (mk_branch (Label 0) (Label 1)) x (eval (mk_ctx lt) e p)
           (ir_exec p ops a x)"
    by (rule generate_stream [OF assms]) blast
  show ?thesis
    using out [of x p a]
    by (cases "eval (mk_ctx lt) e p") (auto simp: ops ir_append verdict_def)
qed

section \<open>Size\<close>

text \<open>The size of a builder: instructions and labels together.\<close>

definition weight :: "ir_builder \<Rightarrow> nat" where
  "weight b = length (reals (stream b)) + num_labels b"

lemma weight_builder [simp]:
  "weight (place l b) = weight b"
  "weight (emit op ofs b) = weight b + 1"
  by (simp_all add: weight_def)

definition fresh :: "ir_builder \<Rightarrow> ir_builder" where
  "fresh b = snd (new_label b)"

lemma new_label_fresh: "new_label b = (Label (num_labels b), fresh b)"
  by (simp add: fresh_def new_label_def)

lemma weight_fresh [simp]: "weight (fresh b) = weight b + 1"
  by (simp add: weight_def fresh_def)

named_theorems weights "how much each emitter adds"

lemma weight_gates [weights]:
  "weight (gate_ldh_eq j imm ofs lf b) = weight b + 3"
  "weight (gate_ldb_eq j imm ofs lf b) = weight b + 3"
  "weight (gate_ip_version ctx n ofs lf b) = weight b + 4"
  "weight (emit_not_fragment_gate ctx ofs lf b) = weight b + 3"
  by (simp_all add: gate_ldh_eq_def gate_ldb_eq_def gate_ip_version_def emit_not_fragment_gate_def
      Let_def new_label_fresh)

lemma weight_prologue [weights]:
  "emit_ethertype_and_proto_gates ctx et field proto ofs lf b = Ok b' \<Longrightarrow> weight b' \<le> weight b + 7"
  by (auto simp: emit_ethertype_and_proto_gates_def emit_l3_gate_def weights
      split: option.splits if_splits)

lemma weight_terminals [weights]:
  "weight (emit_addr_terminal ctx gates d msk target ofs br b) \<le> weight b + 3"
  "weight (emit_port_terminal ctx d lo hi ofs br b) \<le> weight b + 4"
  "weight (emit_port6_terminal ctx d lo hi ofs br b) \<le> weight b + 4"
  "weight (emit_mac_eq field mac ofs br b) = weight b + 5"
  by (auto simp: emit_addr_terminal_def emit_port_terminal_def emit_port6_terminal_def
      emit_port_compare_def emit_mac_eq_def Let_def new_label_fresh
      split: option.splits mac_addr.splits)

lemma weight_addr6_word:
  "emit_addr6_word ctx start addr prefix words ofs br i b = Ok b' \<Longrightarrow>
     weight b' \<le> weight b + 4 \<and> i \<le> 3"
  by (auto simp: emit_addr6_word_def Let_def new_label_fresh split: if_splits)

lemma weight_addr6_words:
  "emit_addr6_words ctx start addr prefix words ofs br is b = Ok b' \<Longrightarrow>
     weight b' \<le> weight b + 4 * length is \<and> (\<forall>i \<in> set is. i \<le> 3)"
proof (induction "is" arbitrary: b)
  case (Cons i "is")
  then obtain b1 where "emit_addr6_word ctx start addr prefix words ofs br i b = Ok b1"
    and "emit_addr6_words ctx start addr prefix words ofs br is b1 = Ok b'" by auto
  with weight_addr6_word [of ctx start addr prefix words ofs br i b b1] Cons.IH [of b1]
  show ?case by auto
qed simp

lemma weight_addr6_terminal [weights]:
  assumes "emit_addr6_terminal ctx gates d addr prefix ofs br b = Ok b'"
  shows "weight b' \<le> weight b + 16"
proof (cases "(prefix + 31) div 32 = 0")
  case True
  then show ?thesis using assms by (auto simp: emit_addr6_terminal_def)
next
  case False
  let ?w = "(prefix + 31) div 32"
  have w: "weight b' \<le> weight b + 4 * ?w \<and> (\<forall>i < ?w. i \<le> 3)"
    using assms False weight_addr6_words [of ctx "dir_offset gates d" addr prefix ?w ofs br "[0..<?w]" b b']
    by (auto simp: emit_addr6_terminal_def Let_def)
  then have "?w - 1 \<le> 3" using False by (metis diff_less not_gr_zero zero_less_one)
  with w show ?thesis by linarith
qed

text \<open>Every primitive, and every pair of directions, adds at most 60.\<close>

lemma weight_addr6 [weights]:
  assumes "compile_addr6 p1 second ctx addr prefix br b = Ok b'"
  shows "weight b' \<le> weight b + 40"
proof -
  let ?n = "unat (case prefix of None \<Rightarrow> 128 | Some n \<Rightarrow> n)"
  obtain b1 where b1: "weight b1 \<le> weight b + 7"
    and rest: "(case second of
            None \<Rightarrow> emit_addr6_terminal ctx ip6_gates (cp_dir p1) addr ?n (cp_offset p1) br b1
          | Some p2 \<Rightarrow>
              (let (mid, b) = new_label b1 in
               and_then (emit_addr6_terminal ctx ip6_gates (cp_dir p1) addr ?n (cp_offset p1)
                           (mk_branch (on_true br) mid) b)
                 (\<lambda>b. emit_addr6_terminal ctx ip6_gates (cp_dir p2) addr ?n (cp_offset p1) br
                         (place mid b)))) = Ok b'"
    using assms
    by (auto simp: compile_addr6_def Let_def split: if_splits dest: weight_prologue)
  show ?thesis
  proof (cases second)
    case None
    then show ?thesis using rest weight_addr6_terminal b1 by fastforce
  next
    case (Some p2)
    then show ?thesis
      using rest b1 by (auto simp: new_label_fresh Let_def dest!: weight_addr6_terminal)
  qed
qed

lemma weight_addr [weights]:
  "compile_addr p1 ctx addr prefix br b = Ok b' \<Longrightarrow> weight b' \<le> weight b + 40"
  using weight_terminals(1)
  by (cases addr)
     (auto simp: compile_addr_def Let_def dest!: weight_addr6 weight_prologue
       intro!: order_trans [OF weight_terminals(1)])

lemma weight_addr_pair [weights]:
  "compile_addr_pair p1 p2 ctx addr prefix br b = Ok b' \<Longrightarrow> weight b' \<le> weight b + 40"
  by (cases addr)
     (auto simp: compile_addr_pair_def Let_def new_label_fresh dest!: weight_addr6 weight_prologue
       intro!: order_trans [OF weight_terminals(1)])

lemma weight_port4 [weights]:
  "compile_port4 ctx n d lo hi ofs br b = Ok b' \<Longrightarrow> weight b' \<le> weight b + 15"
  by (auto simp: compile_port4_def Let_def weights dest!: weight_prologue
       intro!: order_trans [OF weight_terminals(2)])

lemma weight_port4_pair [weights]:
  "compile_port4_pair ctx n dirs lo hi ofs br b = Ok b' \<Longrightarrow> weight b' \<le> weight b + 20"
  by (auto simp: compile_port4_pair_def Let_def weights new_label_fresh dest!: weight_prologue
       intro!: order_trans [OF weight_terminals(2)] split: prod.splits)

lemma weight_port6 [weights]:
  "compile_port6 ctx n d lo hi ofs br b = Ok b' \<Longrightarrow> weight b' \<le> weight b + 11"
  by (auto simp: compile_port6_def Let_def weights dest!: weight_prologue
       intro!: order_trans [OF weight_terminals(3)])

lemma weight_port6_pair [weights]:
  "compile_port6_pair ctx n dirs lo hi ofs br b = Ok b' \<Longrightarrow> weight b' \<le> weight b + 16"
  by (auto simp: compile_port6_pair_def Let_def weights new_label_fresh dest!: weight_prologue
       intro!: order_trans [OF weight_terminals(3)] split: prod.splits)

lemma weight_port [weights]:
  "compile_port p1 ctx lo hi br b = Ok b' \<Longrightarrow> weight b' \<le> weight b + 40"
  by (auto simp: compile_port_def new_label_fresh dest!: weight_port4 weight_port6)

lemma weight_port_pair [weights]:
  "compile_port_pair p1 p2 ctx lo hi br b = Ok b' \<Longrightarrow> weight b' \<le> weight b + 40"
  by (auto simp: compile_port_pair_def new_label_fresh dest!: weight_port4_pair weight_port6_pair)

lemma weight_ether [weights]:
  "compile_ether e ctx br b = Ok b' \<Longrightarrow> weight b' \<le> weight b + 40"
  by (auto simp: compile_ether_def compile_ether_host_def compile_ether_proto_def
      compile_ether_multicast_def new_label_fresh Let_def weights
      split: if_splits ether_kind.splits option.splits dir_tag.splits)

lemma weight_primitive [weights]:
  "compile_primitive p1 ctx br b = Ok b' \<Longrightarrow> weight b' \<le> weight b + 40"
  by (auto simp: compile_primitive_def dest: weight_addr weight_port split: prim_type.splits)

lemma weight_dir_pair [weights]:
  "compile_dir_pair p1 p2 ctx br b = Ok b' \<Longrightarrow> weight b' \<le> weight b + 40"
  by (auto simp: compile_dir_pair_def dest: weight_addr_pair weight_port_pair
      split: prim_type.splits)

fun leaves :: "expanded_expr \<Rightarrow> nat" where
  "leaves (Leaf c) = 1"
| "leaves (EtherLeaf e) = 1"
| "leaves (XNot e) = leaves e"
| "leaves (XAnd l r) = leaves l + leaves r"
| "leaves (XOr l r) = leaves l + leaves r"

lemma weight_expr:
  "compile_expr e ctx br b = Ok b' \<Longrightarrow> weight b' + 1 \<le> weight b + 41 * leaves e"
proof (induction e arbitrary: br b b')
  case (XAnd l r)
  obtain b1
    where "compile_expr l ctx (mk_branch (Label (num_labels b)) (on_false br)) (fresh b) = Ok b1"
      and "compile_expr r ctx br (place (Label (num_labels b)) b1) = Ok b'"
    using XAnd.prems by (auto simp: new_label_fresh)
  from XAnd.IH(1) [OF this(1)] XAnd.IH(2) [OF this(2)] show ?case by simp
next
  case (XOr l r)
  show ?case
  proof (cases "dir_pair l r")
    case None
    obtain b1
      where "compile_expr l ctx (mk_branch (on_true br) (Label (num_labels b))) (fresh b) = Ok b1"
        and "compile_expr r ctx br (place (Label (num_labels b)) b1) = Ok b'"
      using XOr.prems by (auto simp: new_label_fresh None)
    from XOr.IH(1) [OF this(1)] XOr.IH(2) [OF this(2)] show ?thesis by simp
  next
    case (Some pq)
    then obtain p1 p2 where p: "dir_pair l r = Some (p1, p2)" by (cases pq) auto
    with XOr.prems weight_dir_pair [of p1 p2 ctx br b b'] dir_pair_Some [OF p]
    show ?thesis by auto
  qed
qed (auto dest!: weight_primitive weight_ether)

lemma generate_size:
  assumes "generate e lt snaplen = Ok ir"
  shows "length (reals (prog_stream ir)) + prog_num_labels ir \<le> 41 * leaves e + 3"
proof -
  let ?b = "\<lparr>stream = [], num_labels = 2\<rparr>"
  obtain b' where b': "compile_expr e (mk_ctx lt) (mk_branch (Label 0) (Label 1)) ?b = Ok b'"
    and ir: "ir = finish (emit (IrRet 0) (Range 0 0) (place (Label 1)
        (emit (IrRet snaplen) (Range 0 0) (place (Label 0) b'))))"
    using assms by (auto simp: generate_def new_builder_def new_label_def Let_def numeral_2_eq_2)
  have "weight ?b = 2" by (simp add: weight_def)
  with weight_expr [OF b'] show ?thesis by (simp add: ir weight_def)
qed

section \<open>What is supported\<close>

text \<open>
  Why a fully resolved primitive has no code on a link type. The order of the cases is the order in
  which the code looks.
\<close>

datatype refusal =
    Ip6NeedsV6 | SctpAddress | V6NeedsIp6 | NeedsEthertype | NotATransport | NeedsEthernet

fun refusal_message :: "refusal \<Rightarrow> string" where
  "refusal_message Ip6NeedsV6 = quoted ''ip6'' @ '' needs an IPv6 address, not an IPv4 one''"
| "refusal_message SctpAddress =
     quoted ''sctp'' @ '' has no host/net addressing; it'' @ [CHR 0x27] @
     ''s a transport protocol, usable only with '' @ quoted ''port'' @ ''/'' @ quoted ''portrange''"
| "refusal_message V6NeedsIp6 =
     ''an IPv6 address needs '' @ quoted ''ip6'' @ '' (or no protocol)''"
| "refusal_message NeedsEthertype =
     quoted ''arp'' @ ''/'' @ quoted ''rarp'' @
     '' need a link layer with an ethertype field; this link type has none''"
| "refusal_message NotATransport =
     quoted ''port'' @ ''/'' @ quoted ''portrange'' @ '' only apply to tcp, udp, or sctp''"
| "refusal_message NeedsEthernet =
     quoted ''ether'' @ ''/'' @ quoted ''broadcast'' @ ''/'' @ quoted ''multicast'' @
     '' need a real source/destination MAC pair; this link type doesn'' @ [CHR 0x27] @ ''t have one''"

definition has_ethertype :: "link_type \<Rightarrow> bool" where
  "has_ethertype lt \<longleftrightarrow> lt \<noteq> Raw"

definition address_refusal :: "link_type \<Rightarrow> compiled_proto \<Rightarrow> addr_lit \<Rightarrow> refusal option" where
  "address_refusal lt proto addr =
     (case addr of
        V6 a \<Rightarrow> if proto = CIp6 then None else Some V6NeedsIp6
      | V4 a \<Rightarrow>
          if proto = CIp6 then Some Ip6NeedsV6
          else if proto = CSctp then Some SctpAddress
          else if proto \<in> {CArp, CRarp} \<and> \<not> has_ethertype lt then Some NeedsEthertype
          else None)"

definition port_refusal :: "compiled_proto \<Rightarrow> refusal option" where
  "port_refusal proto = (if proto \<in> {CTcp, CUdp, CSctp} then None else Some NotATransport)"

definition leaf_refusal :: "link_type \<Rightarrow> compiled_primitive \<Rightarrow> refusal option" where
  "leaf_refusal lt c =
     (case cp_ty c of
        Host addr \<Rightarrow> address_refusal lt (cp_proto c) addr
      | Net addr prefix \<Rightarrow> address_refusal lt (cp_proto c) addr
      | Port port \<Rightarrow> port_refusal (cp_proto c)
      | PortRange lo hi \<Rightarrow> port_refusal (cp_proto c))"

definition refuse :: "offset \<Rightarrow> refusal \<Rightarrow> compile_error" where
  "refuse ofs r = new_error ofs (InvalidPrimitiveCombination (refusal_message r))"

text \<open>The leftmost primitive without code.\<close>

fun first_refusal :: "link_type \<Rightarrow> expanded_expr \<Rightarrow> compile_error option" where
  "first_refusal lt (Leaf c) = map_option (refuse (cp_offset c)) (leaf_refusal lt c)"
| "first_refusal lt (EtherLeaf e) =
     (if lt = Ethernet then None else Some (refuse (ether_offset e) NeedsEthernet))"
| "first_refusal lt (XNot e) = first_refusal lt e"
| "first_refusal lt (XAnd l r) =
     (case first_refusal lt l of None \<Rightarrow> first_refusal lt r | Some err \<Rightarrow> Some err)"
| "first_refusal lt (XOr l r) =
     (case first_refusal lt l of None \<Rightarrow> first_refusal lt r | Some err \<Rightarrow> Some err)"

fun wf_expanded :: "expanded_expr \<Rightarrow> bool" where
  "wf_expanded (Leaf c) = wf_type (cp_ty c)"
| "wf_expanded (EtherLeaf e) = True"
| "wf_expanded (XNot e) = wf_expanded e"
| "wf_expanded (XAnd l r) = (wf_expanded l \<and> wf_expanded r)"
| "wf_expanded (XOr l r) = (wf_expanded l \<and> wf_expanded r)"

section \<open>Support decides the outcome\<close>

lemma mk_ctx_fields [simp]:
  "eth_field (mk_ctx lt) = (case lt of Ethernet \<Rightarrow> Some 12 | LinuxSll \<Rightarrow> Some 14 | Raw \<Rightarrow> None)"
  "ip_base (mk_ctx lt) = (case lt of Ethernet \<Rightarrow> 14 | LinuxSll \<Rightarrow> 16 | Raw \<Rightarrow> 0)"
  "ctx_link_type (mk_ctx lt) = lt"
  by (cases lt; simp add: mk_ctx_def Let_def)+

lemma prologue_total:
  assumes "has_ethertype lt \<or> ethertype \<in> {ETH_TYPE_IP, ETH_TYPE_IPV6}"
  obtains b' where "emit_ethertype_and_proto_gates (mk_ctx lt) ethertype field proto ofs lf b = Ok b'"
  using assms that
  by (cases lt; cases proto)
     (auto simp: emit_ethertype_and_proto_gates_def emit_l3_gate_def has_ethertype_def codegen_constants)

lemma is_ok_Ok: "is_ok m \<longleftrightarrow> (\<exists>x. m = Ok x)"
  by (cases m) auto

lemma is_ok_and_then: "is_ok m \<Longrightarrow> (\<And>x. is_ok (f x)) \<Longrightarrow> is_ok (and_then m f)"
  by (cases m) auto

lemma emit_addr6_words_total:
  "(\<forall>i \<in> set is. i \<le> 3) \<Longrightarrow> is_ok (emit_addr6_words ctx start addr prefix words ofs br is b)"
proof (induction "is" arbitrary: b)
  case (Cons i "is")
  then have "is_ok (emit_addr6_word ctx start addr prefix words ofs br i b)"
    by (simp add: emit_addr6_word_def netmask_of_bits Let_def split: prod.split)
  with Cons show ?case by (auto simp: is_ok_Ok)
qed simp

lemma emit_addr6_terminal_total:
  assumes "prefix \<le> 128"
  obtains b' where "emit_addr6_terminal ctx gates d addr prefix ofs br b = Ok b'"
proof -
  have "is_ok (emit_addr6_terminal ctx gates d addr prefix ofs br b)"
    using assms
    by (auto simp: emit_addr6_terminal_def Let_def intro!: emit_addr6_words_total)
  then show thesis using that by (auto simp: is_ok_Ok)
qed

definition prefix_fits :: "addr_lit \<Rightarrow> u8 option \<Rightarrow> bool" where
  "prefix_fits addr prefix \<longleftrightarrow> (\<forall>n. prefix = Some n \<longrightarrow> unat n \<le> full_width addr)"

lemma prefix_fits_None [simp]: "prefix_fits addr None"
  by (simp add: prefix_fits_def)

lemma map_netmask_total: "prefix_fits (V4 a) prefix \<Longrightarrow> \<exists>m. map_netmask prefix = Ok m"
  by (cases prefix) (auto simp: prefix_fits_def netmask_def)

lemma compile_addr6_support:
  assumes "prefix_fits (V6 a) prefix"
  shows "cp_proto c = CIp6 \<Longrightarrow> is_ok (compile_addr6 c second (mk_ctx lt) a prefix br b)"
    and "cp_proto c \<noteq> CIp6 \<Longrightarrow>
      compile_addr6 c second (mk_ctx lt) a prefix br b = Err (refuse (cp_offset c) V6NeedsIp6)"
proof -
  let ?n = "unat (case prefix of None \<Rightarrow> 128 | Some n \<Rightarrow> n)"
  have n: "?n \<le> 128" using assms by (cases prefix) (auto simp: prefix_fits_def)
  obtain b1 where b1: "emit_ethertype_and_proto_gates (mk_ctx lt) ETH_TYPE_IPV6 IP6_NEXTHDR_OFFSET None
      (cp_offset c) (on_false br) b = Ok b1"
    by (rule prologue_total [where ethertype = ETH_TYPE_IPV6]) auto
  have ens: "ensure_ethertype_available (mk_ctx lt) ip6_gates (cp_offset c) = Ok ()"
    by (simp add: ensure_ethertype_available_def codegen_constants)
  have tot: "is_ok (emit_addr6_terminal (mk_ctx lt) ip6_gates d a ?n ofs br b)" for d ofs br b
    using emit_addr6_terminal_total [OF n] is_ok_Ok by metis
  show "cp_proto c = CIp6 \<Longrightarrow> is_ok (compile_addr6 c second (mk_ctx lt) a prefix br b)"
    using b1 ens
    by (cases second)
       (auto simp: compile_addr6_def new_label_def Let_def tot intro!: is_ok_and_then)
  show "cp_proto c \<noteq> CIp6 \<Longrightarrow>
      compile_addr6 c second (mk_ctx lt) a prefix br b = Err (refuse (cp_offset c) V6NeedsIp6)"
    by (simp add: compile_addr6_def refuse_def)
qed

text \<open>The outcome of an address leaf, alone or as a pair.\<close>

definition outcome_of :: "offset \<Rightarrow> refusal option \<Rightarrow> 'a res \<Rightarrow> bool" where
  "outcome_of ofs r m \<longleftrightarrow> (case r of None \<Rightarrow> is_ok m | Some why \<Rightarrow> m = Err (refuse ofs why))"

lemma addr_gates_support:
  assumes "address_refusal lt proto (V4 a) = None"
  obtains gates where "addr_gates proto ofs = Ok gates"
    and "ensure_ethertype_available (mk_ctx lt) gates ofs = Ok ()"
    and "has_ethertype lt \<or> g_ethertype gates \<in> {ETH_TYPE_IP, ETH_TYPE_IPV6}"
  using assms
  by (cases proto; cases lt)
     (auto simp: address_refusal_def has_ethertype_def ensure_ethertype_available_def ip_gates_def
       arp_gates_def codegen_constants)

lemma addr_gates_refusal:
  assumes "address_refusal lt proto (V4 a) = Some r"
  shows "and_then (addr_gates proto ofs) (\<lambda>gates.
      and_then (ensure_ethertype_available (mk_ctx lt) gates ofs) (\<lambda>_. f gates)) = Err (refuse ofs r)"
  using assms
  by (cases proto; cases lt)
     (auto simp: address_refusal_def has_ethertype_def ensure_ethertype_available_def ip_gates_def
       arp_gates_def refuse_def codegen_constants)

lemma compile_addr_support:
  assumes "prefix_fits addr prefix"
  shows "outcome_of (cp_offset c) (address_refusal lt (cp_proto c) addr)
      (compile_addr c (mk_ctx lt) addr prefix br b)" (is ?single)
    and "outcome_of (cp_offset c) (address_refusal lt (cp_proto c) addr)
      (compile_addr_pair c c2 (mk_ctx lt) addr prefix br b)" (is ?pair)
proof -
  have "?single \<and> ?pair"
  proof (cases addr)
    case (V6 a)
    then show ?thesis
      using compile_addr6_support [of a prefix c] assms
      by (auto simp: outcome_of_def address_refusal_def compile_addr_def compile_addr_pair_def)
  next
    case (V4 a)
    show ?thesis
    proof (cases "address_refusal lt (cp_proto c) addr")
      case None
      obtain m where m: "map_netmask prefix = Ok m" using map_netmask_total assms V4 by blast
      obtain gates where g: "addr_gates (cp_proto c) (cp_offset c) = Ok gates"
        "ensure_ethertype_available (mk_ctx lt) gates (cp_offset c) = Ok ()"
        "has_ethertype lt \<or> g_ethertype gates \<in> {ETH_TYPE_IP, ETH_TYPE_IPV6}"
        using addr_gates_support None V4 by blast
      obtain b1 where "emit_ethertype_and_proto_gates (mk_ctx lt) (g_ethertype gates) IP_PROTO_OFFSET
          (g_ip_proto gates) (cp_offset c) (on_false br) b = Ok b1"
        using prologue_total [OF g(3)] by blast
      then show ?thesis
        using None by (simp add: g m V4 outcome_of_def compile_addr_def compile_addr_pair_def new_label_def
            Let_def)
    next
      case (Some r)
      then show ?thesis
        by (auto simp: V4 outcome_of_def compile_addr_def compile_addr_pair_def addr_gates_refusal)
    qed
  qed
  then show ?single ?pair by simp_all
qed

lemma compile_port_support:
  "outcome_of (cp_offset c) (port_refusal (cp_proto c)) (compile_port c (mk_ctx lt) lo hi br b)"
  "outcome_of (cp_offset c) (port_refusal (cp_proto c)) (compile_port_pair c c2 (mk_ctx lt) lo hi br b)"
proof -
  have pro: "\<exists>b'. emit_ethertype_and_proto_gates (mk_ctx lt) et field proto ofs lf b = Ok b'"
    if "et \<in> {ETH_TYPE_IP, ETH_TYPE_IPV6}" for et field proto ofs lf b
    using that prologue_total [of lt et] by metis
  have p4: "is_ok (compile_port4 (mk_ctx lt) n d lo hi ofs br b)"
    "is_ok (compile_port4_pair (mk_ctx lt) n (d, d2) lo hi ofs br b)" for n d d2 ofs br b
    using pro [of ETH_TYPE_IP IP_PROTO_OFFSET "Some n" ofs "on_false br" b]
    by (auto simp: compile_port4_def compile_port4_pair_def new_label_def Let_def)
  have p6: "is_ok (compile_port6 (mk_ctx lt) n d lo hi ofs br b)"
    "is_ok (compile_port6_pair (mk_ctx lt) n (d, d2) lo hi ofs br b)" for n d d2 ofs br b
    using pro [of ETH_TYPE_IPV6 IP6_NEXTHDR_OFFSET "Some n" ofs "on_false br" b]
    by (auto simp: compile_port6_def compile_port6_pair_def new_label_def Let_def)
  show "outcome_of (cp_offset c) (port_refusal (cp_proto c)) (compile_port c (mk_ctx lt) lo hi br b)"
    by (cases "cp_proto c")
       (auto simp: outcome_of_def port_refusal_def compile_port_def port_proto_num_def refuse_def
         new_label_def p4 p6 intro!: is_ok_and_then)
  show "outcome_of (cp_offset c) (port_refusal (cp_proto c))
      (compile_port_pair c c2 (mk_ctx lt) lo hi br b)"
    by (cases "cp_proto c")
       (auto simp: outcome_of_def port_refusal_def compile_port_pair_def port_proto_num_def refuse_def
         new_label_def p4 p6 intro!: is_ok_and_then)
qed

lemma outcome_of_primitive:
  assumes "wf_type (cp_ty c)"
  shows "outcome_of (cp_offset c) (leaf_refusal lt c) (compile_primitive c (mk_ctx lt) br b)"
    and "outcome_of (cp_offset c) (leaf_refusal lt c) (compile_dir_pair c c2 (mk_ctx lt) br b)"
proof -
  have net: "prefix_fits addr (Some (case prefix of None \<Rightarrow> full_prefix addr | Some n \<Rightarrow> n))"
    if "wf_type (Net addr prefix)" for addr prefix
    using that by (cases prefix; cases addr) (auto simp: prefix_fits_def full_prefix_def)
  show "outcome_of (cp_offset c) (leaf_refusal lt c) (compile_primitive c (mk_ctx lt) br b)"
    and "outcome_of (cp_offset c) (leaf_refusal lt c) (compile_dir_pair c c2 (mk_ctx lt) br b)"
    using assms net
    by (cases "cp_ty c"; simp add: compile_primitive_def compile_dir_pair_def leaf_refusal_def
        compile_addr_support compile_port_support)+
qed

lemma outcome_of_ether:
  "outcome_of (ether_offset e) (if lt = Ethernet then None else Some NeedsEthernet)
     (compile_ether e (mk_ctx lt) br b)"
  by (auto simp: outcome_of_def compile_ether_def refuse_def compile_ether_host_def
      compile_ether_proto_def compile_ether_multicast_def new_label_def Let_def
      split: ether_kind.split option.split dir_tag.split)

definition expr_outcome :: "compile_error option \<Rightarrow> 'a res \<Rightarrow> bool" where
  "expr_outcome r m \<longleftrightarrow> (case r of None \<Rightarrow> is_ok m | Some err \<Rightarrow> m = Err err)"

lemma expr_outcome_and_then:
  assumes "expr_outcome r m" and "\<And>x. m = Ok x \<Longrightarrow> expr_outcome s (f x)"
  shows "expr_outcome (case r of None \<Rightarrow> s | Some err \<Rightarrow> Some err) (and_then m f)"
  using assms by (cases m; cases r) (auto simp: expr_outcome_def)

lemma outcome_of_expr_outcome:
  "outcome_of ofs r m \<Longrightarrow> expr_outcome (map_option (refuse ofs) r) m"
  by (cases r) (auto simp: outcome_of_def expr_outcome_def)

text \<open>Two leaves that differ only in direction are refused alike.\<close>

lemma leaf_refusal_dir:
  "differs_only_in_dir p1 p2 \<Longrightarrow> leaf_refusal lt p1 = leaf_refusal lt p2"
  by (auto simp: differs_only_in_dir_def leaf_refusal_def split: prim_type.split)

lemma compile_expr_outcome:
  "wf_expanded e \<Longrightarrow> expr_outcome (first_refusal lt e) (compile_expr e (mk_ctx lt) br b)"
proof (induction e arbitrary: br b)
  case (Leaf c)
  then show ?case using outcome_of_expr_outcome [OF outcome_of_primitive(1)] by simp
next
  case (EtherLeaf e)
  show ?case
    using outcome_of_expr_outcome [OF outcome_of_ether [of e lt br b]] by (auto split: if_splits)
next
  case (XAnd l r)
  then show ?case by (auto simp: new_label_def intro!: expr_outcome_and_then)
next
  case (XOr l r)
  show ?case
  proof (cases "dir_pair l r")
    case None
    then show ?thesis using XOr by (auto simp: new_label_def intro!: expr_outcome_and_then)
  next
    case (Some pq)
    then obtain p1 p2 where "pq = (p1, p2)" and p: "dir_pair l r = Some (p1, p2)" by (cases pq) auto
    with dir_pair_Some [OF p] have l: "l = Leaf p1" "r = Leaf p2"
      and same: "leaf_refusal lt p2 = leaf_refusal lt p1"
      using leaf_refusal_dir [of p1 p2 lt] by auto
    have "differs_only_in_dir p1 p2" using dir_pair_Some [OF p] by simp
    have "wf_type (cp_ty p1)" using XOr.prems l by simp
    from outcome_of_expr_outcome [OF outcome_of_primitive(2) [OF this, of lt p2 br b]] l
    show ?thesis
      using \<open>differs_only_in_dir p1 p2\<close>
      by (cases "leaf_refusal lt p1") (simp_all add: same)
  qed
qed simp

text \<open>Code generation fails exactly on the leftmost refused primitive, and it never panics.\<close>

lemma generate_outcome:
  assumes "wf_expanded e"
  shows "expr_outcome (first_refusal lt e) (generate e lt snaplen)"
  using compile_expr_outcome [OF assms, of lt]
  by (cases "first_refusal lt e")
     (auto simp: expr_outcome_def generate_def new_label_def Let_def intro!: is_ok_and_then)

end
