(* ===== verification/DesugarCorrect.thy ===== *)
theory DesugarCorrect
  imports GenerateCorrect
begin

text \<open>
  Default expansion: it always succeeds, keeps trees well-formed, multiplies the number of primitives
  by at most six, and means the disjunction over the protocols and directions a primitive left out.
\<close>

section \<open>The meaning of an expression with defaults\<close>

text \<open>A disjunction from left to right.\<close>

fun any3 :: "bool option list \<Rightarrow> bool option" where
  "any3 [] = Some False"
| "any3 (v # vs) = or3 v (any3 vs)"

definition resolutions :: "primitive \<Rightarrow> compiled_primitive list" where
  "resolutions p =
     concat (map (\<lambda>proto. map (\<lambda>d.
       \<lparr>cp_proto = proto, cp_dir = d, cp_ty = prim_ty p, cp_offset = prim_offset p\<rparr>)
       (default_dirs p)) (default_protos p))"

fun source_eval :: "ctx \<Rightarrow> expr \<Rightarrow> packet \<Rightarrow> bool option" where
  "source_eval ctx (EPrimitive pr) p = any3 (map (\<lambda>c. eval_primitive ctx c p) (resolutions pr))"
| "source_eval ctx (EEther e) p = eval_ether ctx (ether_kind e) p"
| "source_eval ctx (ENot e ofs) p = not3 (source_eval ctx e p)"
| "source_eval ctx (EAnd l r ofs) p = and3 (source_eval ctx l p) (source_eval ctx r p)"
| "source_eval ctx (EOr l r ofs) p = or3 (source_eval ctx l p) (source_eval ctx r p)"

text \<open>The leftmost refused primitive of a source expression.\<close>

fun first_error :: "compile_error option list \<Rightarrow> compile_error option" where
  "first_error [] = None"
| "first_error (Some e # es) = Some e"
| "first_error (None # es) = first_error es"

fun source_refusal :: "link_type \<Rightarrow> expr \<Rightarrow> compile_error option" where
  "source_refusal lt (EPrimitive pr) =
     first_error (map (\<lambda>c. map_option (refuse (prim_offset pr)) (leaf_refusal lt c)) (resolutions pr))"
| "source_refusal lt (EEther e) =
     (if lt = Ethernet then None else Some (refuse (ether_offset e) NeedsEthernet))"
| "source_refusal lt (ENot e ofs) = source_refusal lt e"
| "source_refusal lt (EAnd l r ofs) = first_error [source_refusal lt l, source_refusal lt r]"
| "source_refusal lt (EOr l r ofs) = first_error [source_refusal lt l, source_refusal lt r]"

section \<open>Expansion\<close>

lemma primitive_leaves_resolutions: "primitive_leaves p = map Leaf (resolutions p)"
  by (simp add: primitive_leaves_def resolutions_def mk_leaf_def map_concat comp_def)

lemma resolutions_fields:
  "c \<in> set (resolutions p) \<Longrightarrow> cp_ty c = prim_ty p \<and> cp_offset c = prim_offset p"
  by (auto simp: resolutions_def)

lemma default_protos_length: "1 \<le> length (default_protos p) \<and> length (default_protos p) \<le> 3"
  by (simp add: default_protos_def split: option.split prim_type.split addr_lit.split)

lemma default_dirs_length: "1 \<le> length (default_dirs p) \<and> length (default_dirs p) \<le> 2"
  by (simp add: default_dirs_def split: option.split)

lemma resolutions_length: "1 \<le> length (resolutions p) \<and> length (resolutions p) \<le> 6"
proof -
  have "length (resolutions p) = length (default_protos p) * length (default_dirs p)"
    by (simp add: resolutions_def length_concat comp_def sum_list_triv)
  moreover have "length (default_protos p) * length (default_dirs p) \<le> 3 * 2"
    using default_protos_length default_dirs_length by (blast intro: mult_le_mono)
  moreover have "1 * 1 \<le> length (default_protos p) * length (default_dirs p)"
    using default_protos_length default_dirs_length by (blast intro: mult_le_mono)
  ultimately show ?thesis by simp
qed

lemma expand_primitive_Ok:
  obtains c cs where "resolutions p = c # cs"
    and "expand_primitive p = Ok (foldl XOr (Leaf c) (map Leaf cs))"
proof -
  obtain c cs where c: "resolutions p = c # cs"
    using resolutions_length [of p] by (cases "resolutions p") auto
  then have "expand_primitive p = Ok (foldl XOr (Leaf c) (map Leaf cs))"
    by (simp add: expand_primitive_def primitive_leaves_resolutions)
  with c show thesis by (rule that)
qed

lemma or3_False_right [simp]: "or3 v (Some False) = v"
  by (cases v) auto

lemma eval_chain:
  "eval ctx (foldl XOr e (map Leaf cs)) p =
     or3 (eval ctx e p) (any3 (map (\<lambda>c. eval_primitive ctx c p) cs))"
  by (induction cs arbitrary: e) (simp_all add: or3_assoc)

lemma leaves_chain: "leaves (foldl XOr e (map Leaf cs)) = leaves e + length cs"
  by (induction cs arbitrary: e) simp_all

lemma wf_chain:
  "wf_expanded (foldl XOr e (map Leaf cs)) \<longleftrightarrow> wf_expanded e \<and> (\<forall>c \<in> set cs. wf_type (cp_ty c))"
  by (induction cs arbitrary: e) auto

lemma refusal_chain:
  "first_refusal lt (foldl XOr e (map Leaf cs)) =
     first_error (first_refusal lt e #
       map (\<lambda>c. map_option (refuse (cp_offset c)) (leaf_refusal lt c)) cs)"
proof (induction cs arbitrary: e)
  case Nil
  show ?case by (cases "first_refusal lt e") auto
next
  case (Cons c cs)
  show ?case by (cases "first_refusal lt e") (simp_all add: Cons)
qed

lemma first_error_pair:
  "first_error [r, s] = (case r of None \<Rightarrow> s | Some err \<Rightarrow> Some err)"
  by (cases r; cases s) simp_all

text \<open>Everything the rest of the pipeline needs of an expansion.\<close>

lemma expand_correct:
  "\<exists>x. expand e = Ok x \<and>
     (\<forall>ctx p. eval ctx x p = source_eval ctx e p) \<and>
     (\<forall>lt. first_refusal lt x = source_refusal lt e) \<and>
     leaves x \<le> 6 * expr_leaves e \<and>
     wf_expanded x = wf_expr e"
proof (induction e)
  case (EPrimitive pr)
  obtain c cs where c: "resolutions pr = c # cs"
    and e: "expand_primitive pr = Ok (foldl XOr (Leaf c) (map Leaf cs))"
    by (rule expand_primitive_Ok)
  have "length cs \<le> 5" using resolutions_length [of pr] by (simp add: c)
  moreover have "\<forall>c' \<in> set (c # cs). cp_ty c' = prim_ty pr \<and> cp_offset c' = prim_offset pr"
    using resolutions_fields [of _ pr] by (simp add: c)
  moreover from this have
    "map (\<lambda>c. map_option (refuse (cp_offset c)) (leaf_refusal lt c)) cs =
     map (\<lambda>c. map_option (refuse (prim_offset pr)) (leaf_refusal lt c)) cs" for lt by simp
  ultimately show ?case
    by (auto simp: e c eval_chain leaves_chain wf_chain refusal_chain cong: map_cong)
qed (auto simp: first_error_pair split: option.split)

lemma expand_total: "\<exists>x. expand e = Ok x"
  using expand_correct [of e] by blast

lemma expand_eval: "expand e = Ok x \<Longrightarrow> eval ctx x p = source_eval ctx e p"
  using expand_correct [of e] by auto

lemma expand_refusal: "expand e = Ok x \<Longrightarrow> first_refusal lt x = source_refusal lt e"
  using expand_correct [of e] by auto

lemma expand_leaves: "expand e = Ok x \<Longrightarrow> leaves x \<le> 6 * expr_leaves e"
  using expand_correct [of e] by auto

lemma expand_wf: "expand e = Ok x \<Longrightarrow> wf_expr e \<Longrightarrow> wf_expanded x"
  using expand_correct [of e] by auto

end
