(* ===== verification/ParserCorrect.thy ===== *)
theory ParserCorrect
  imports Parser
begin

text \<open>
  The parser on the token streams the lexer makes: it always returns, what it accepts is well-formed
  and no larger than the stream, and its fuel never runs out.
\<close>

section \<open>Results that satisfy a predicate\<close>

text \<open>\<open>yields m Q\<close>: \<open>m\<close> is an error, or a value with \<open>Q\<close>; in particular it returns.\<close>

definition yields :: "('e, 'a) result \<Rightarrow> ('a \<Rightarrow> bool) \<Rightarrow> bool" where
  "yields m Q \<longleftrightarrow> returns m \<and> (\<forall>x. m = Ok x \<longrightarrow> Q x)"

lemma yields_simps [simp]:
  "yields (Ok x) Q \<longleftrightarrow> Q x"
  "yields (Err e) Q"
  "\<not> yields Panic Q"
  "\<not> yields Diverge Q"
  by (simp_all add: yields_def)

lemma yields_and_then:
  assumes "yields m R" and "\<And>x. R x \<Longrightarrow> yields (f x) Q"
  shows "yields (and_then m f) Q"
  using assms by (cases m) auto

lemma yields_mono: "yields m R \<Longrightarrow> (\<And>x. R x \<Longrightarrow> Q x) \<Longrightarrow> yields m Q"
  by (cases m) auto

lemma yields_ok_or [simp]: "yields (ok_or e v) Q \<longleftrightarrow> (\<forall>x. v = Some x \<longrightarrow> Q x)"
  by (cases v) auto

lemma yields_returns: "yields m Q \<Longrightarrow> returns m"
  by (simp add: yields_def)

lemma yields_Ok: "yields m Q \<Longrightarrow> m = Ok x \<Longrightarrow> Q x"
  by (simp add: yields_def)

section \<open>Token streams\<close>

definition ends_in_eof :: "token list \<Rightarrow> bool" where
  "ends_in_eof toks \<longleftrightarrow>
     toks \<noteq> [] \<and> tok_tag (last toks) = Eof \<and> (\<forall>t \<in> set (butlast toks). tok_tag t \<noteq> Eof)"

lemma ends_in_eof_nth:
  "ends_in_eof toks \<Longrightarrow> pos < length toks \<Longrightarrow>
     tok_tag (toks ! pos) = Eof \<longleftrightarrow> pos = length toks - 1"
  unfolding ends_in_eof_def
  by (metis Suc_pred' in_set_conv_nth last_conv_nth length_butlast length_greater_0_conv
      linorder_neqE_nat not_less_eq nth_butlast)

lemma peek_in [simp]: "pos < length toks \<Longrightarrow> peek toks pos = Ok (toks ! pos)"
  by (simp add: peek_def get_def)

lemma prev_end_in: "pos < length toks \<Longrightarrow> \<exists>e. prev_end toks pos = Ok e"
  by (simp add: prev_end_def get_def)

lemma word_at_in [simp]: "pos < length toks \<Longrightarrow> word_at toks pos = Ok (tag_word (tok_tag (toks ! pos)))"
  by (simp add: word_at_def)

text \<open>Behind a token that is not the last, \<open>advance\<close> moves on.\<close>

lemma advance_in:
  assumes "ends_in_eof toks" and "pos < length toks" and "tok_tag (toks ! pos) \<noteq> Eof"
  shows "advance toks pos = Ok (Suc pos)" and "Suc pos < length toks"
proof -
  show "Suc pos < length toks"
    using ends_in_eof_nth [OF assms(1,2)] assms(2,3) by linarith
  then show "advance toks pos = Ok (Suc pos)"
    using assms(2) by (simp add: advance_def get_def)
qed

lemma advance_word:
  assumes "ends_in_eof toks" and "pos < length toks" and "tag_word (tok_tag (toks ! pos)) = Some w"
  shows "advance toks pos = Ok (Suc pos)" and "Suc pos < length toks"
  using advance_in [OF assms(1,2)] assms(3)
  by (cases "tok_tag (toks ! pos)"; simp add: tag_word_def)+

section \<open>Consuming tokens\<close>

text \<open>A parse that ends inside the stream, at \<open>lo\<close> or later, with a value that satisfies \<open>Q\<close>.\<close>

definition lands :: "token list \<Rightarrow> nat \<Rightarrow> ('a \<Rightarrow> bool) \<Rightarrow> ('a \<times> nat) res \<Rightarrow> bool" where
  "lands toks lo Q m \<longleftrightarrow> yields m (\<lambda>(x, pos). lo \<le> pos \<and> pos < length toks \<and> Q x)"

lemma lands_simps [simp]:
  "lands toks lo Q (Ok (x, pos)) \<longleftrightarrow> lo \<le> pos \<and> pos < length toks \<and> Q x"
  "lands toks lo Q (Err e)"
  by (simp_all add: lands_def)

lemma lands_then:
  assumes "lands toks lo R m"
    and "\<And>x pos. R x \<Longrightarrow> lo \<le> pos \<Longrightarrow> pos < length toks \<Longrightarrow> lands toks lo' Q (f (x, pos))"
  shows "lands toks lo' Q (and_then m f)"
  using assms by (cases m) (auto simp: lands_def)

lemma yields_then_lands:
  assumes "yields m R" and "\<And>x. R x \<Longrightarrow> lands toks lo Q (f x)"
  shows "lands toks lo Q (and_then m f)"
  using assms by (cases m) (auto simp: lands_def)

lemma lands_mono:
  "lands toks lo' R m \<Longrightarrow> lo \<le> lo' \<Longrightarrow> (\<And>x. R x \<Longrightarrow> Q x) \<Longrightarrow> lands toks lo Q m"
  by (cases m) (auto simp: lands_def)

lemma lands_any: "lands toks lo' R m \<Longrightarrow> lo \<le> lo' \<Longrightarrow> lands toks lo (\<lambda>_. True) m"
  by (erule lands_mono) auto

lemma expect_word_lands:
  "ends_in_eof toks \<Longrightarrow> pos < length toks \<Longrightarrow>
     lands toks (Suc pos) (\<lambda>_. True) (expect_word expected toks pos)"
  using advance_in [of toks pos]
  by (auto simp: expect_word_def split: token_tag.split)

lemma expect_dash_yields:
  "ends_in_eof toks \<Longrightarrow> pos < length toks \<Longrightarrow>
     yields (expect_dash toks pos) (\<lambda>pos'. Suc pos \<le> pos' \<and> pos' < length toks)"
  using advance_in [of toks pos]
  by (auto simp: expect_dash_def split: token_tag.split)

lemma try_keyword_lands:
  "ends_in_eof toks \<Longrightarrow> pos < length toks \<Longrightarrow>
     lands toks pos (\<lambda>_. True) (try_keyword table toks pos)"
  using advance_word [of toks pos]
  by (auto simp: try_keyword_def split: option.split)

lemma try_consume_word_yields:
  "ends_in_eof toks \<Longrightarrow> pos < length toks \<Longrightarrow>
     yields (try_consume_word w toks pos) (\<lambda>pos'. pos \<le> pos' \<and> pos' < length toks)"
  using advance_word [of toks pos w]
  by (auto simp: try_consume_word_def)

section \<open>Literals\<close>

lemma parse_port_yields: "yields (parse_port text ofs) (\<lambda>_. True)"
  by (simp add: parse_port_def)

lemma parse_prefix_yields:
  "yields (parse_prefix limit allow invalid prefix) (\<lambda>r. \<forall>n. r = Some n \<longrightarrow> n \<le> limit)"
  by (cases prefix) (auto intro!: yields_and_then [where R = "\<lambda>_. True"])

lemma parse_ipv6_literal_yields:
  "yields (parse_ipv6_literal text ofs allow)
     (\<lambda>(addr, prefix). \<forall>n. prefix = Some n \<longrightarrow> unat n \<le> full_width addr)"
  unfolding parse_ipv6_literal_def Let_def
  by (auto split: prod.split
      intro!: yields_and_then [where R = "\<lambda>_. True"] yields_and_then [OF parse_prefix_yields]
      simp: word_le_nat_alt)

lemma parse_addr_literal_yields:
  "yields (parse_addr_literal text ofs allow)
     (\<lambda>(addr, prefix). \<forall>n. prefix = Some n \<longrightarrow> unat n \<le> full_width addr)"
  using parse_ipv6_literal_yields [of "text" ofs allow]
  unfolding parse_addr_literal_def Let_def
  by (auto split: prod.split
      intro!: yields_and_then [where R = "\<lambda>_. True"] yields_and_then [OF parse_prefix_yields]
      simp: word_le_nat_alt)

lemma parse_mac_literal_yields: "yields (parse_mac_literal text ofs) (\<lambda>_. True)"
  by (simp add: parse_mac_literal_def Let_def split: option.split)

lemma parse_ethertype_yields: "yields (parse_ethertype text ofs) (\<lambda>_. True)"
  by (simp add: parse_ethertype_def Let_def)

section \<open>Primitives\<close>

lemma parse_mac_operand_lands:
  assumes "ends_in_eof toks" and "pos < length toks"
  shows "lands toks pos (\<lambda>_. True) (parse_mac_operand d toks pos)"
  unfolding parse_mac_operand_def
  by (rule lands_then [OF expect_word_lands [OF assms]])
     (auto intro!: yields_then_lands [OF parse_mac_literal_yields] split: prod.split)

lemma parse_ether_kind_lands:
  assumes "ends_in_eof toks" and "pos < length toks"
  shows "lands toks pos (\<lambda>_. True) (parse_ether_kind kw ofs toks pos)"
proof -
  have operand: "lands toks pos (\<lambda>_. True)
      (and_then (try_consume_word ''host'' toks pos) (parse_mac_operand (Some d) toks))" for d
    by (rule yields_then_lands [OF try_consume_word_yields [OF assms]])
       (auto intro: lands_any [OF parse_mac_operand_lands] assms)
  have "lands toks pos (\<lambda>_. True)
      (and_then (expect_word ''an ethertype name or number'' toks pos) (\<lambda>((text, ofs), pos).
        and_then (parse_ethertype text ofs) (\<lambda>et. Ok (EtherProto et, pos))))"
    by (rule lands_then [OF expect_word_lands [OF assms]])
       (auto intro!: yields_then_lands [OF parse_ethertype_yields] split: prod.split)
  then show ?thesis
    using assms by (simp add: parse_ether_kind_def operand parse_mac_operand_lands)
qed

lemma finish_ether_lands:
  "lo \<le> pos \<Longrightarrow> pos < length toks \<Longrightarrow> lands toks lo (\<lambda>_. True) (finish_ether toks start (kind, pos))"
  using prev_end_in [of pos toks] by (auto simp: finish_ether_def)

lemma parse_ether_primitive_lands:
  assumes "ends_in_eof toks" and "pos < length toks" and "tag_word (tok_tag (toks ! pos)) = Some w"
  shows "lands toks (Suc pos) (\<lambda>_. True) (parse_ether_primitive toks pos)"
proof -
  note adv = advance_word [OF assms]
  have rest: "lands toks (Suc pos) (\<lambda>_. True)
      (and_then (expect_word ether_expected toks (Suc pos)) (\<lambda>((kw, kw_offset), pos).
        and_then (parse_ether_kind kw kw_offset toks pos) (finish_ether toks start)))" for start
  proof (rule lands_then [OF expect_word_lands [OF assms(1) adv(2)]])
    fix x :: "string \<times> offset" and pos'
    assume "Suc (Suc pos) \<le> pos'" "pos' < length toks"
    then show "lands toks (Suc pos) (\<lambda>_. True) ((\<lambda>((kw, kw_offset), pos).
        and_then (parse_ether_kind kw kw_offset toks pos) (finish_ether toks start)) (x, pos'))"
      by (auto split: prod.split intro!: finish_ether_lands
          lands_then [OF parse_ether_kind_lands [OF assms(1)]])
  qed
  show ?thesis
    using assms(2,3) adv rest
    by (simp add: parse_ether_primitive_def Let_def finish_ether_lands)
qed

lemma parse_portrange_lands:
  assumes "ends_in_eof toks" and "pos < length toks"
  shows "lands toks pos wf_type (parse_portrange start toks pos)"
  unfolding parse_portrange_def
proof (rule lands_then [OF expect_word_lands [OF assms]], clarsimp)
  fix lo_text lo_offset pos1
  assume pos1: "Suc pos \<le> pos1" "pos1 < length toks"
  show "lands toks pos wf_type
     (and_then (parse_port lo_text lo_offset) (\<lambda>lo.
      and_then (expect_dash toks pos1) (\<lambda>pos.
      and_then (expect_word ''a port number'' toks pos) (\<lambda>((hi_text, hi_offset), pos).
      and_then (parse_port hi_text hi_offset) (\<lambda>hi.
        if hi < lo then
          Err (new_error (Range start (off_end hi_offset)) (InvalidPortRange (ucast lo) (ucast hi)))
        else Ok (PortRange lo hi, pos))))))"
    using pos1
    by (auto intro!: yields_then_lands [OF parse_port_yields]
        yields_then_lands [OF expect_dash_yields [OF assms(1)]]
        lands_then [OF expect_word_lands [OF assms(1)]] split: prod.split)
qed

lemma parse_type_lands:
  assumes "ends_in_eof toks" and "pos < length toks"
  shows "lands toks pos wf_type (parse_type start ty ofs toks pos)"
proof -
  have addr: "lands toks pos wf_type
      (and_then (expect_word what toks pos) (\<lambda>((text, ofs), pos).
        and_then (parse_addr_literal text ofs allow) (\<lambda>(addr, prefix). Ok (f addr prefix, pos))))"
    if "\<And>a n. (\<forall>m. n = Some m \<longrightarrow> unat m \<le> full_width a) \<Longrightarrow> wf_type (f a n)"
    for what allow and f :: "addr_lit \<Rightarrow> u8 option \<Rightarrow> prim_type"
    by (rule lands_then [OF expect_word_lands [OF assms]])
       (auto intro!: yields_then_lands [OF parse_addr_literal_yields] that split: prod.split)
  have host: "lands toks pos wf_type
      (and_then (expect_word ''an address'' toks pos) (\<lambda>((text, ofs), pos).
        and_then (parse_addr_literal text ofs False) (\<lambda>(addr, prefix). Ok (Host addr, pos))))"
    using addr [of "\<lambda>a n. Host a"] by simp
  have net: "lands toks pos wf_type
      (and_then (expect_word ''a network address'' toks pos) (\<lambda>((text, ofs), pos).
        and_then (parse_addr_literal text ofs True) (\<lambda>(addr, prefix). Ok (Net addr prefix, pos))))"
  proof (rule addr)
    show "\<forall>m. n = Some m \<longrightarrow> unat m \<le> full_width a \<Longrightarrow> wf_type (Net a n)" for a n
      by (cases n) auto
  qed
  have port: "lands toks pos wf_type
      (and_then (expect_word ''a port number'' toks pos) (\<lambda>((text, ofs), pos).
        and_then (parse_port text ofs) (\<lambda>p. Ok (Port p, pos))))"
    by (rule lands_then [OF expect_word_lands [OF assms]])
       (auto intro!: yields_then_lands [OF parse_port_yields] split: prod.split)
  show ?thesis
    by (simp add: parse_type_def host net port parse_portrange_lands [OF assms])
qed

lemma parse_primitive_lands:
  assumes "ends_in_eof toks" and "pos < length toks"
  shows "lands toks (Suc pos) (\<lambda>p. wf_type (prim_ty p)) (parse_primitive toks pos)"
proof -
  have finish: "lands toks (Suc pos) (\<lambda>p. wf_type (prim_ty p))
      (and_then (parse_type start w ofs toks pos2) (\<lambda>(ty, pos).
       and_then (prev_end toks pos) (\<lambda>e.
         Ok (\<lparr>prim_proto = proto, prim_dir = d, prim_ty = ty, prim_offset = Range start e\<rparr>, pos))))"
    if "Suc pos \<le> pos2" "pos2 < length toks" for start w ofs pos2 proto d
  proof (rule lands_then [OF parse_type_lands [OF assms(1) that(2)]])
    fix ty pos'
    assume "wf_type ty" "pos2 \<le> pos'" "pos' < length toks"
    moreover obtain e where "prev_end toks pos' = Ok e" using prev_end_in \<open>pos' < length toks\<close> by blast
    ultimately show "lands toks (Suc pos) (\<lambda>p. wf_type (prim_ty p))
       ((\<lambda>(ty, pos). and_then (prev_end toks pos) (\<lambda>e.
         Ok (\<lparr>prim_proto = proto, prim_dir = d, prim_ty = ty, prim_offset = Range start e\<rparr>, pos)))
          (ty, pos'))"
      using that by simp
  qed
  show ?thesis
    using assms(2)
    by (auto simp: parse_primitive_def try_parse_proto_def try_parse_dir_def Let_def split: prod.split
        intro!: lands_then [OF try_keyword_lands [OF assms(1)]]
          lands_then [OF expect_word_lands [OF assms(1)]] finish)
qed

lemma parse_leaf_lands:
  assumes "ends_in_eof toks" and "pos < length toks" and "tok_tag (toks ! pos) = Word w"
  shows "lands toks (Suc pos) (\<lambda>e. wf_expr e \<and> expr_leaves e = 1) (parse_leaf toks pos w)"
proof -
  have "tag_word (tok_tag (toks ! pos)) = Some w" using assms(3) by (simp add: tag_word_def)
  note ether = parse_ether_primitive_lands [OF assms(1,2) this]
  show ?thesis
    unfolding parse_leaf_def
    by (auto intro!: lands_then [OF ether] lands_then [OF parse_primitive_lands [OF assms(1,2)]])
qed

section \<open>Expressions\<close>

text \<open>
  With fuel proportional to what is left of the stream every function of the grammar lands, behind at
  least one token, and the tree has no more primitives than tokens were consumed.
\<close>

definition parsed :: "token list \<Rightarrow> nat \<Rightarrow> (expr \<times> nat) res \<Rightarrow> bool" where
  "parsed toks pos m \<longleftrightarrow>
     yields m (\<lambda>(e, pos'). pos < pos' \<and> pos' < length toks \<and> wf_expr e \<and> expr_leaves e \<le> pos' - pos)"

definition looped :: "token list \<Rightarrow> expr \<Rightarrow> nat \<Rightarrow> (expr \<times> nat) res \<Rightarrow> bool" where
  "looped toks lhs pos m \<longleftrightarrow>
     yields m (\<lambda>(e, pos'). pos \<le> pos' \<and> pos' < length toks \<and> wf_expr e \<and>
       expr_leaves e \<le> expr_leaves lhs + (pos' - pos))"

lemma parsed_then_looped:
  assumes "parsed toks pos m"
    and "\<And>e pos'. pos < pos' \<Longrightarrow> pos' < length toks \<Longrightarrow> wf_expr e \<Longrightarrow> looped toks e pos' (f (e, pos'))"
  shows "parsed toks pos (and_then m f)"
  using assms(1) unfolding parsed_def
proof (rule yields_and_then)
  fix x
  assume "case x of (e, pos') \<Rightarrow>
    pos < pos' \<and> pos' < length toks \<and> wf_expr e \<and> expr_leaves e \<le> pos' - pos"
  moreover obtain e pos' where x: "x = (e, pos')" by (cases x)
  ultimately have "looped toks e pos' (f x)" and e: "pos < pos'" "expr_leaves e \<le> pos' - pos"
    using assms(2) by auto
  then show "yields (f x) (\<lambda>(e, pos').
      pos < pos' \<and> pos' < length toks \<and> wf_expr e \<and> expr_leaves e \<le> pos' - pos)"
    unfolding looped_def using e by (auto elim!: yields_mono)
qed

lemma looped_step:
  assumes "parsed toks (Suc pos) m" and "wf_expr lhs"
    and "\<And>rhs pos'. Suc pos < pos' \<Longrightarrow> pos' < length toks \<Longrightarrow> wf_expr rhs \<Longrightarrow>
           looped toks (g rhs) pos' (f (rhs, pos'))"
    and "\<And>rhs. expr_leaves (g rhs) = expr_leaves lhs + expr_leaves rhs"
  shows "looped toks lhs pos (and_then m f)"
  unfolding looped_def
proof (rule yields_and_then [OF assms(1) [unfolded parsed_def]])
  fix x
  assume "case x of (e, pos') \<Rightarrow>
    Suc pos < pos' \<and> pos' < length toks \<and> wf_expr e \<and> expr_leaves e \<le> pos' - Suc pos"
  moreover obtain e pos' where x: "x = (e, pos')" by (cases x)
  ultimately have "looped toks (g e) pos' (f x)"
    and e: "Suc pos < pos'" "expr_leaves e \<le> pos' - Suc pos"
    using assms(3) by auto
  then show "yields (f x) (\<lambda>(e, pos'). pos \<le> pos' \<and> pos' < length toks \<and> wf_expr e \<and>
       expr_leaves e \<le> expr_leaves lhs + (pos' - pos))"
    unfolding looped_def using e assms(4) by (auto elim!: yields_mono)
qed

definition left :: "token list \<Rightarrow> nat \<Rightarrow> nat" where
  "left toks pos = length toks - pos"

lemma parse_levels:
  assumes "ends_in_eof toks"
  shows "pos < length toks \<Longrightarrow> 4 * left toks pos + 4 \<le> n \<Longrightarrow> parsed toks pos (parse_or n toks pos)"
    and "pos < length toks \<Longrightarrow> 4 * left toks pos + 1 \<le> n \<Longrightarrow> wf_expr lhs \<Longrightarrow>
           looped toks lhs pos (parse_or_loop n toks lhs pos)"
    and "pos < length toks \<Longrightarrow> 4 * left toks pos + 3 \<le> n \<Longrightarrow> parsed toks pos (parse_and n toks pos)"
    and "pos < length toks \<Longrightarrow> 4 * left toks pos + 1 \<le> n \<Longrightarrow> wf_expr lhs \<Longrightarrow>
           looped toks lhs pos (parse_and_loop n toks lhs pos)"
    and "pos < length toks \<Longrightarrow> 4 * left toks pos + 2 \<le> n \<Longrightarrow> parsed toks pos (parse_unary n toks pos)"
    and "pos < length toks \<Longrightarrow> 4 * left toks pos + 1 \<le> n \<Longrightarrow> parsed toks pos (parse_primary n toks pos)"
proof (induction n arbitrary: pos lhs)
  case (Suc n)
  note adv = advance_word [OF assms]
  {
    case 1
    then show ?case
      by (auto intro!: parsed_then_looped [OF Suc.IH(3)] Suc.IH(2) simp: left_def)
  next
    case 2
    then show ?case
      using adv [of pos "''or''"]
      by (auto simp: left_def looped_def [where m = "Ok (lhs, pos)"]
          intro!: looped_step [OF Suc.IH(3)] Suc.IH(2))
  next
    case 3
    then show ?case
      by (auto intro!: parsed_then_looped [OF Suc.IH(5)] Suc.IH(4) simp: left_def)
  next
    case 4
    then show ?case
      using adv [of pos "''and''"]
      by (auto simp: left_def looped_def [where m = "Ok (lhs, pos)"]
          intro!: looped_step [OF Suc.IH(5)] Suc.IH(4))
  next
    case 5
    show ?case
    proof (cases "tag_word (tok_tag (toks ! pos)) = Some ''not''")
      case True
      note moved = adv [OF 5(1) True]
      have "parsed toks (Suc pos) (parse_unary n toks (Suc pos))"
        using 5 moved by (intro Suc.IH(5)) (auto simp: left_def)
      then show ?thesis
        using 5 moved True by (cases "parse_unary n toks (Suc pos)") (auto simp: parsed_def)
    next
      case False
      with 5 show ?thesis by (auto intro!: Suc.IH(6) simp: left_def)
    qed
  next
    case 6
    note leaf = parse_leaf_lands [OF assms 6(1)]
    show ?case
    proof (cases "tok_tag (toks ! pos)")
      case (Word w)
      have "parsed toks pos (parse_leaf toks pos w)"
        using leaf [OF Word] by (auto simp: lands_def parsed_def elim!: yields_mono)
      with 6 Word show ?thesis by simp
    next
      case LParen
      note moved = advance_in [OF assms 6(1), unfolded LParen]
      have "parsed toks (Suc pos) (parse_or n toks (Suc pos))"
        using 6 moved by (intro Suc.IH(1)) (auto simp: left_def)
      then show ?thesis
        using 6 moved LParen advance_in [OF assms]
        by (cases "parse_or n toks (Suc pos)") (auto simp: parsed_def)
    qed (use 6 in \<open>auto simp: parsed_def\<close>)
  }
qed simp_all

text \<open>The parser on a stream that ends in its only \<open>Eof\<close>.\<close>

lemma parse_yields:
  assumes "ends_in_eof toks"
  shows "yields (parse toks) (\<lambda>e. wf_expr e \<and> expr_leaves e \<le> length toks)"
proof -
  obtain t ts where toks: "toks = t # ts" using assms by (cases toks) (auto simp: ends_in_eof_def)
  have "parsed toks 0 (parse_or (parse_fuel toks) toks 0)"
    using assms by (intro parse_levels(1)) (auto simp: toks left_def parse_fuel_def)
  moreover have "yields (expect_eof toks pos) (\<lambda>_. True)" if "pos < length toks" for pos
    using that by (simp add: expect_eof_def)
  ultimately show ?thesis
    unfolding parse_def parsed_def
    by (auto simp: toks intro!: yields_and_then [where R = "\<lambda>_. True"]
        elim!: yields_and_then)
qed

end
