(* ===== verification/LexerCorrect.thy ===== *)
theory LexerCorrect
  imports ParserCorrect
begin

text \<open>
  The tokenizer against a declarative description of tokenization: white space between the spellings
  of the tokens, words taken as long as possible, byte ranges that cut the spellings out of the
  source.
\<close>

section \<open>Tokenizations\<close>

definition word_text :: "rstr \<Rightarrow> bool" where
  "word_text s \<longleftrightarrow> s \<noteq> [] \<and> (\<forall>c \<in> set s. is_word_char c)"

fun spells :: "token_tag \<Rightarrow> rstr \<Rightarrow> bool" where
  "spells LParen s = (s = ascii ''('')"
| "spells RParen s = (s = ascii '')'')"
| "spells Dash s = (s = ascii ''-'')"
| "spells (Word w) s =
     (s = ascii w \<and> word_text s \<or> w = ''not'' \<and> s = ascii ''!'' \<or>
      w = ''and'' \<and> s = ascii ''&&'' \<or> w = ''or'' \<and> s = ascii ''||'')"
| "spells Eof s = False"

text \<open>A word does not stop in front of a character that would extend it.\<close>

definition maximal :: "rstr \<Rightarrow> rstr \<Rightarrow> bool" where
  "maximal s rest \<longleftrightarrow> word_text s \<longrightarrow> rest = [] \<or> \<not> is_word_char (hd rest)"

definition blank :: "rstr \<Rightarrow> bool" where
  "blank s \<longleftrightarrow> (\<forall>c \<in> set s. is_whitespace c)"

text \<open>\<open>tokenizes start cs ts\<close>: the text \<open>cs\<close>, which begins at byte \<open>start\<close>, has the tokens \<open>ts\<close>.\<close>

inductive tokenizes :: "nat \<Rightarrow> rstr \<Rightarrow> token list \<Rightarrow> bool" where
  tokenizes_end:
    "blank ws \<Longrightarrow> end_at = start + str_len ws \<Longrightarrow> tokenizes start ws [mk_token Eof end_at end_at]"
| tokenizes_token:
    "blank ws \<Longrightarrow> spells tag s \<Longrightarrow> maximal s rest \<Longrightarrow> lo = start + str_len ws \<Longrightarrow>
     hi = lo + str_len s \<Longrightarrow> tokenizes hi rest ts \<Longrightarrow>
     tokenizes start (ws @ s @ rest) (mk_token tag lo hi # ts)"

section \<open>Characters\<close>

lemma is_word_char_code:
  "is_word_char c \<longleftrightarrow>
     48 \<le> c \<and> c \<le> 57 \<or> 65 \<le> c \<and> c \<le> 90 \<or> 97 \<le> c \<and> c \<le> 122 \<or> c = 46 \<or> c = 58 \<or> c = 47"
  by (simp add: is_word_char_def is_ascii_alphanumeric_def)

lemma word_char_ascii: "is_word_char c \<Longrightarrow> c < 128"
  by (auto simp: is_word_char_code)

lemma word_char_len [simp]: "is_word_char c \<Longrightarrow> len_utf8 c = 1"
  by (auto simp: is_word_char_code len_utf8_def)

lemma ascii_len [simp]: "c < 128 \<Longrightarrow> len_utf8 c = 1"
  by (simp add: len_utf8_def)

lemma ascii_char_of: "(\<forall>c \<in> set s. c < 256) \<Longrightarrow> ascii (map char_of s) = s"
  by (induction s) (auto simp: ascii_def)

lemma char_of_ascii [simp]: "map char_of (ascii w) = w"
  by (simp add: ascii_def comp_def)

lemma ascii_word: "word_text s \<Longrightarrow> ascii (map char_of s) = s"
  by (rule ascii_char_of) (fastforce simp: word_text_def dest: word_char_ascii)

lemma scan_word_eq:
  "scan_word e cs =
     (e + str_len (takeWhile is_word_char cs), takeWhile is_word_char cs, dropWhile is_word_char cs)"
  by (induction e cs rule: scan_word.induct) auto

lemma word_maximal:
  "is_word_char c \<Longrightarrow> word_text (c # takeWhile is_word_char cs) \<and>
     maximal (c # takeWhile is_word_char cs) (dropWhile is_word_char cs)"
  using hd_dropWhile [of is_word_char cs]
  by (auto simp: word_text_def maximal_def dest: set_takeWhileD)

lemma takeWhile_maximal:
  assumes "word_text s" and "maximal s rest"
  shows "takeWhile is_word_char (s @ rest) = s" and "dropWhile is_word_char (s @ rest) = rest"
proof -
  have "rest = [] \<or> \<not> is_word_char (hd rest)" using assms by (simp add: maximal_def)
  then have "takeWhile is_word_char rest = []" "dropWhile is_word_char rest = rest"
    by (cases rest; simp)+
  then show "takeWhile is_word_char (s @ rest) = s" "dropWhile is_word_char (s @ rest) = rest"
    using assms(1) by (auto simp: word_text_def takeWhile_append2 dropWhile_append2)
qed

section \<open>One token\<close>

text \<open>The token at the head of a text that does not begin with white space.\<close>

fun scan_token :: "rstr \<Rightarrow> (token_tag \<times> rstr \<times> rstr) option" where
  "scan_token [] = None"
| "scan_token (c # cs) =
     (if c = 40 then Some (LParen, [c], cs)
      else if c = 41 then Some (RParen, [c], cs)
      else if c = 45 then Some (Dash, [c], cs)
      else if c = 33 then Some (Word ''not'', [c], cs)
      else if c = 38 \<or> c = 124 then
        (if cs \<noteq> [] \<and> hd cs = c
         then Some (Word (if c = 38 then ''and'' else ''or''), [c, c], tl cs) else None)
      else if is_word_char c then
        Some (Word (map char_of (c # takeWhile is_word_char cs)), c # takeWhile is_word_char cs,
              dropWhile is_word_char cs)
      else None)"

lemma lex_loop_token:
  assumes "\<not> is_whitespace c"
  shows "lex_loop at start (c # cs) =
    (case scan_token (c # cs) of
       None \<Rightarrow> Err (new_error (Range start (start + 1)) (UnexpectedChar c))
     | Some (tag, s, rest) \<Rightarrow>
         push_token (mk_token tag start (start + str_len s)) (lex_loop at (start + str_len s) rest))"
  using assms by (cases cs) (auto simp: scan_word_eq add.assoc)

lemma symbols_not_words [simp]:
  "\<not> word_text [40]" "\<not> word_text [41]" "\<not> word_text [45]" "\<not> word_text [33]"
  "\<not> word_text [38, 38]" "\<not> word_text [124, 124]"
  by (simp_all add: word_text_def is_word_char_code)

lemma ascii_symbols [simp]:
  "ascii ''('' = [40]" "ascii '')'' = [41]" "ascii ''-'' = [45]" "ascii ''!'' = [33]"
  "ascii ''&&'' = [38, 38]" "ascii ''||'' = [124, 124]"
  by (simp_all add: ascii_def)

lemma spells_word: "word_text s \<Longrightarrow> spells (Word (map char_of s)) s"
  by (simp add: ascii_word)

lemma scan_token_sound:
  "scan_token cs = Some (tag, s, rest) \<Longrightarrow> cs = s @ rest \<and> spells tag s \<and> maximal s rest"
proof (cases cs)
  case (Cons c cs')
  assume *: "scan_token cs = Some (tag, s, rest)"
  show ?thesis
  proof (cases "c \<in> {40, 41, 45, 33, 38, 124}")
    case True
    then show ?thesis using * Cons by (cases cs') (auto simp: maximal_def split: if_splits)
  next
    case False
    then have "is_word_char c" and s: "s = c # takeWhile is_word_char cs'"
      and "tag = Word (map char_of s)" "rest = dropWhile is_word_char cs'"
      using * Cons by (auto split: if_splits)
    moreover from this word_maximal [of c cs'] have "word_text s" "maximal s rest" by simp_all
    moreover have "cs = s @ rest" using Cons calculation by simp
    ultimately show ?thesis using spells_word [of s] by blast
  qed
qed simp

lemma scan_token_complete:
  assumes "spells tag s" and "maximal s rest"
  shows "scan_token (s @ rest) = Some (tag, s, rest)"
proof (cases "word_text s")
  case True
  then obtain c s' where s: "s = c # s'" by (cases s) (auto simp: word_text_def)
  have word: "is_word_char c" using True s by (simp add: word_text_def)
  have tag: "tag = Word (map char_of s)"
    using assms(1) True by (cases tag) auto
  have "takeWhile is_word_char (s' @ rest) = s'" "dropWhile is_word_char (s' @ rest) = rest"
    using takeWhile_maximal [OF True assms(2)] s word by auto
  moreover have "c \<notin> {40, 41, 45, 33, 38, 124}" using word by (auto simp: is_word_char_code)
  ultimately show ?thesis using word by (simp add: s tag)
next
  case False
  then show ?thesis using assms(1) by (cases tag) auto
qed

declare lex_loop.simps(2) [simp del] scan_token.simps(2) [simp del]

lemma lex_loop_white [simp]:
  "is_whitespace c \<Longrightarrow> lex_loop at start (c # cs) = lex_loop at (start + len_utf8 c) cs"
  by (simp add: lex_loop.simps(2))

lemma scan_token_iff:
  "scan_token cs = Some (tag, s, rest) \<longleftrightarrow> cs = s @ rest \<and> spells tag s \<and> maximal s rest"
  using scan_token_sound scan_token_complete by blast

lemma spells_nonempty: "spells tag s \<Longrightarrow> s \<noteq> []"
  by (cases tag) (auto simp: word_text_def)

lemma spells_not_blank: "spells tag s \<Longrightarrow> \<not> is_whitespace (hd s)"
proof -
  assume *: "spells tag s"
  show ?thesis
  proof (cases "word_text s")
    case True
    then have "is_word_char (hd s)" by (simp add: word_text_def)
    then show ?thesis by (auto simp: is_word_char_code is_whitespace_def)
  next
    case False
    with * show ?thesis by (cases tag) (auto simp: is_whitespace_def)
  qed
qed

section \<open>The tokenizer computes the tokenization\<close>

lemma tokenizes_blank:
  assumes "tokenizes (start + len_utf8 c) cs ts" and "is_whitespace c"
  shows "tokenizes start (c # cs) ts"
  using assms
proof (cases rule: tokenizes.cases)
  case (tokenizes_end end_at)
  then show ?thesis
    using tokenizes.tokenizes_end [of "c # cs" end_at start] assms(2) by (simp add: blank_def)
next
  case (tokenizes_token ws tag s rest lo hi ts')
  then show ?thesis
    using tokenizes.tokenizes_token [of "c # ws" tag s rest lo start hi ts'] assms(2)
    by (simp add: blank_def)
qed

lemma tokenizes_here:
  "spells tag s \<Longrightarrow> maximal s rest \<Longrightarrow> hi = start + str_len s \<Longrightarrow> tokenizes hi rest ts \<Longrightarrow>
     tokenizes start (s @ rest) (mk_token tag start hi # ts)"
  using tokenizes_token [of "[]" tag s rest start start hi ts] by (simp add: blank_def)

lemma push_token_Ok [simp]: "push_token t r = Ok ts \<longleftrightarrow> (\<exists>ts'. r = Ok ts' \<and> ts = t # ts')"
  by (auto simp: push_token_def)

lemma push_token_Err [simp]: "push_token t r = Err e \<longleftrightarrow> r = Err e"
  by (auto simp: push_token_def and_then_Err)

lemma lex_loop_sound:
  "lex_loop at start cs = Ok ts \<Longrightarrow> at = start + str_len cs \<Longrightarrow> tokenizes start cs ts"
proof (induction "length cs" arbitrary: start cs ts rule: less_induct)
  case less
  show ?case
  proof (cases cs)
    case Nil
    then show ?thesis using less.prems tokenizes_end [of "[]" start start] by (simp add: blank_def)
  next
    case (Cons c cs')
    show ?thesis
    proof (cases "is_whitespace c")
      case True
      then have "tokenizes (start + len_utf8 c) cs' ts"
        using less.prems Cons by (intro less.hyps) auto
      then show ?thesis using tokenizes_blank True Cons by blast
    next
      case False
      then obtain tag s rest ts' where scan: "scan_token cs = Some (tag, s, rest)"
        and rest: "lex_loop at (start + str_len s) rest = Ok ts'"
        and ts: "ts = mk_token tag start (start + str_len s) # ts'"
        using less.prems(1) Cons lex_loop_token [OF False, of at start cs']
        by (cases "scan_token cs") auto
      have cs: "cs = s @ rest" "spells tag s" "maximal s rest"
        using scan_token_sound [OF scan] by auto
      have "length rest < length cs" using spells_nonempty [OF cs(2)] cs(1) by simp
      then have "tokenizes (start + str_len s) rest ts'"
        using rest less.prems(2) cs(1) by (intro less.hyps) auto
      then show ?thesis unfolding ts cs(1) by (intro tokenizes_here cs) simp_all
    qed
  qed
qed

lemma lex_loop_blank:
  "blank ws \<Longrightarrow> lex_loop at start (ws @ cs) = lex_loop at (start + str_len ws) cs"
  by (induction ws arbitrary: start) (auto simp: blank_def add.assoc)

lemma lex_loop_complete:
  "tokenizes start cs ts \<Longrightarrow> at = start + str_len cs \<Longrightarrow> lex_loop at start cs = Ok ts"
proof (induction rule: tokenizes.induct)
  case (tokenizes_end ws end_at start)
  then show ?case using lex_loop_blank [of ws at start "[]"] by simp
next
  case (tokenizes_token ws tag s rest lo start hi ts)
  obtain c s' where s: "s = c # s'" using spells_nonempty [OF tokenizes_token(2)] by (cases s) auto
  have "\<not> is_whitespace c" using spells_not_blank [OF tokenizes_token(2)] s by simp
  then have "lex_loop at lo (s @ rest) = push_token (mk_token tag lo hi) (lex_loop at hi rest)"
    using scan_token_complete [OF tokenizes_token(2,3)] tokenizes_token(5)
      lex_loop_token [of c at lo "s' @ rest"]
    by (simp add: s)
  then show ?case
    using tokenizes_token by (simp add: lex_loop_blank)
qed

lemma lex_tokenizes: "lex src = Ok ts \<longleftrightarrow> tokenizes 0 src ts"
  using lex_loop_sound [of "str_len src" 0 src ts] lex_loop_complete [of 0 src ts "str_len src"]
  by (auto simp: lex_def)

section \<open>What the rest of the pipeline needs\<close>

lemma tokenizes_stream: "tokenizes start cs ts \<Longrightarrow> ends_in_eof ts \<and> length ts \<le> Suc (length cs)"
proof (induction rule: tokenizes.induct)
  case (tokenizes_token ws tag s rest lo start hi ts)
  have "tag \<noteq> Eof" using tokenizes_token(2) by (cases tag) auto
  moreover have "1 \<le> length s"
    using spells_nonempty [OF tokenizes_token(2)] by (cases s) auto
  ultimately show ?case
    using tokenizes_token by (auto simp: ends_in_eof_def mk_token_def)
qed (simp add: ends_in_eof_def mk_token_def)

lemma lex_loop_returns: "returns (lex_loop at start cs)"
proof (induction "length cs" arbitrary: start cs rule: less_induct)
  case less
  show ?case
  proof (cases cs)
    case (Cons c cs')
    show ?thesis
    proof (cases "is_whitespace c")
      case True
      then show ?thesis using less [of cs' "start + len_utf8 c"] Cons by simp
    next
      case False
      show ?thesis
      proof (cases "scan_token cs")
        case None
        then show ?thesis using lex_loop_token [OF False, of at start cs'] Cons by simp
      next
        case (Some r)
        then obtain tag s rest where scan: "scan_token cs = Some (tag, s, rest)" by (cases r) auto
        have "length rest < length cs"
          using scan_token_sound [OF scan] spells_nonempty [of tag s] by auto
        then have "returns (lex_loop at (start + str_len s) rest)" by (rule less)
        then show ?thesis
          using lex_loop_token [OF False, of at start cs'] scan Cons by (auto simp: push_token_def)
      qed
    qed
  qed simp
qed

lemma lex_yields: "yields (lex src) (\<lambda>ts. ends_in_eof ts \<and> length ts \<le> Suc (length src))"
  using lex_loop_returns [of "str_len src" 0 src] tokenizes_stream [of 0 src]
  by (auto simp: yields_def lex_tokenizes simp flip: lex_def)

text \<open>Every token's byte range cuts its spelling out of the source's UTF-8 text.\<close>

lemma tokenizes_slice:
  assumes "tokenizes (str_len pre) cs ts" and "t \<in> set ts" and "tok_tag t \<noteq> Eof"
  shows "\<exists>a s b. pre @ cs = a @ s @ b \<and> spells (tok_tag t) s \<and>
           tok_offset t = Range (str_len a) (str_len a + str_len s)"
  using assms
proof (induction "str_len pre" cs ts arbitrary: pre rule: tokenizes.induct)
  case (tokenizes_token ws tag s rest lo hi ts)
  show ?case
  proof (cases "t = mk_token tag lo hi")
    case True
    then show ?thesis
      using tokenizes_token(2,4,5)
      by (intro exI [of _ "pre @ ws"] exI [of _ s] exI [of _ rest]) (simp add: mk_token_def)
  next
    case False
    have "hi = str_len (pre @ ws @ s)" using tokenizes_token(4,5) by simp
    from tokenizes_token(7) [OF this] False tokenizes_token(8,9) show ?thesis by simp
  qed
qed (simp add: mk_token_def)

lemma lex_slice:
  assumes "lex src = Ok ts" and "t \<in> set ts" and "tok_tag t \<noteq> Eof"
  shows "\<exists>s. spells (tok_tag t) s \<and>
    get_range (utf8 src) (off_start (tok_offset t)) (off_end (tok_offset t)) = Some (utf8 s)"
proof -
  obtain a s b where src: "src = a @ s @ b" and s: "spells (tok_tag t) s"
    and t: "tok_offset t = Range (str_len a) (str_len a + str_len s)"
    using tokenizes_slice [of "[]" src ts t] assms by (auto simp: lex_tokenizes)
  then show ?thesis
    by (intro exI [of _ s]) (simp add: get_range_def utf8_append)
qed

section \<open>Where tokenizing fails\<close>

text \<open>
  The error names the first character that neither is white space nor begins a token, and its first
  byte.
\<close>

lemma lex_loop_error:
  "lex_loop at start cs = Err e \<Longrightarrow>
     \<exists>pre c post. cs = pre @ c # post \<and> \<not> is_whitespace c \<and> scan_token (c # post) = None \<and>
       e = new_error (Range (start + str_len pre) (start + str_len pre + 1)) (UnexpectedChar c)"
proof (induction "length cs" arbitrary: start cs rule: less_induct)
  case less
  show ?case
  proof (cases cs)
    case Nil
    then show ?thesis using less.prems by simp
  next
    case (Cons c cs')
    show ?thesis
    proof (cases "is_whitespace c")
      case True
      then have "\<exists>pre d post. cs' = pre @ d # post \<and> \<not> is_whitespace d \<and> scan_token (d # post) = None \<and>
          e = new_error (Range (start + len_utf8 c + str_len pre) (start + len_utf8 c + str_len pre + 1))
                (UnexpectedChar d)"
        using less.prems Cons by (intro less.hyps) auto
      then show ?thesis by (metis Cons add.assoc append_Cons str_len.simps(2))
    next
      case False
      note eq = lex_loop_token [OF False, of at start cs']
      show ?thesis
      proof (cases "scan_token cs")
        case None
        then show ?thesis
          using eq less.prems Cons False
          by (intro exI [of _ "[]"] exI [of _ c] exI [of _ cs']) auto
      next
        case (Some r)
        then obtain tag s rest where scan: "scan_token cs = Some (tag, s, rest)" by (cases r) auto
        then have cs: "cs = s @ rest" and "s \<noteq> []"
          using scan_token_sound spells_nonempty by blast+
        moreover have "lex_loop at (start + str_len s) rest = Err e"
          using eq less.prems Cons scan by simp
        ultimately obtain pre d post where "rest = pre @ d # post" "\<not> is_whitespace d"
          "scan_token (d # post) = None"
          "e = new_error (Range (start + str_len s + str_len pre) (start + str_len s + str_len pre + 1))
                 (UnexpectedChar d)"
          using less.hyps [of rest "start + str_len s"] by (metis append_is_Nil_conv length_append length_greater_0_conv less_add_same_cancel2)
        then show ?thesis
          by (intro exI [of _ "s @ pre"] exI [of _ d] exI [of _ post]) (simp add: cs add.assoc)
      qed
    qed
  qed
qed

lemma lex_error:
  assumes "lex src = Err e"
  shows "\<exists>pre c post. src = pre @ c # post \<and> \<not> is_whitespace c \<and>
    (\<nexists>tag s rest. c # post = s @ rest \<and> spells tag s \<and> maximal s rest) \<and>
    e = new_error (Range (str_len pre) (str_len pre + 1)) (UnexpectedChar c)"
proof -
  have "lex_loop (str_len src) 0 src = Err e" using assms by (simp add: lex_def)
  from lex_loop_error [OF this] obtain pre c post
    where *: "src = pre @ c # post" "\<not> is_whitespace c" "scan_token (c # post) = None"
      "e = new_error (Range (str_len pre) (str_len pre + 1)) (UnexpectedChar c)"
    by auto
  then have "\<nexists>tag s rest. c # post = s @ rest \<and> spells tag s \<and> maximal s rest"
    by (auto simp flip: scan_token_iff)
  with * show ?thesis by blast
qed

end
