(* ===== verification/Grammar.thy ===== *)
theory Grammar
  imports ParserCorrect
begin

text \<open>
  The grammar of filter expressions as an inductive relation on stretches of a token stream, and the
  proof that the recursive-descent parser decides it: \<open>or\<close> binds weaker than \<open>and\<close>, both associate
  to the left, \<open>not\<close> binds strongest.
\<close>

section \<open>The grammar\<close>

abbreviation word :: "token list \<Rightarrow> nat \<Rightarrow> string option" where
  "word toks i \<equiv> tag_word (tok_tag (toks ! i))"

text \<open>
  \<open>or_expr toks i e j\<close>: the tokens from \<open>i\<close> up to but not including \<open>j\<close> are an expression with the
  tree \<open>e\<close>. A primitive is what \<open>parse_leaf\<close> reads.
\<close>

inductive or_expr :: "token list \<Rightarrow> nat \<Rightarrow> expr \<Rightarrow> nat \<Rightarrow> bool"
  and and_expr :: "token list \<Rightarrow> nat \<Rightarrow> expr \<Rightarrow> nat \<Rightarrow> bool"
  and not_expr :: "token list \<Rightarrow> nat \<Rightarrow> expr \<Rightarrow> nat \<Rightarrow> bool"
  and atom :: "token list \<Rightarrow> nat \<Rightarrow> expr \<Rightarrow> nat \<Rightarrow> bool"
  for toks where
  or_single: "and_expr toks i e j \<Longrightarrow> or_expr toks i e j"
| or_chain:
    "or_expr toks i l j \<Longrightarrow> j < length toks \<Longrightarrow> word toks j = Some ''or'' \<Longrightarrow>
     and_expr toks (Suc j) r k \<Longrightarrow> or_expr toks i (EOr l r (join_offset l r)) k"
| and_single: "not_expr toks i e j \<Longrightarrow> and_expr toks i e j"
| and_chain:
    "and_expr toks i l j \<Longrightarrow> j < length toks \<Longrightarrow> word toks j = Some ''and'' \<Longrightarrow>
     not_expr toks (Suc j) r k \<Longrightarrow> and_expr toks i (EAnd l r (join_offset l r)) k"
| not_prefix:
    "i < length toks \<Longrightarrow> word toks i = Some ''not'' \<Longrightarrow> not_expr toks (Suc i) e j \<Longrightarrow>
     not_expr toks i
       (ENot e (Range (off_start (tok_offset (toks ! i))) (off_end (offset_from_expr e)))) j"
| not_none: "atom toks i e j \<Longrightarrow> not_expr toks i e j"
| atom_parens:
    "i < length toks \<Longrightarrow> tok_tag (toks ! i) = LParen \<Longrightarrow> or_expr toks (Suc i) e j \<Longrightarrow>
     j < length toks \<Longrightarrow> tok_tag (toks ! j) = RParen \<Longrightarrow> atom toks i e (Suc j)"
| atom_primitive:
    "i < length toks \<Longrightarrow> tok_tag (toks ! i) = Word w \<Longrightarrow> parse_leaf toks i w = Ok (e, j) \<Longrightarrow>
     atom toks i e j"

section \<open>More fuel changes nothing\<close>

definition less_defined :: "'a res \<Rightarrow> 'a res \<Rightarrow> bool" where
  "less_defined m m' \<longleftrightarrow> m = Diverge \<or> m = m'"

lemma less_defined_refl [simp]: "less_defined m m"
  by (simp add: less_defined_def)

lemma less_defined_Diverge [simp]: "less_defined Diverge m"
  by (simp add: less_defined_def)

lemma less_defined_and_then:
  assumes "less_defined m m'" and "\<And>x. less_defined (f x) (f' x)"
  shows "less_defined (and_then m f) (and_then m' f')"
proof (cases m)
  case (Ok x)
  then show ?thesis using assms(1) assms(2) [of x] by (auto simp: less_defined_def)
qed (use assms(1) in \<open>auto simp: less_defined_def\<close>)

lemmas parser_simps =
  parse_or.simps parse_or_loop.simps parse_and.simps parse_and_loop.simps parse_unary.simps
  parse_primary.simps

declare parser_simps [simp del]

lemma fuel_step:
  "less_defined (parse_or n toks pos) (parse_or (Suc n) toks pos)"
  "less_defined (parse_or_loop n toks lhs pos) (parse_or_loop (Suc n) toks lhs pos)"
  "less_defined (parse_and n toks pos) (parse_and (Suc n) toks pos)"
  "less_defined (parse_and_loop n toks lhs pos) (parse_and_loop (Suc n) toks lhs pos)"
  "less_defined (parse_unary n toks pos) (parse_unary (Suc n) toks pos)"
  "less_defined (parse_primary n toks pos) (parse_primary (Suc n) toks pos)"
proof (induction n arbitrary: pos lhs)
  case (Suc n)
  note IH = Suc.IH
  {
    case 1
    show ?case
      unfolding parse_or.simps(2) [of n toks pos] parse_or.simps(2) [of "Suc n" toks pos]
      by (auto intro!: less_defined_and_then IH split: prod.split)
  next
    case 2
    show ?case
      unfolding parse_or_loop.simps(2) [of n toks lhs pos] parse_or_loop.simps(2) [of "Suc n" toks lhs pos]
      by (auto intro!: less_defined_and_then IH split: prod.split)
  next
    case 3
    show ?case
      unfolding parse_and.simps(2) [of n toks pos] parse_and.simps(2) [of "Suc n" toks pos]
      by (auto intro!: less_defined_and_then IH split: prod.split)
  next
    case 4
    show ?case
      unfolding parse_and_loop.simps(2) [of n toks lhs pos] parse_and_loop.simps(2) [of "Suc n" toks lhs pos]
      by (auto intro!: less_defined_and_then IH split: prod.split)
  next
    case 5
    show ?case
      unfolding parse_unary.simps(2) [of n toks pos] parse_unary.simps(2) [of "Suc n" toks pos]
      by (auto intro!: less_defined_and_then IH split: prod.split)
  next
    case 6
    show ?case
      unfolding parse_primary.simps(2) [of n toks pos] parse_primary.simps(2) [of "Suc n" toks pos]
      by (auto intro!: less_defined_and_then IH split: prod.split token_tag.split)
  }
qed (simp_all add: parser_simps)

lemma fuel_mono:
  assumes "parse_or n toks pos \<noteq> Diverge" and "n \<le> m"
  shows "parse_or m toks pos = parse_or n toks pos"
  using assms(2)
proof (induction m rule: dec_induct)
  case (step m)
  then show ?case using fuel_step(1) [of m toks pos] assms(1) by (simp add: less_defined_def)
qed simp

section \<open>Soundness\<close>

text \<open>What the six functions of the parser return is what the grammar derives.\<close>

lemma parse_sound:
  assumes toks: "ends_in_eof toks"
  shows "pos < length toks \<Longrightarrow> parse_or n toks pos = Ok (e, j) \<Longrightarrow> or_expr toks pos e j \<and> j < length toks"
    and "pos < length toks \<Longrightarrow> parse_or_loop n toks lhs pos = Ok (e, j) \<Longrightarrow> or_expr toks i lhs pos \<Longrightarrow>
           or_expr toks i e j \<and> j < length toks"
    and "pos < length toks \<Longrightarrow> parse_and n toks pos = Ok (e, j) \<Longrightarrow> and_expr toks pos e j \<and> j < length toks"
    and "pos < length toks \<Longrightarrow> parse_and_loop n toks lhs pos = Ok (e, j) \<Longrightarrow> and_expr toks i lhs pos \<Longrightarrow>
           and_expr toks i e j \<and> j < length toks"
    and "pos < length toks \<Longrightarrow> parse_unary n toks pos = Ok (e, j) \<Longrightarrow> not_expr toks pos e j \<and> j < length toks"
    and "pos < length toks \<Longrightarrow> parse_primary n toks pos = Ok (e, j) \<Longrightarrow> atom toks pos e j \<and> j < length toks"
proof (induction n arbitrary: pos lhs e j i)
  case (Suc n)
  note adv = advance_word [OF toks]
  {
    case (1 pos e j)
    then obtain lhs k where "parse_and n toks pos = Ok (lhs, k)" "parse_or_loop n toks lhs k = Ok (e, j)"
      by (auto simp: parser_simps)
    with Suc.IH(3) [OF 1(1)] Suc.IH(2) [of k lhs e j pos] show ?case by (auto intro: or_single)
  next
    case (2 pos lhs e j i)
    show ?case
    proof (cases "word toks pos = Some ''or''")
      case True
      with 2 adv [OF 2(1) True] obtain r k where r: "parse_and n toks (Suc pos) = Ok (r, k)"
        and "parse_or_loop n toks (EOr lhs r (join_offset lhs r)) k = Ok (e, j)"
        by (auto simp: parser_simps)
      moreover have "and_expr toks (Suc pos) r k" "k < length toks"
        using Suc.IH(3) [OF adv(2) [OF 2(1) True] r] by simp_all
      ultimately show ?thesis
        using Suc.IH(2) [of k _ e j i] or_chain [OF 2(3) 2(1) True] by blast
    next
      case False
      then show ?thesis using 2 by (auto simp: parser_simps)
    qed
  next
    case (3 pos e j)
    then obtain lhs k where "parse_unary n toks pos = Ok (lhs, k)" "parse_and_loop n toks lhs k = Ok (e, j)"
      by (auto simp: parser_simps)
    with Suc.IH(5) [OF 3(1)] Suc.IH(4) [of k lhs e j pos] show ?case by (auto intro: and_single)
  next
    case (4 pos lhs e j i)
    show ?case
    proof (cases "word toks pos = Some ''and''")
      case True
      with 4 adv [OF 4(1) True] obtain r k where r: "parse_unary n toks (Suc pos) = Ok (r, k)"
        and "parse_and_loop n toks (EAnd lhs r (join_offset lhs r)) k = Ok (e, j)"
        by (auto simp: parser_simps)
      moreover have "not_expr toks (Suc pos) r k" "k < length toks"
        using Suc.IH(5) [OF adv(2) [OF 4(1) True] r] by simp_all
      ultimately show ?thesis
        using Suc.IH(4) [of k _ e j i] and_chain [OF 4(3) 4(1) True] by blast
    next
      case False
      then show ?thesis using 4 by (auto simp: parser_simps)
    qed
  next
    case (5 pos e j)
    show ?case
    proof (cases "word toks pos = Some ''not''")
      case True
      with 5 adv [OF 5(1) True] obtain r where r: "parse_unary n toks (Suc pos) = Ok (r, j)"
        and "e = ENot r (Range (off_start (tok_offset (toks ! pos))) (off_end (offset_from_expr r)))"
        by (auto simp: parser_simps)
      then show ?thesis
        using Suc.IH(5) [OF adv(2) [OF 5(1) True] r] not_prefix [OF 5(1) True] by blast
    next
      case False
      then show ?thesis using 5 Suc.IH(6) [of pos e j] by (auto simp: parser_simps intro: not_none)
    qed
  next
    case (6 pos e j)
    show ?case
    proof (cases "tok_tag (toks ! pos)")
      case (Word w)
      then have leaf: "parse_leaf toks pos w = Ok (e, j)" using 6 by (simp add: parser_simps)
      then have "j < length toks"
        using parse_leaf_lands [OF toks 6(1) Word] by (simp add: lands_def)
      then show ?thesis using atom_primitive [OF 6(1) Word leaf] by simp
    next
      case LParen
      note moved = advance_in [OF toks 6(1), unfolded LParen]
      obtain k where r: "parse_or n toks (Suc pos) = Ok (e, k)"
        and k: "and_then (peek toks k) (\<lambda>t.
             if tok_tag t = RParen then and_then (advance toks k) (\<lambda>pos. Ok (e, pos))
             else Err (new_error (tok_offset t) UnbalancedParens)) = Ok (e, j)"
        using 6 LParen moved by (auto simp: parser_simps split: if_splits)
      have e: "or_expr toks (Suc pos) e k" "k < length toks"
        using Suc.IH(1) [OF _ r] moved by auto
      then have "tok_tag (toks ! k) = RParen" using k by (auto split: if_splits)
      with k e advance_in [OF toks e(2)] have "j = Suc k" "Suc k < length toks" by auto
      then show ?thesis
        using atom_parens [OF 6(1) LParen e \<open>tok_tag (toks ! k) = RParen\<close>] by simp
    qed (use 6 in \<open>auto simp: parser_simps\<close>)
  }
qed (simp_all add: parser_simps)

section \<open>Completeness\<close>

text \<open>With enough fuel, a function of the parser has the value \<open>r\<close>.\<close>

definition settles :: "(nat \<Rightarrow> 'a) \<Rightarrow> 'a \<Rightarrow> bool" where
  "settles f r \<longleftrightarrow> (\<exists>n0. \<forall>n \<ge> n0. f n = r)"

lemma settles_const: "settles (\<lambda>n. r) r"
  by (simp add: settles_def)

lemma settles_Suc:
  assumes "settles h r" and "\<And>n. f (Suc n) = h n"
  shows "settles f r"
proof -
  obtain n0 where n0: "\<forall>n \<ge> n0. h n = r" using assms(1) by (auto simp: settles_def)
  have "f n = r" if "n \<ge> Suc n0" for n
    using that n0 assms(2) by (cases n) auto
  then show ?thesis unfolding settles_def by blast
qed

lemma settles_and_then:
  assumes "settles f (Ok x)" and "settles (\<lambda>n. g n x) r"
  shows "settles (\<lambda>n. and_then (f n) (g n)) r"
proof -
  obtain n0 m0 where "\<forall>n \<ge> n0. f n = Ok x" "\<forall>n \<ge> m0. g n x = r"
    using assms by (auto simp: settles_def)
  then show ?thesis unfolding settles_def by (intro exI [of _ "max n0 m0"]) auto
qed

lemma leaf_not_not: "i < length toks \<Longrightarrow> tok_tag (toks ! i) = Word ''not'' \<Longrightarrow> parse_leaf toks i ''not'' \<noteq> Ok r"
  by (cases r)
     (auto simp: parse_leaf_def parse_primitive_def try_parse_proto_def try_parse_dir_def
       try_keyword_def tag_word_def proto_keyword_def dir_keyword_def expect_word_def parse_type_def
       Let_def)

lemma derivation_inside:
  assumes toks: "ends_in_eof toks"
  shows "or_expr toks i e j \<Longrightarrow> i < length toks \<and> j < length toks \<and> tok_tag (toks ! i) \<noteq> Eof"
    and "and_expr toks i e j \<Longrightarrow> i < length toks \<and> j < length toks \<and> tok_tag (toks ! i) \<noteq> Eof"
    and "not_expr toks i e j \<Longrightarrow> i < length toks \<and> j < length toks \<and> tok_tag (toks ! i) \<noteq> Eof"
    and "atom toks i e j \<Longrightarrow> i < length toks \<and> j < length toks \<and> tok_tag (toks ! i) \<noteq> Eof"
proof (induction rule: or_expr_and_expr_not_expr_atom.inducts)
  case (not_prefix i e j)
  then show ?case by (auto simp: tag_word_def)
next
  case (atom_parens i e j)
  then show ?case using advance_in [OF toks, of j] by auto
next
  case (atom_primitive i w e j)
  then show ?case using parse_leaf_lands [OF toks atom_primitive(1,2)] by (simp add: lands_def)
qed auto

lemma parse_complete:
  assumes toks: "ends_in_eof toks"
  shows "or_expr toks i e j \<Longrightarrow> word toks j \<noteq> Some ''and'' \<Longrightarrow>
      settles (\<lambda>n. parse_or_loop n toks e j) r \<Longrightarrow> settles (\<lambda>n. parse_or n toks i) r"
    and "and_expr toks i e j \<Longrightarrow>
      settles (\<lambda>n. parse_and_loop n toks e j) r \<Longrightarrow> settles (\<lambda>n. parse_and n toks i) r"
    and "not_expr toks i e j \<Longrightarrow> settles (\<lambda>n. parse_unary n toks i) (Ok (e, j))"
    and "atom toks i e j \<Longrightarrow> settles (\<lambda>n. parse_primary n toks i) (Ok (e, j))"
proof (induction arbitrary: r and r rule: or_expr_and_expr_not_expr_atom.inducts)
  note adv = advance_word [OF toks]
  note inside = derivation_inside [OF toks]
  have end_and: "settles (\<lambda>n. parse_and_loop n toks e j) (Ok (e, j))"
    if "j < length toks" "word toks j \<noteq> Some ''and''" for e j
    using that by (intro settles_Suc [OF settles_const]) (simp add: parser_simps)
  {
    case (or_single i e j)
    have "settles (\<lambda>n. parse_and n toks i) (Ok (e, j))"
      using or_single end_and inside(2) by blast
    from settles_and_then [OF this, of "\<lambda>n (lhs, pos). parse_or_loop n toks lhs pos"] or_single(4)
    have "settles (\<lambda>n. and_then (parse_and n toks i) (\<lambda>(lhs, pos). parse_or_loop n toks lhs pos)) r"
      by simp
    then show ?case by (rule settles_Suc) (simp add: parser_simps)
  next
    case (or_chain i l j r' k)
    have "settles (\<lambda>n. parse_and n toks (Suc j)) (Ok (r', k))"
      using or_chain end_and inside(2) by blast
    from settles_and_then [OF this, of "\<lambda>n (rhs, pos). parse_or_loop n toks (EOr l rhs (join_offset l rhs)) pos"]
      or_chain.prems
    have "settles (\<lambda>n. and_then (parse_and n toks (Suc j))
        (\<lambda>(rhs, pos). parse_or_loop n toks (EOr l rhs (join_offset l rhs)) pos)) r" by simp
    then have "settles (\<lambda>n. parse_or_loop n toks l j) r"
      by (rule settles_Suc) (use or_chain adv in \<open>simp add: parser_simps\<close>)
    moreover have "word toks j \<noteq> Some ''and''" using or_chain by simp
    ultimately show ?case using or_chain by blast
  next
    case (and_single i e j)
    from settles_and_then [OF and_single(2), of "\<lambda>n (lhs, pos). parse_and_loop n toks lhs pos"] and_single(3)
    have "settles (\<lambda>n. and_then (parse_unary n toks i) (\<lambda>(lhs, pos). parse_and_loop n toks lhs pos)) r"
      by simp
    then show ?case by (rule settles_Suc) (simp add: parser_simps)
  next
    case (and_chain i l j r' k)
    from settles_and_then [OF and_chain(6), of "\<lambda>n (rhs, pos). parse_and_loop n toks (EAnd l rhs (join_offset l rhs)) pos"]
      and_chain.prems
    have "settles (\<lambda>n. and_then (parse_unary n toks (Suc j))
        (\<lambda>(rhs, pos). parse_and_loop n toks (EAnd l rhs (join_offset l rhs)) pos)) r" by simp
    then have "settles (\<lambda>n. parse_and_loop n toks l j) r"
      by (rule settles_Suc) (use and_chain adv in \<open>simp add: parser_simps\<close>)
    then show ?case using and_chain by blast
  next
    case (not_prefix i e j)
    let ?f = "\<lambda>(inner, pos). Ok (ENot inner (Range (off_start (tok_offset (toks ! i)))
      (off_end (offset_from_expr inner))), pos) :: (expr \<times> nat) res"
    have "settles (\<lambda>n. and_then (parse_unary n toks (Suc i)) ?f) (?f (e, j))"
      by (rule settles_and_then [OF not_prefix(4) settles_const])
    then have "settles (\<lambda>n. parse_unary n toks i) (?f (e, j))"
      by (rule settles_Suc) (use not_prefix adv in \<open>simp add: parser_simps\<close>)
    then show ?case by simp
  next
    case (not_none i e j)
    have i: "i < length toks" using inside(4) [OF not_none(1)] by simp
    have "word toks i \<noteq> Some ''not''"
      using not_none(1)
    proof (cases rule: atom.cases)
      case (atom_primitive w)
      then show ?thesis using leaf_not_not by (auto simp: tag_word_def)
    qed (simp add: tag_word_def)
    with i show ?case by (intro settles_Suc [OF not_none(2)]) (simp add: parser_simps)
  next
    case (atom_parens i e j)
    have j: "advance toks j = Ok (Suc j)" using advance_in [OF toks] atom_parens by simp
    have "word toks j \<noteq> Some ''and''" "word toks j \<noteq> Some ''or''"
      using atom_parens by (simp_all add: tag_word_def)
    then have "settles (\<lambda>n. parse_or_loop n toks e j) (Ok (e, j))"
      using atom_parens(5) by (intro settles_Suc [OF settles_const]) (simp add: parser_simps)
    then have "settles (\<lambda>n. parse_or n toks (Suc i)) (Ok (e, j))"
      using atom_parens \<open>word toks j \<noteq> Some ''and''\<close> by blast
    then have "settles (\<lambda>n. and_then (parse_or n toks (Suc i)) (\<lambda>(inner, pos).
           and_then (peek toks pos) (\<lambda>t.
             if tok_tag t = RParen then and_then (advance toks pos) (\<lambda>pos. Ok (inner, pos))
             else Err (new_error (tok_offset t) UnbalancedParens)))) (Ok (e, Suc j))"
      by (rule settles_and_then) (use atom_parens j settles_const in simp)
    then show ?case
      by (rule settles_Suc) (use atom_parens advance_in [OF toks] in \<open>simp add: parser_simps\<close>)
  next
    case (atom_primitive i w e j)
    then show ?case by (intro settles_Suc [OF settles_const]) (simp add: parser_simps)
  }
qed

section \<open>The parser decides the grammar\<close>

lemma fuel_enough:
  assumes "ends_in_eof toks"
  shows "parse_or (parse_fuel toks) toks 0 \<noteq> Diverge"
proof -
  have "parsed toks 0 (parse_or (parse_fuel toks) toks 0)"
    using assms by (intro parse_levels(1)) (auto simp: left_def parse_fuel_def ends_in_eof_def)
  then show ?thesis by (auto simp: parsed_def)
qed

lemma parse_grammar:
  assumes toks: "ends_in_eof toks"
  shows "parse toks = Ok e \<longleftrightarrow> or_expr toks 0 e (length toks - 1)"
proof -
  obtain t ts where ts: "toks = t # ts" using toks by (cases toks) (auto simp: ends_in_eof_def)
  then have pos: "0 < length toks" by simp
  have last: "length toks - 1 < length toks" "tok_tag (toks ! (length toks - 1)) = Eof"
    using ends_in_eof_nth [OF toks] pos by simp_all
  show ?thesis
  proof
    assume "parse toks = Ok e"
    then obtain j where j: "parse_or (parse_fuel toks) toks 0 = Ok (e, j)" "expect_eof toks j = Ok ()"
      by (auto simp: parse_def ts split: if_splits)
    have "or_expr toks 0 e j" "j < length toks" using parse_sound(1) [OF toks pos j(1)] by simp_all
    moreover from this have "tok_tag (toks ! j) = Eof"
      using j(2) by (auto simp: expect_eof_def split: if_splits)
    ultimately show "or_expr toks 0 e (length toks - 1)"
      using ends_in_eof_nth [OF toks] by metis
  next
    assume e: "or_expr toks 0 e (length toks - 1)"
    have no_word: "word toks (length toks - 1) = None" using last by (simp add: tag_word_def)
    then have "settles (\<lambda>n. parse_or_loop n toks e (length toks - 1)) (Ok (e, length toks - 1))"
      using last by (intro settles_Suc [OF settles_const]) (simp add: parser_simps)
    with parse_complete(1) [OF toks e] no_word
    have "settles (\<lambda>n. parse_or n toks 0) (Ok (e, length toks - 1))" by simp
    then obtain n0 where n0: "\<forall>n \<ge> n0. parse_or n toks 0 = Ok (e, length toks - 1)"
      by (auto simp: settles_def)
    from fuel_mono [OF fuel_enough [OF toks], of "max n0 (parse_fuel toks)"] n0
    have "parse_or (parse_fuel toks) toks 0 = Ok (e, length toks - 1)" by simp
    moreover have "tok_tag (toks ! 0) \<noteq> Eof" using derivation_inside(1) [OF toks e] by simp
    ultimately show "parse toks = Ok e"
      using last by (simp add: parse_def ts expect_eof_def)
  qed
qed

lemma grammar_unambiguous:
  assumes "ends_in_eof toks" and "or_expr toks 0 e (length toks - 1)"
    and "or_expr toks 0 e' (length toks - 1)"
  shows "e = e'"
  using assms by (metis parse_grammar result.inject(1))

lemma fuel_irrelevant:
  assumes "ends_in_eof toks" and "parse_fuel toks \<le> n"
  shows "parse_or n toks 0 = parse_or (parse_fuel toks) toks 0"
  by (rule fuel_mono [OF fuel_enough [OF assms(1)] assms(2)])

end
