(* ===== verification/WordFacts.thy ===== *)
theory WordFacts
  imports Eval
begin

text \<open>
  Masks and shifts of machine words as arithmetic on the numbers they stand for: the bytes of a
  big-endian field, the nibbles of a header byte, and the leading bits that an address mask keeps.
\<close>

section \<open>Bytes\<close>

lemma u8_less: "unat (b :: u8) < 256"
  using unsigned_less [of b] by simp

lemma u16_less: "unat (v :: u16) < 65536"
  using unsigned_less [of v] by simp

lemma u32_less: "unat (v :: u32) < 2 ^ 32"
  using unsigned_less [of v] by simp

lemma unat_ucast_u8: "unat (ucast (b :: u8) :: u32) = unat b"
  using u8_less [of b] by (simp add: unsigned_ucast_eq take_bit_nat_eq_self)

lemma unat_ucast_u16: "unat (ucast (v :: u16) :: u32) = unat v"
  using u16_less [of v] by (simp add: unsigned_ucast_eq take_bit_nat_eq_self)

lemma pack_less: "a < n \<Longrightarrow> c < 256 \<Longrightarrow> 256 * a + c < 256 * n" for a c n :: nat
  by linarith

lemma unat_u16_bytes: "unat (u16_from_be_bytes a b) = 256 * unat a + unat b"
  unfolding u16_from_be_bytes_def
  using pack_less [OF u8_less u8_less, of a b] by (intro unat_of_nat_u16) simp

lemma unat_u32_bytes:
  "unat (u32_from_be_bytes a b c d) = 256 * (256 * (256 * unat a + unat b) + unat c) + unat d"
  unfolding u32_from_be_bytes_def
  using pack_less [OF pack_less [OF pack_less [OF u8_less u8_less] u8_less] u8_less, of a b c d]
  by (intro unat_of_nat_u32) simp

section \<open>Parts of a byte or a half word\<close>

lemma nat_high_nibble: "n < 256 \<Longrightarrow> n AND 240 = 16 * (n div 16)" for n :: nat
proof -
  assume n: "n < 256"
  have "(240::nat) = push_bit 4 (mask 4)" by (simp add: mask_eq_exp_minus_1 push_bit_eq_mult)
  then have "n AND 240 = push_bit 4 (take_bit 4 (drop_bit 4 n))"
    by (simp only:) (auto simp: bit_eq_iff bit_simps)
  moreover have "n div 16 < 16" using n by simp
  ultimately show ?thesis by (simp add: push_bit_eq_mult take_bit_nat_eq_self drop_bit_eq_div)
qed

lemma high_nibble:
  assumes "unat (w :: u32) < 256" and "k < 16"
  shows "w AND 0xf0 = of_nat (16 * k) \<longleftrightarrow> unat w div 16 = k"
proof -
  have "unat (w AND 0xf0) = 16 * (unat w div 16)"
    using nat_high_nibble [OF assms(1)] by (simp add: unsigned_and_eq)
  moreover have "unat (of_nat (16 * k) :: u32) = 16 * k"
    using assms(2) by (subst unat_of_nat) simp
  ultimately show ?thesis by (simp only: word_unat_eq_iff) linarith
qed

lemma low_13_bits: "(w :: u32) AND 0x1fff = 0 \<longleftrightarrow> unat w mod 2 ^ 13 = 0"
proof -
  have "unat (w AND 0x1fff) = unat w mod 2 ^ 13"
    using take_bit_eq_mask [of 13 "unat w"]
    by (simp add: unsigned_and_eq mask_eq_exp_minus_1 take_bit_eq_mod)
  then show ?thesis by (metis unat_eq_zero)
qed

lemma low_nibble_times_4: "unat (((w :: u32) AND 0x0f) * 4) = 4 * (unat w mod 16)"
proof -
  have "unat (w AND 0x0f) = unat w mod 16"
    using take_bit_eq_mask [of 4 "unat w"]
    by (simp add: unsigned_and_eq mask_eq_exp_minus_1 take_bit_eq_mod)
  moreover have "unat w mod 16 < 16" by simp
  ultimately show ?thesis by (simp add: unat_word_ariths)
qed

lemma low_bit: "(w :: u32) AND 0x01 \<noteq> 0 \<longleftrightarrow> odd (unat w)"
proof -
  have "unat (w AND 0x01) = unat w mod 2"
    by (simp only: unsigned_and_eq) (simp add: and_one_eq)
  then show ?thesis by (metis unat_eq_zero even_iff_mod_2_eq_zero)
qed

section \<open>Leading bits\<close>

lemma and_high_mask: "w AND push_bit k (-1) = push_bit k (drop_bit k w)" for w :: "'a::len word"
  by (auto simp: bit_eq_iff bit_simps)

lemma drop_push_drop: "drop_bit k (push_bit k (drop_bit k w)) = drop_bit k w" for w :: "'a::len word"
  by (auto simp: bit_eq_iff bit_simps dest: bit_imp_le_length)

lemma drop_bit_div: "drop_bit k w = drop_bit k c \<longleftrightarrow> unat w div 2 ^ k = unat c div 2 ^ k"
  for w c :: "'a::len word"
  unfolding word_unat_eq_iff unat_drop_bit_eq by (simp add: drop_bit_eq_div)

lemma high_bits_eq: "w AND push_bit k (-1) = c AND push_bit k (-1) \<longleftrightarrow> unat w div 2 ^ k = unat c div 2 ^ k"
  for w c :: "'a::len word"
  unfolding and_high_mask by (metis drop_push_drop drop_bit_div)

text \<open>The mask of a 32-bit prefix, including the empty one.\<close>

lemma mask_of_prefix:
  assumes "n \<le> 32"
  shows "v AND mask_of n = w AND mask_of n \<longleftrightarrow> unat v div 2 ^ (32 - n) = unat w div 2 ^ (32 - n)"
proof (cases "n = 0")
  case True
  have "unat u div 2 ^ 32 = 0" for u :: u32 using u32_less [of u] by (rule div_less)
  then show ?thesis by (simp add: True mask_of_def)
next
  case False
  then show ?thesis using high_bits_eq [of v "32 - n" w] by (simp add: mask_of_def)
qed

lemma bit_mask_of: "n \<le> 32 \<Longrightarrow> bit (mask_of n) j \<longleftrightarrow> 32 - n \<le> j \<and> j < 32"
  by (auto simp: mask_of_def bit_simps)

lemma mask_of_bits:
  "n \<le> 32 \<Longrightarrow> v AND mask_of n = w AND mask_of n \<longleftrightarrow>
     (\<forall>j. 32 - n \<le> j \<and> j < 32 \<longrightarrow> bit v j = bit w j)"
  by (auto simp: bit_eq_iff bit_simps bit_mask_of)

text \<open>The \<open>i\<close>-th 32-bit word of an IPv6 address, the most significant first.\<close>

definition word6 :: "u128 \<Rightarrow> nat \<Rightarrow> u32" where
  "word6 a i = ucast (drop_bit (96 - 32 * i) a)"

lemma bit_word6: "bit (word6 a i) j \<longleftrightarrow> j < 32 \<and> bit a (96 - 32 * i + j)"
  by (simp add: word6_def bit_simps)

lemma word6_bits:
  assumes "n \<le> 128"
  shows "(\<forall>i < (n + 31) div 32. word6 a i AND mask_of (min (n - 32 * i) 32) = word6 b i AND mask_of (min (n - 32 * i) 32))
     \<longleftrightarrow> (\<forall>k. 128 - n \<le> k \<and> k < 128 \<longrightarrow> bit a k = bit b k)" (is "?l \<longleftrightarrow> ?r")
proof
  assume ?l
  show ?r
  proof (intro allI impI)
    fix k assume "128 - n \<le> k \<and> k < 128"
    then have k: "128 \<le> k + n" "k < 128" by (simp_all add: le_diff_conv)
    define q i j where "q = k div 32" and "i = 3 - q" and "j = k mod 32"
    have kq: "k = 32 * q + j" "j < 32" by (simp_all add: q_def j_def)
    then have q: "q \<le> 3" "i + q = 3" using k by (auto simp: i_def)
    have "32 * i + 32 \<le> n + 31" using k kq q by linarith
    then have "i < (n + 31) div 32" by (simp add: less_eq_div_iff_mult_less_eq flip: Suc_le_eq)
    moreover have "96 - 32 * i + j = k" using kq q by linarith
    ultimately have i: "i < (n + 31) div 32" "96 - 32 * i + j = k" by blast+
    have "32 \<le> j + (n - 32 * i)" using k kq q by linarith
    then have j: "32 - min (n - 32 * i) 32 \<le> j" "j < 32" using kq(2) by (auto simp: min_def)
    from \<open>?l\<close> i(1) have "word6 a i AND mask_of (min (n - 32 * i) 32) = word6 b i AND mask_of (min (n - 32 * i) 32)" by blast
    then have "bit (word6 a i) j = bit (word6 b i) j" using j mask_of_bits [of "min (n - 32 * i) 32"] by simp
    then show "bit a k = bit b k" using i(2) j by (simp add: bit_word6)
  qed
next
  assume r: ?r
  show ?l
  proof (intro allI impI)
    fix i assume i: "i < (n + 31) div 32"
    have "bit (word6 a i) j = bit (word6 b i) j" if "32 - min (n - 32 * i) 32 \<le> j" "j < 32" for j
    proof -
      have "32 \<le> j + (n - 32 * i)" using that by (auto simp: min_def split: if_splits)
      moreover have "32 * i < n" using calculation that(2) by linarith
      ultimately have "128 \<le> 96 - 32 * i + j + n" "96 - 32 * i + j < 128"
        using assms that(2) by linarith+
      then have "128 - n \<le> 96 - 32 * i + j" "96 - 32 * i + j < 128"
        by (simp_all add: le_diff_conv)
      then show ?thesis using r by (simp add: bit_word6)
    qed
    then show "word6 a i AND mask_of (min (n - 32 * i) 32) = word6 b i AND mask_of (min (n - 32 * i) 32)"
      by (subst mask_of_bits) auto
  qed
qed

lemma leading_bits:
  "(\<forall>k. m \<le> k \<and> k < 128 \<longrightarrow> bit a k = bit b k) \<longleftrightarrow> unat a div 2 ^ m = unat b div 2 ^ m"
  for a b :: u128
proof -
  have "(\<forall>k. m \<le> k \<and> k < 128 \<longrightarrow> bit a k = bit b k) \<longleftrightarrow> drop_bit m a = drop_bit m b"
  proof
    assume *: "\<forall>k. m \<le> k \<and> k < 128 \<longrightarrow> bit a k = bit b k"
    have "bit a (m + j) = bit b (m + j)" for j
      using * by (cases "m + j < 128") (auto dest: bit_imp_le_length)
    then show "drop_bit m a = drop_bit m b" by (simp add: bit_eq_iff bit_simps)
  next
    assume "drop_bit m a = drop_bit m b"
    then have "bit (drop_bit m a) j = bit (drop_bit m b) j" for j by simp
    then show "\<forall>k. m \<le> k \<and> k < 128 \<longrightarrow> bit a k = bit b k" 
      by (metis bit_drop_bit_eq comp_apply le_add_diff_inverse)
  qed
  also have "\<dots> \<longleftrightarrow> unat a div 2 ^ m = unat b div 2 ^ m" by (rule drop_bit_div)
  finally show ?thesis .
qed
text \<open>Comparing the words that a prefix touches compares the leading bits of the whole address.\<close>

lemma word6_prefix:
  assumes "n \<le> 128"
  shows "(\<forall>i < (n + 31) div 32.
       word6 a i AND mask_of (min (n - 32 * i) 32) = word6 b i AND mask_of (min (n - 32 * i) 32)) \<longleftrightarrow>
     unat a div 2 ^ (128 - n) = unat b div 2 ^ (128 - n)"
  using word6_bits [OF assms] leading_bits [of "128 - n"] by simp

end
