(* ===== verification/PacketSpec.thy ===== *)
theory PacketSpec
  imports DesugarCorrect WordFacts
begin

text \<open>
  What a filter expression says of a packet, over header fields read as natural numbers, and the
  proof that the three-valued evaluation agrees with it on every packet that is long enough for the
  headers the compiler looks at.
\<close>

section \<open>Header fields\<close>

definition byte :: "packet \<Rightarrow> nat \<Rightarrow> nat" where
  "byte p i = unat (p ! i)"

text \<open>The number that \<open>n\<close> bytes from \<open>i\<close> on stand for, most significant first.\<close>

fun be :: "packet \<Rightarrow> nat \<Rightarrow> nat \<Rightarrow> nat" where
  "be p i 0 = 0"
| "be p i (Suc n) = 256 * be p i n + byte p (i + n)"

definition l3 :: "link_type \<Rightarrow> nat" where
  "l3 lt = (case lt of Ethernet \<Rightarrow> 14 | LinuxSll \<Rightarrow> 16 | Raw \<Rightarrow> 0)"

definition ethertype_field :: "link_type \<Rightarrow> packet \<Rightarrow> nat option" where
  "ethertype_field lt p =
     (case lt of Ethernet \<Rightarrow> Some (be p 12 2) | LinuxSll \<Rightarrow> Some (be p 14 2) | Raw \<Rightarrow> None)"

definition ip_version :: "link_type \<Rightarrow> packet \<Rightarrow> nat" where
  "ip_version lt p = byte p (l3 lt) div 16"

definition is_ip4 :: "link_type \<Rightarrow> packet \<Rightarrow> bool" where
  "is_ip4 lt p \<longleftrightarrow>
     (case ethertype_field lt p of Some t \<Rightarrow> t = 0x0800 | None \<Rightarrow> ip_version lt p = 4)"

definition is_ip6 :: "link_type \<Rightarrow> packet \<Rightarrow> bool" where
  "is_ip6 lt p \<longleftrightarrow>
     (case ethertype_field lt p of Some t \<Rightarrow> t = 0x86dd | None \<Rightarrow> ip_version lt p = 6)"

definition ip4_protocol :: "link_type \<Rightarrow> packet \<Rightarrow> nat" where
  "ip4_protocol lt p = byte p (l3 lt + 9)"

definition ip6_next_header :: "link_type \<Rightarrow> packet \<Rightarrow> nat" where
  "ip6_next_header lt p = byte p (l3 lt + 6)"

definition fragment_offset :: "link_type \<Rightarrow> packet \<Rightarrow> nat" where
  "fragment_offset lt p = be p (l3 lt + 6) 2 mod 2 ^ 13"

definition ip4_header_bytes :: "link_type \<Rightarrow> packet \<Rightarrow> nat" where
  "ip4_header_bytes lt p = 4 * (byte p (l3 lt) mod 16)"

fun ip4_address :: "link_type \<Rightarrow> dir_tag \<Rightarrow> packet \<Rightarrow> nat" where
  "ip4_address lt Src p = be p (l3 lt + 12) 4"
| "ip4_address lt Dst p = be p (l3 lt + 16) 4"

fun ip6_address :: "link_type \<Rightarrow> dir_tag \<Rightarrow> packet \<Rightarrow> nat" where
  "ip6_address lt Src p = be p (l3 lt + 8) 16"
| "ip6_address lt Dst p = be p (l3 lt + 24) 16"

text \<open>The protocol addresses of an ARP or RARP packet: sender and target.\<close>

fun arp_address :: "link_type \<Rightarrow> dir_tag \<Rightarrow> packet \<Rightarrow> nat" where
  "arp_address lt Src p = be p (l3 lt + 14) 4"
| "arp_address lt Dst p = be p (l3 lt + 24) 4"

fun port_field :: "dir_tag \<Rightarrow> nat \<Rightarrow> packet \<Rightarrow> nat" where
  "port_field Src transport p = be p transport 2"
| "port_field Dst transport p = be p (transport + 2) 2"

fun mac_address :: "dir_tag \<Rightarrow> packet \<Rightarrow> nat" where
  "mac_address Src p = be p 6 6"
| "mac_address Dst p = be p 0 6"

section \<open>What an expression says\<close>

text \<open>Two addresses of width \<open>w\<close> agree in their first \<open>n\<close> bits.\<close>

definition same_prefix :: "nat \<Rightarrow> nat \<Rightarrow> nat \<Rightarrow> nat \<Rightarrow> bool" where
  "same_prefix w n a b \<longleftrightarrow> a div 2 ^ (w - n) = b div 2 ^ (w - n)"

fun ip_protocol_number :: "compiled_proto \<Rightarrow> nat option" where
  "ip_protocol_number CTcp = Some 6"
| "ip_protocol_number CUdp = Some 17"
| "ip_protocol_number CIcmp = Some 1"
| "ip_protocol_number CSctp = Some 132"
| "ip_protocol_number _ = None"

definition says_address ::
    "link_type \<Rightarrow> compiled_proto \<Rightarrow> dir_tag \<Rightarrow> addr_lit \<Rightarrow> nat option \<Rightarrow> packet \<Rightarrow> bool" where
  "says_address lt proto d addr prefix p \<longleftrightarrow>
     (case addr of
        V6 a \<Rightarrow>
          is_ip6 lt p \<and>
          same_prefix 128 (case prefix of None \<Rightarrow> 128 | Some n \<Rightarrow> n) (ip6_address lt d p) (unat a)
      | V4 a \<Rightarrow>
          (let n = (case prefix of None \<Rightarrow> 32 | Some n \<Rightarrow> n) in
           if proto = CArp then
             ethertype_field lt p = Some 0x0806 \<and> same_prefix 32 n (arp_address lt d p) (unat a)
           else if proto = CRarp then
             ethertype_field lt p = Some 0x8035 \<and> same_prefix 32 n (arp_address lt d p) (unat a)
           else
             is_ip4 lt p \<and>
             (\<forall>k. ip_protocol_number proto = Some k \<longrightarrow> ip4_protocol lt p = k) \<and>
             same_prefix 32 n (ip4_address lt d p) (unat a)))"

definition says_port ::
    "link_type \<Rightarrow> compiled_proto \<Rightarrow> dir_tag \<Rightarrow> nat \<Rightarrow> nat \<Rightarrow> packet \<Rightarrow> bool" where
  "says_port lt proto d lo hi p \<longleftrightarrow>
     (is_ip4 lt p \<and> ip_protocol_number proto = Some (ip4_protocol lt p) \<and> fragment_offset lt p = 0 \<and>
      (let port = port_field d (l3 lt + ip4_header_bytes lt p) p in lo \<le> port \<and> port \<le> hi)) \<or>
     (is_ip6 lt p \<and> ip_protocol_number proto = Some (ip6_next_header lt p) \<and>
      (let port = port_field d (l3 lt + 40) p in lo \<le> port \<and> port \<le> hi))"

definition says_primitive :: "link_type \<Rightarrow> compiled_primitive \<Rightarrow> packet \<Rightarrow> bool" where
  "says_primitive lt c p \<longleftrightarrow>
     (case cp_ty c of
        Host addr \<Rightarrow> says_address lt (cp_proto c) (cp_dir c) addr None p
      | Net addr prefix \<Rightarrow>
          says_address lt (cp_proto c) (cp_dir c) addr (map_option unat prefix) p
      | Port port \<Rightarrow> says_port lt (cp_proto c) (cp_dir c) (unat port) (unat port) p
      | PortRange lo hi \<Rightarrow> says_port lt (cp_proto c) (cp_dir c) (unat lo) (unat hi) p)"

fun mac_number :: "mac_addr \<Rightarrow> nat" where
  "mac_number (MacAddr m0 m1 m2 m3 m4 m5) =
     be [m0, m1, m2, m3, m4, m5] 0 6"

definition says_ether :: "link_type \<Rightarrow> ether_kind \<Rightarrow> packet \<Rightarrow> bool" where
  "says_ether lt kind p \<longleftrightarrow>
     (case kind of
        EtherHost mac (Some d) \<Rightarrow> mac_address d p = mac_number mac
      | EtherHost mac None \<Rightarrow> mac_address Dst p = mac_number mac \<or> mac_address Src p = mac_number mac
      | EtherProto et \<Rightarrow> ethertype_field lt p = Some (unat et)
      | EtherBroadcast \<Rightarrow> mac_address Dst p = 2 ^ 48 - 1
      | EtherMulticast \<Rightarrow> odd (byte p 0))"

text \<open>
  What a primitive stands for: a protocol or direction it names, or each of the defaults of its type
  when it names none.
\<close>

fun named_protocol :: "proto_tag \<Rightarrow> compiled_proto \<Rightarrow> bool" where
  "named_protocol ProtoIp proto = (proto = CIp)"
| "named_protocol ProtoIp6 proto = (proto = CIp6)"
| "named_protocol ProtoArp proto = (proto = CArp)"
| "named_protocol ProtoTcp proto = (proto = CTcp)"
| "named_protocol ProtoUdp proto = (proto = CUdp)"
| "named_protocol ProtoIcmp proto = (proto = CIcmp)"

fun default_protocol :: "prim_type \<Rightarrow> compiled_proto \<Rightarrow> bool" where
  "default_protocol (Host (V4 a)) proto = (proto \<in> {CIp, CArp, CRarp})"
| "default_protocol (Host (V6 a)) proto = (proto = CIp6)"
| "default_protocol (Net (V4 a) n) proto = (proto \<in> {CIp, CArp, CRarp})"
| "default_protocol (Net (V6 a) n) proto = (proto = CIp6)"
| "default_protocol (Port q) proto = (proto \<in> {CTcp, CUdp, CSctp})"
| "default_protocol (PortRange lo hi) proto = (proto \<in> {CTcp, CUdp, CSctp})"

definition stands_for :: "primitive \<Rightarrow> compiled_primitive \<Rightarrow> bool" where
  "stands_for pr c \<longleftrightarrow>
     (case prim_proto pr of
        Some q \<Rightarrow> named_protocol q (cp_proto c)
      | None \<Rightarrow> default_protocol (prim_ty pr) (cp_proto c)) \<and>
     (prim_dir pr = None \<or> prim_dir pr = Some (cp_dir c)) \<and>
     cp_ty c = prim_ty pr \<and> cp_offset c = prim_offset pr"

text \<open>The meaning of an expression: a primitive holds when something it stands for does.\<close>

fun says :: "link_type \<Rightarrow> expr \<Rightarrow> packet \<Rightarrow> bool" where
  "says lt (EPrimitive pr) p \<longleftrightarrow> (\<exists>c. stands_for pr c \<and> says_primitive lt c p)"
| "says lt (EEther e) p \<longleftrightarrow> says_ether lt (ether_kind e) p"
| "says lt (ENot e ofs) p \<longleftrightarrow> \<not> says lt e p"
| "says lt (EAnd l r ofs) p \<longleftrightarrow> says lt l p \<and> says lt r p"
| "says lt (EOr l r ofs) p \<longleftrightarrow> says lt l p \<or> says lt r p"

section \<open>Reading fields\<close>

lemma byte_less: "byte p i < 256"
  by (simp add: byte_def u8_less)

lemma be_less: "be p i n < 256 ^ n"
proof (induction n)
  case (Suc n)
  then show ?case using pack_less [OF Suc byte_less [of p "i + n"]] by simp
qed simp

lemma be_add: "be p i (m + n) = be p i m * 256 ^ n + be p (i + m) n"
  by (induction n) (simp_all add: algebra_simps)

lemma be_2: "be p i 2 = 256 * byte p i + byte p (i + 1)"
  by (simp add: numeral_2_eq_2)

lemma be_4:
  "be p i 4 = 256 * (256 * (256 * byte p i + byte p (i + 1)) + byte p (i + 2)) + byte p (i + 3)"
  using be_add [of p i 2 2] by (simp add: be_2, simp add: numeral_3_eq_3)

text \<open>Every packet this long has all the fields that generated code reads.\<close>

definition long_enough :: "packet \<Rightarrow> bool" where
  "long_enough p \<longleftrightarrow> 80 \<le> length p"

text \<open>\<open>reads v n\<close>: a read gave the number \<open>n\<close>.\<close>

definition reads :: "u32 option \<Rightarrow> nat \<Rightarrow> bool" where
  "reads v n \<longleftrightarrow> (\<exists>w. v = Some w \<and> unat w = n)"

lemma get_range_bytes:
  "i + k \<le> length p \<Longrightarrow> j < k \<Longrightarrow> get_range p i (i + k) = Some (take k (drop i p)) \<and>
     take k (drop i p) ! j = p ! (i + j)"
  by (simp add: get_range_def)

lemma checked_add_small: "i + k < 1000 \<Longrightarrow> checked_add i k = Some (i + k)"
  by (simp add: checked_add_def usize_limit_def)

lemma read_u8_long: "long_enough p \<Longrightarrow> i < 80 \<Longrightarrow> reads (read_u8 p i) (byte p i)"
  by (simp add: reads_def long_enough_def read_u8_def get_def byte_def unat_ucast_u8)

lemma read_u16_long:
  assumes "long_enough p" and "i < 79"
  shows "reads (read_u16 p i) (be p i 2)"
proof -
  have "i + 2 \<le> length p" using assms by (simp add: long_enough_def)
  with get_range_bytes [OF this, of 0] get_range_bytes [OF this, of 1]
  have "read_u16 p i = Some (ucast (u16_from_be_bytes (p ! i) (p ! (i + 1))))"
    using assms(2) by (simp add: read_u16_def checked_add_small)
  then show ?thesis by (simp add: reads_def unat_ucast_u16 unat_u16_bytes be_2 byte_def)
qed

lemma read_u32_long:
  assumes "long_enough p" and "i < 77"
  shows "reads (read_u32 p i) (be p i 4)"
proof -
  have "i + 4 \<le> length p" using assms by (simp add: long_enough_def)
  with get_range_bytes [OF this, of 0] get_range_bytes [OF this, of 1]
    get_range_bytes [OF this, of 2] get_range_bytes [OF this, of 3]
  have "read_u32 p i = Some (u32_from_be_bytes (p ! i) (p ! (i + 1)) (p ! (i + 2)) (p ! (i + 3)))"
    using assms(2) by (simp add: read_u32_def checked_add_small)
  then show ?thesis by (simp add: reads_def unat_u32_bytes be_4 byte_def)
qed

section \<open>Network-layer gates\<close>

declare mk_ctx_fields(2) [simp del]

lemma holds_reads: "reads v n \<Longrightarrow> (\<And>w. unat w = n \<Longrightarrow> P w \<longleftrightarrow> Q) \<Longrightarrow> holds P v = Some Q"
  by (auto simp: reads_def)

lemma reads_eq: "reads v n \<Longrightarrow> holds (\<lambda>w. w = c) v = Some (n = unat c)"
  by (rule holds_reads) (auto simp: word_unat_eq_iff)

lemma eval_l3_says:
  assumes "long_enough p"
  shows "eval_l3 (mk_ctx lt) ETH_TYPE_IP p = Some (is_ip4 lt p)"
    and "eval_l3 (mk_ctx lt) ETH_TYPE_IPV6 p = Some (is_ip6 lt p)"
proof -
  have nibble: "holds (\<lambda>v. v AND 0xf0 = of_nat (16 * k)) (read_u8 p 0) = Some (byte p 0 div 16 = k)"
    if "k < 16" for k
    using high_nibble [OF _ that] byte_less [of p 0]
    by (intro holds_reads [OF read_u8_long [OF assms]]) auto
  show "eval_l3 (mk_ctx lt) ETH_TYPE_IP p = Some (is_ip4 lt p)"
    "eval_l3 (mk_ctx lt) ETH_TYPE_IPV6 p = Some (is_ip6 lt p)"
    using assms nibble [of 4] nibble [of 6]
    by (cases lt; simp add: eval_l3_def is_ip4_def is_ip6_def ethertype_field_def ip_version_def l3_def
        version_nibble_def ETH_TYPE_IP_def ETH_TYPE_IPV6_def mk_ctx_fields reads_eq [OF read_u16_long])+
qed

lemma l3_bounds: "l3 lt \<le> 16" "unat (ip_base (mk_ctx lt)) = l3 lt"
  by (cases lt; simp add: l3_def mk_ctx_fields)+

text \<open>Field offsets do not wrap.\<close>

lemma unat_field: "unat c < 100 \<Longrightarrow> unat (ip_base (mk_ctx lt) + c) = l3 lt + unat c"
  by (cases lt) (simp_all add: unat_word_ariths l3_def mk_ctx_fields)

lemma and3_bools [simp]: "and3 (Some a) (Some b) = Some (a \<and> b)" "or3 (Some a) (Some b) = Some (a \<or> b)"
  by (cases a; simp)+

section \<open>Addresses\<close>

lemma eval_addr_word_says:
  assumes "long_enough p" and "unat (dir_offset gates d) < 60" and "n \<le> 32"
  shows "eval_addr_word (mk_ctx lt) gates d (Some (mask_of n)) (mask_target (Some (mask_of n)) a) p =
      Some (same_prefix 32 n (be p (l3 lt + unat (dir_offset gates d)) 4) (unat a))"
proof -
  have "l3 lt + unat (dir_offset gates d) < 77" using assms(2) l3_bounds(1) [of lt] by linarith
  note read = read_u32_long [OF assms(1) this]
  show ?thesis
    unfolding eval_addr_word_def mask_target_def option.case
    using assms(2)
    by (subst unat_field)
       (auto intro!: holds_reads [OF read] simp: mask_of_prefix [OF assms(3)] same_prefix_def)
qed

lemma mask_of_32: "mask_of 32 = -1"
  by (simp add: mask_of_def)

lemma eval_addr_word_host:
  "eval_addr_word ctx gates d None (mask_target None a) p =
     eval_addr_word ctx gates d (Some (mask_of 32)) (mask_target (Some (mask_of 32)) a) p"
  by (simp add: eval_addr_word_def mask_target_def mask_of_32)

text \<open>The fields that a protocol's gates name.\<close>

lemma gates_fields [simp]:
  "g_ethertype (ip_gates proto) = ETH_TYPE_IP" "g_ip_proto (ip_gates proto) = proto"
  "g_ethertype (arp_gates et) = et" "g_ip_proto (arp_gates et) = None"
  by (simp_all add: ip_gates_def arp_gates_def)

lemma dir_offset_simps [simp]:
  "dir_offset (ip_gates proto) d = (case d of Src \<Rightarrow> 12 | Dst \<Rightarrow> 16)"
  "dir_offset (arp_gates et) d = (case d of Src \<Rightarrow> 14 | Dst \<Rightarrow> 24)"
  "dir_offset ip6_gates d = (case d of Src \<Rightarrow> 8 | Dst \<Rightarrow> 24)"
  by (simp_all add: dir_offset_def ip_gates_def arp_gates_def ip6_gates_def codegen_constants
      split: dir_tag.split)

lemma eval_gates_None: "eval_gates ctx ethertype field None p = eval_l3 ctx ethertype p"
  by (simp add: eval_gates_def)

lemma eval_gates_says:
  assumes "long_enough p" and "unat field < 60"
  shows "eval_gates (mk_ctx lt) ethertype field (Some n) p =
     and3 (eval_l3 (mk_ctx lt) ethertype p) (Some (byte p (l3 lt + unat field) = unat n))"
proof -
  have "l3 lt + unat field < 80" using assms(2) l3_bounds(1) [of lt] by linarith
  then show "eval_gates (mk_ctx lt) ethertype field (Some n) p =
     and3 (eval_l3 (mk_ctx lt) ethertype p) (Some (byte p (l3 lt + unat field) = unat n))"
    using assms(2) by (simp add: eval_gates_def unat_field reads_eq [OF read_u8_long [OF assms(1)]])
qed

definition width_of :: "nat \<Rightarrow> nat option \<Rightarrow> nat" where
  "width_of w prefix = (case prefix of None \<Rightarrow> w | Some n \<Rightarrow> n)"

lemma eval_addr4_says:
  assumes "long_enough p" and "prefix_fits (V4 a) prefix" and "unat (dir_offset gates d) < 60"
  shows "(let msk = map_option (\<lambda>n. mask_of (unat n)) prefix
          in eval_addr_word (mk_ctx lt) gates d msk (mask_target msk a) p) =
     Some (same_prefix 32 (width_of 32 (map_option unat prefix))
       (be p (l3 lt + unat (dir_offset gates d)) 4) (unat a))"
proof (cases prefix)
  case None
  show ?thesis
    using eval_addr_word_says [OF assms(1,3), of 32 lt a]
    by (simp add: None Let_def eval_addr_word_host width_of_def)
next
  case (Some n)
  then have "unat n \<le> 32" using assms(2) by (simp add: prefix_fits_def)
  from eval_addr_word_says [OF assms(1,3) this, of lt a] show ?thesis
    by (simp add: Some Let_def width_of_def)
qed

lemma eval_arp_l3_says:
  assumes "long_enough p" and "has_ethertype lt"
  shows "eval_l3 (mk_ctx lt) et p = Some (ethertype_field lt p = Some (unat et))"
  using assms(2)
  by (cases lt) (simp_all add: has_ethertype_def eval_l3_def ethertype_field_def
      reads_eq [OF read_u16_long [OF assms(1)]])

lemma address_field_simps:
  "be p (l3 lt + unat (case d of Src \<Rightarrow> 12 | Dst \<Rightarrow> (16 :: u32))) 4 = ip4_address lt d p"
  "be p (l3 lt + unat (case d of Src \<Rightarrow> 14 | Dst \<Rightarrow> (24 :: u32))) 4 = arp_address lt d p"
  "be p (l3 lt + unat (case d of Src \<Rightarrow> 8 | Dst \<Rightarrow> (24 :: u32))) 16 = ip6_address lt d p"
  by (cases d; simp)+

lemma dir_offset_small:
  "unat (case d of Src \<Rightarrow> 12 | Dst \<Rightarrow> (16 :: u32)) < 60"
  "unat (case d of Src \<Rightarrow> 14 | Dst \<Rightarrow> (24 :: u32)) < 60"
  "unat (case d of Src \<Rightarrow> 8 | Dst \<Rightarrow> (24 :: u32)) < 60"
  by (cases d; simp)+

lemmas proto_constants =
  IP_PROTO_ICMP_def IP_PROTO_TCP_def IP_PROTO_UDP_def IP_PROTO_SCTP_def IP_PROTO_OFFSET_def
  ETH_TYPE_ARP_def ETH_TYPE_RARP_def

lemma eval_v4_says:
  assumes "long_enough p" and "prefix_fits (V4 a) prefix" and "address_refusal lt proto (V4 a) = None"
  shows "eval_addr (mk_ctx lt) proto d (V4 a) prefix p =
     Some (says_address lt proto d (V4 a) (map_option unat prefix) p)"
proof -
  have ip: "eval_addr_word (mk_ctx lt) (ip_gates k) d msk (mask_target msk a) p =
      Some (same_prefix 32 (width_of 32 (map_option unat prefix)) (ip4_address lt d p) (unat a))"
    if "msk = map_option (\<lambda>n. mask_of (unat n)) prefix" for k msk
    using eval_addr4_says [OF assms(1,2), of "ip_gates k" d lt] that
    by (simp add: dir_offset_small address_field_simps Let_def)
  have arp: "eval_addr_word (mk_ctx lt) (arp_gates k) d msk (mask_target msk a) p =
      Some (same_prefix 32 (width_of 32 (map_option unat prefix)) (arp_address lt d p) (unat a))"
    if "msk = map_option (\<lambda>n. mask_of (unat n)) prefix" for k msk
    using eval_addr4_says [OF assms(1,2), of "arp_gates k" d lt] that
    by (simp add: dir_offset_small address_field_simps Let_def)
  show ?thesis
    using assms(3)
    by (cases proto)
       (auto simp: eval_addr_def says_address_def address_refusal_def ip arp Let_def width_of_def
         eval_gates_None eval_gates_says [OF assms(1)] eval_l3_says [OF assms(1)] eval_arp_l3_says [OF assms(1)]
         ip4_protocol_def proto_constants split: if_splits)
qed

text \<open>IPv6: the words that the prefix touches.\<close>

lemma be_16_word:
  assumes "i < 4"
  shows "be p f 16 div 2 ^ (96 - 32 * i) mod 2 ^ 32 = be p (f + 4 * i) 4"
proof -
  let ?k = "12 - 4 * i"
  have "16 = (4 * i + 4) + ?k" using assms by simp
  then have "be p f 16 = be p f (4 * i + 4) * 256 ^ ?k + be p (f + (4 * i + 4)) ?k"
    using be_add [of p f "4 * i + 4" ?k] by simp
  moreover have "(256 :: nat) ^ ?k = 2 ^ (96 - 32 * i)"
  proof -
    have "(256 :: nat) ^ ?k = (2 ^ 8) ^ ?k" by simp
    also have "\<dots> = 2 ^ (8 * ?k)" by (rule power_mult [symmetric])
    also have "8 * ?k = 96 - 32 * i" by (simp add: diff_mult_distrib2)
    finally show ?thesis .
  qed
  moreover have "be p (f + (4 * i + 4)) ?k < 256 ^ ?k" by (rule be_less)
  ultimately have "be p f 16 div 2 ^ (96 - 32 * i) = be p f (4 * i + 4)"
    by simp
  also have "\<dots> = be p f (4 * i) * 256 ^ 4 + be p (f + 4 * i) 4" by (rule be_add)
  finally show ?thesis
    using be_less [of p "f + 4 * i" 4] by (simp add: mod_mult_self2 mult.commute)
qed

lemma word6_of_nat:
  assumes "i < 4"
  shows "unat (word6 (of_nat (be p f 16)) i) = be p (f + 4 * i) 4"
proof -
  have "unat (of_nat (be p f 16) :: u128) = be p f 16"
    using be_less [of p f 16] by (simp add: unat_of_nat)
  then have "unat (word6 (of_nat (be p f 16)) i) = be p f 16 div 2 ^ (96 - 32 * i) mod 2 ^ 32"
    unfolding word6_def unsigned_ucast_eq unat_drop_bit_eq
    by (simp add: drop_bit_eq_div take_bit_eq_mod)
  then show ?thesis using be_16_word [OF assms] by simp
qed

lemma eval_addr6_words_all:
  "(\<And>i. i \<in> set is \<Longrightarrow> eval_addr6_word ctx start addr n p i = Some (P i)) \<Longrightarrow>
     eval_addr6_words ctx start addr n p is = Some (\<forall>i \<in> set is. P i)"
  by (induction "is") auto

lemma eval_v6_says:
  assumes "long_enough p" and "n \<le> 128" and "gates = ip6_gates"
  shows "eval_addr6 (mk_ctx lt) gates d a n p =
     Some (same_prefix 128 n (ip6_address lt d p) (unat a))"
proof -
  define f where "f = l3 lt + unat (dir_offset ip6_gates d)"
  let ?b = "of_nat (be p f 16) :: u128"
  let ?m = "\<lambda>i. mask_of (min (n - 32 * i) 32)"
  have f: "f \<le> 40" "f = l3 lt + unat (dir_offset ip6_gates d)" "unat (dir_offset ip6_gates d) \<le> 24"
    using l3_bounds(1) [of lt] by (cases d; simp add: f_def)+
  have "eval_addr6_word (mk_ctx lt) (dir_offset ip6_gates d) a n p i =
      Some (word6 ?b i AND ?m i = word6 a i AND ?m i)" if "i < 4" for i
  proof -
    have "unat (4 * of_nat i :: u32) = 4 * i"
      using that unat_of_nat_u32 [of "4 * i"] by simp
    moreover from this have "unat (dir_offset ip6_gates d + 4 * of_nat i) = unat (dir_offset ip6_gates d) + 4 * i"
      using that f(3) by (simp add: unat_word_ariths)
    ultimately have "unat (ip_base (mk_ctx lt) + dir_offset ip6_gates d + 4 * of_nat i) = f + 4 * i"
      using unat_field [of "dir_offset ip6_gates d + 4 * of_nat i" lt] that f by (simp add: add.assoc)
    moreover have "f + 4 * i < 77" using f(1) that by simp
    ultimately show ?thesis
      unfolding eval_addr6_word_def Let_def
      by (auto intro!: holds_reads [OF read_u32_long [OF assms(1)]]
          simp: word6_of_nat [OF that, symmetric] word_unat_eq_iff [symmetric] simp flip: word6_def)
  qed
  then have "eval_addr6 (mk_ctx lt) gates d a n p =
      Some (\<forall>i < (n + 31) div 32. word6 ?b i AND ?m i = word6 a i AND ?m i)"
    using assms(2,3) unfolding eval_addr6_def
    by (subst eval_addr6_words_all) auto
  also have "(\<forall>i < (n + 31) div 32. word6 ?b i AND ?m i = word6 a i AND ?m i) \<longleftrightarrow>
      unat ?b div 2 ^ (128 - n) = unat a div 2 ^ (128 - n)"
    by (rule word6_prefix [OF assms(2)])
  also have "unat ?b = ip6_address lt d p"
    using be_less [of p f 16] by (cases d) (simp_all add: unat_of_nat f_def)
  finally show ?thesis by (simp add: same_prefix_def)
qed

lemma eval_addr_says:
  assumes "long_enough p" and "prefix_fits addr prefix" and "address_refusal lt proto addr = None"
  shows "eval_addr (mk_ctx lt) proto d addr prefix p =
     Some (says_address lt proto d addr (map_option unat prefix) p)"
proof (cases addr)
  case (V4 a)
  then show ?thesis using eval_v4_says assms by blast
next
  case (V6 a)
  define n where "n = unat (case prefix of None \<Rightarrow> 128 :: u8 | Some n \<Rightarrow> n)"
  have "n \<le> 128" "n = (case map_option unat prefix of None \<Rightarrow> 128 | Some n \<Rightarrow> n)"
    using assms(2) by (auto simp: n_def V6 prefix_fits_def split: option.splits)
  then show ?thesis
    using eval_v6_says [OF assms(1), of n ip6_gates lt d a]
    by (simp add: V6 eval_addr_def says_address_def eval_gates_None eval_l3_says [OF assms(1)]
        flip: n_def)
qed

section \<open>Ports\<close>

lemma port_rel_simps [simp]: "unat (port_rel d) = (case d of Src \<Rightarrow> 0 | Dst \<Rightarrow> 2)"
  by (cases d) (simp_all add: port_rel_def PORT_SRC_REL_def PORT_DST_REL_def)

lemma in_range_reads:
  "reads v n \<Longrightarrow> holds (in_range lo hi) v = Some (unat lo \<le> n \<and> n \<le> unat hi)"
  by (rule holds_reads) (auto simp: in_range_def word_le_nat_alt unat_ucast_u16)

lemma eval_port6_at_says:
  assumes "long_enough p"
  shows "eval_port6_at (mk_ctx lt) d lo hi p =
    Some (let port = port_field d (l3 lt + 40) p in unat lo \<le> port \<and> port \<le> unat hi)"
proof -
  have rel: "unat (IP6_HEADER_LEN + port_rel d) = 40 + unat (port_rel d)"
    by (cases d) (simp_all add: IP6_HEADER_LEN_def port_rel_def PORT_SRC_REL_def PORT_DST_REL_def)
  then have "unat (IP6_HEADER_LEN + port_rel d) < 100" by (cases d) simp_all
  from unat_field [OF this, of lt] rel
  have at: "unat (ip_base (mk_ctx lt) + IP6_HEADER_LEN + port_rel d) = l3 lt + 40 + unat (port_rel d)"
    by (simp add: add.assoc)
  have "l3 lt + 40 + unat (port_rel d) < 79" using l3_bounds(1) [of lt] by (cases d) simp_all
  from in_range_reads [OF read_u16_long [OF assms this], of lo hi] show ?thesis
    unfolding eval_port6_at_def at by (cases d) (simp_all add: Let_def)
qed

lemma header_len_says:
  assumes "long_enough p"
  shows "unat (header_len (mk_ctx lt) p) = ip4_header_bytes lt p"
proof -
  have "l3 lt < 80" using l3_bounds(1) [of lt] by linarith
  from read_u8_long [OF assms this] obtain w
    where "read_u8 p (l3 lt) = Some w" "unat w = byte p (l3 lt)"
    by (auto simp: reads_def)
  then show ?thesis
    using low_nibble_times_4 [of w] by (simp add: header_len_def l3_bounds(2) ip4_header_bytes_def)
qed

lemma eval_port4_at_says:
  assumes "long_enough p"
  shows "eval_port4_at (mk_ctx lt) d lo hi p (header_len (mk_ctx lt) p) =
    Some (let port = port_field d (l3 lt + ip4_header_bytes lt p) p
          in unat lo \<le> port \<and> port \<le> unat hi)"
proof -
  let ?at = "ip4_header_bytes lt p + (l3 lt + unat (port_rel d))"
  have "unat (port_rel d) < 100" by (cases d) simp_all
  note rel = unat_field [OF this, of lt]
  have "ip4_header_bytes lt p \<le> 60" by (simp add: ip4_header_bytes_def)
  then have at: "?at < 79" using l3_bounds(1) [of lt] by (cases d) simp_all
  have "eval_port4_at (mk_ctx lt) d lo hi p (header_len (mk_ctx lt) p) =
      holds (in_range lo hi) (read_u16 p ?at)"
    using at by (simp add: eval_port4_at_def rel header_len_says [OF assms] checked_add_small)
  also have "\<dots> = Some (unat lo \<le> be p ?at 2 \<and> be p ?at 2 \<le> unat hi)"
    by (rule in_range_reads [OF read_u16_long [OF assms at]])
  finally show ?thesis by (cases d) (simp_all add: Let_def ac_simps)
qed

lemma eval_port4_gates_says:
  assumes "long_enough p"
  shows "eval_port4_gates (mk_ctx lt) n p =
    Some (is_ip4 lt p \<and> ip4_protocol lt p = unat n \<and> fragment_offset lt p = 0)"
proof -
  have l3: "l3 lt < 80" "l3 lt + 6 < 79" using l3_bounds(1) [of lt] by simp_all
  have frag: "holds (\<lambda>v. v AND FRAG_MASK = 0) (read_u16 p (unat (ip_base (mk_ctx lt) + IP_FLAGS_FRAG_OFFSET))) =
      Some (fragment_offset lt p = 0)"
    using unat_field [of IP_FLAGS_FRAG_OFFSET lt]
    by (auto intro!: holds_reads [OF read_u16_long [OF assms l3(2)]]
        simp: IP_FLAGS_FRAG_OFFSET_def FRAG_MASK_def low_13_bits fragment_offset_def)
  have "holds (\<lambda>v. True) (read_u8 p (unat (ip_base (mk_ctx lt)))) = Some True"
    using read_u8_long [OF assms l3(1)] by (auto simp: reads_def l3_bounds(2))
  then show ?thesis
    using frag
    by (auto simp: eval_port4_gates_def eval_gates_says [OF assms] eval_l3_says [OF assms]
        ip4_protocol_def IP_PROTO_OFFSET_def)
qed

lemma eval_port_says:
  assumes "long_enough p" and "port_refusal proto = None"
  shows "eval_port (mk_ctx lt) proto d lo hi p = Some (says_port lt proto d (unat lo) (unat hi) p)"
proof -
  obtain n where n: "\<And>ofs. port_proto_num proto ofs = Ok n" "ip_protocol_number proto = Some (unat n)"
    using assms(2)
    by (cases proto) (auto simp: port_refusal_def port_proto_num_def proto_constants)
  have "eval_port4 (mk_ctx lt) n d lo hi p =
      Some (is_ip4 lt p \<and> ip4_protocol lt p = unat n \<and> fragment_offset lt p = 0 \<and>
        (let port = port_field d (l3 lt + ip4_header_bytes lt p) p
         in unat lo \<le> port \<and> port \<le> unat hi))"
    by (auto simp: eval_port4_def eval_port4_gates_says [OF assms(1)] eval_port4_at_says [OF assms(1)])
  moreover have "eval_port6 (mk_ctx lt) n d lo hi p =
      Some (is_ip6 lt p \<and> ip6_next_header lt p = unat n \<and>
        (let port = port_field d (l3 lt + 40) p in unat lo \<le> port \<and> port \<le> unat hi))"
    by (auto simp: eval_port6_def eval_port6_at_says [OF assms(1)] eval_gates_says [OF assms(1)]
        eval_l3_says [OF assms(1)] ip6_next_header_def IP6_NEXTHDR_OFFSET_def)
  ultimately show ?thesis
    by (auto simp: eval_port_def says_port_def n Let_def)
qed

section \<open>Link-layer primitives\<close>

lemma mac_number_be:
  "mac_number (MacAddr m0 m1 m2 m3 m4 m5) =
     unat (u32_from_be_bytes m0 m1 m2 m3) * 65536 + unat (u16_from_be_bytes m4 m5)"
  using be_add [of "[m0, m1, m2, m3, m4, m5]" 0 4 2]
  by (simp add: be_4 be_2 byte_def unat_u32_bytes unat_u16_bytes)

lemma digits_unique:
  "a * m + b = c * m + d \<Longrightarrow> b < m \<Longrightarrow> d < m \<Longrightarrow> a = c \<and> b = d" for a b c d m :: nat
proof -
  assume eq: "a * m + b = c * m + d" and b: "b < m" and d: "d < m"
  have "(a * m + b) div m = a" "(c * m + d) div m = c" using b d by simp_all
  with eq have "a = c" by simp
  with eq show ?thesis by simp
qed

lemma eval_mac_says:
  assumes "long_enough p" and "unat f < 70"
  shows "eval_mac f mac p = Some (be p (unat f) 6 = mac_number mac)"
proof -
  obtain m0 m1 m2 m3 m4 m5 where mac: "mac = MacAddr m0 m1 m2 m3 m4 m5" by (cases mac)
  have f4: "unat (f + 4) = unat f + 4" using assms(2) by (simp add: unat_word_ariths)
  have "be p (unat f) 6 = be p (unat f) 4 * 65536 + be p (unat f + 4) 2"
    using be_add [of p "unat f" 4 2] by simp
  moreover have "be p (unat f + 4) 2 < 65536" "unat (u16_from_be_bytes m4 m5) < 65536"
    using be_less [of p "unat f + 4" 2] u16_less by simp_all
  ultimately have "be p (unat f) 6 = mac_number mac \<longleftrightarrow>
      be p (unat f) 4 = unat (u32_from_be_bytes m0 m1 m2 m3) \<and>
      be p (unat f + 4) 2 = unat (u16_from_be_bytes m4 m5)"
    unfolding mac mac_number_be by (metis digits_unique)
  then show ?thesis
    using assms(2)
    by (simp add: mac f4 reads_eq [OF read_u32_long [OF assms(1)]]
        reads_eq [OF read_u16_long [OF assms(1)]] unat_ucast_u16)
qed

lemma mac_broadcast: "mac_number ETH_MAC_BROADCAST = 2 ^ 48 - 1"
  by (simp add: ETH_MAC_BROADCAST_def mac_number_be unat_u32_bytes unat_u16_bytes del: mac_number.simps)

lemma eval_ether_says:
  assumes "long_enough p"
  shows "eval_ether (mk_ctx Ethernet) kind p = Some (says_ether Ethernet kind p)"
proof -
  have mac: "eval_mac (mac_field d) m p = Some (mac_address d p = mac_number m)" for d m
    using eval_mac_says [OF assms, of "mac_field d"]
    by (cases d) (simp_all add: ETH_SRC_MAC_OFFSET_def ETH_DST_MAC_OFFSET_def)
  have bc: "eval_mac ETH_DST_MAC_OFFSET ETH_MAC_BROADCAST p = Some (mac_address Dst p = 2 ^ 48 - 1)"
    using mac [of Dst ETH_MAC_BROADCAST] by (simp add: mac_broadcast)
  have mc: "holds (\<lambda>v. v AND 0x01 \<noteq> 0) (read_u8 p (unat ETH_DST_MAC_OFFSET)) = Some (odd (byte p 0))"
    unfolding ETH_DST_MAC_OFFSET_def unsigned_0
    by (rule holds_reads [OF read_u8_long [OF assms]]) (use low_bit in auto)
  show ?thesis
    using mac [of Src] mac [of Dst] mac bc mc
    by (auto simp: eval_ether_def says_ether_def ethertype_field_def
        reads_eq [OF read_u16_long [OF assms]] unat_ucast_u16
        split: ether_kind.split option.split dir_tag.split)
qed

section \<open>Expressions\<close>

lemma eval_primitive_says:
  assumes "long_enough p" and "wf_type (cp_ty c)" and "leaf_refusal lt c = None"
  shows "eval_primitive (mk_ctx lt) c p = Some (says_primitive lt c p)"
proof -
  have full: "says_address lt proto d addr (Some (unat (full_prefix addr))) p =
      says_address lt proto d addr None p" for proto d addr
    by (cases addr) (simp_all add: says_address_def full_prefix_def Let_def)
  have "prefix_fits addr (Some (full_prefix addr))" for addr
    by (cases addr) (simp_all add: prefix_fits_def full_prefix_def)
  then show ?thesis
    using assms(2,3)
    by (auto simp: eval_primitive_def says_primitive_def leaf_refusal_def full
        eval_addr_says [OF assms(1)] eval_port_says [OF assms(1)] prefix_fits_def
        split: prim_type.splits option.split)
qed

lemma resolutions_stand: "c \<in> set (resolutions pr) \<longleftrightarrow> stands_for pr c"
proof -
  have dirs: "d \<in> set (default_dirs pr) \<longleftrightarrow> prim_dir pr = None \<or> prim_dir pr = Some d" for d
    by (cases d) (auto simp: default_dirs_def split: option.split)
  have protos: "proto \<in> set (default_protos pr) \<longleftrightarrow>
      (case prim_proto pr of
         Some q \<Rightarrow> named_protocol q proto | None \<Rightarrow> default_protocol (prim_ty pr) proto)" for proto
    by (auto simp: default_protos_def elim!: named_protocol.elims
        split: option.split prim_type.split addr_lit.split proto_tag.split)
      (metis compiled_proto_from.simps proto_tag.exhaust named_protocol.simps)+
  have "c \<in> set (resolutions pr) \<longleftrightarrow>
      cp_proto c \<in> set (default_protos pr) \<and> cp_dir c \<in> set (default_dirs pr) \<and>
      cp_ty c = prim_ty pr \<and> cp_offset c = prim_offset pr"
    by (cases c) (auto simp: resolutions_def)
  then show ?thesis by (simp add: stands_for_def dirs protos)
qed

lemma any3_says:
  "(\<And>c. c \<in> set cs \<Longrightarrow> f c = Some (P c)) \<Longrightarrow> any3 (map f cs) = Some (\<exists>c \<in> set cs. P c)"
  by (induction cs) auto

lemma first_error_None: "first_error es = None \<longleftrightarrow> (\<forall>e \<in> set es. e = None)"
  by (induction es rule: first_error.induct) auto

lemma source_eval_says:
  "long_enough p \<Longrightarrow> wf_expr e \<Longrightarrow> source_refusal lt e = None \<Longrightarrow>
     source_eval (mk_ctx lt) e p = Some (says lt e p)"
proof (induction e)
  case (EPrimitive pr)
  have "eval_primitive (mk_ctx lt) c p = Some (says_primitive lt c p)" if "c \<in> set (resolutions pr)" for c
  proof (rule eval_primitive_says [OF EPrimitive(1)])
    show "wf_type (cp_ty c)" using EPrimitive(2) resolutions_fields [OF that] by simp
    show "leaf_refusal lt c = None" using EPrimitive(3) that by (auto simp: first_error_None)
  qed
  then have "any3 (map (\<lambda>c. eval_primitive (mk_ctx lt) c p) (resolutions pr)) =
      Some (\<exists>c \<in> set (resolutions pr). says_primitive lt c p)" by (rule any3_says)
  then show ?case by (simp add: resolutions_stand Bex_def)
next
  case (EEther e)
  then show ?case using eval_ether_says [of p "ether_kind e"] by (auto split: if_splits)
qed (auto simp: first_error_None not3_def)

end
