(* ===== verification/VmCorrect.thy ===== *)
theory VmCorrect
  imports Vm
begin

text \<open>
  The interpreter as a transition system: it stops within as many steps as the program has
  instructions, its registers stay in range, and it returns nothing but 0 or what a \<open>ret\<close> says.
\<close>

section \<open>Reachable states\<close>

text \<open>\<open>reaches insns packet n s\<close>: after \<open>n\<close> turns of the loop the state is \<open>s\<close>.\<close>

inductive reaches :: "insn list \<Rightarrow> packet \<Rightarrow> nat \<Rightarrow> vm_state \<Rightarrow> bool"
  for insns packet where
  reaches_init: "reaches insns packet 0 vm_init"
| reaches_step:
    "reaches insns packet n s \<Longrightarrow> vm_step insns packet s = Continue s' \<Longrightarrow>
     reaches insns packet (Suc n) s'"

inductive_cases reaches_0E: "reaches insns packet 0 s"
inductive_cases reaches_SucE: "reaches insns packet (Suc n) s"

inductive_simps reaches_0 [simp]: "reaches insns packet 0 s"
inductive_simps reaches_Suc: "reaches insns packet (Suc n) s"

lemma reaches_unique: "reaches insns packet n s \<Longrightarrow> reaches insns packet n s' \<Longrightarrow> s = s'"
proof (induction n arbitrary: s s')
  case (Suc n)
  from Suc.prems obtain t t' where t: "reaches insns packet n t" "vm_step insns packet t = Continue s"
    and t': "reaches insns packet n t'" "vm_step insns packet t' = Continue s'"
    by (auto simp: reaches_Suc)
  with Suc.IH [OF t(1) t'(1)] show ?case by simp
qed simp

text \<open>The program counter is ahead of the step count, and it is inside the program until the last step.\<close>

lemma reaches_pc: "reaches insns packet n s \<Longrightarrow> n \<le> reg_pc s"
proof (induction rule: reaches.induct)
  case (reaches_step n s s')
  then show ?case using vm_step_forward(2) [OF reaches_step(2)] by simp
qed simp

lemma reaches_bound: "reaches insns packet n s \<Longrightarrow> n \<le> length insns"
proof (cases n)
  case (Suc m)
  assume "reaches insns packet n s"
  then obtain t where "reaches insns packet m t" "vm_step insns packet t = Continue s"
    by (auto simp: Suc elim: reaches_SucE)
  then show ?thesis
    using reaches_pc [of insns packet m t] vm_step_forward(1) [of insns packet t s] Suc by simp
qed simp

section \<open>The loop\<close>

lemma vm_loop_Return: "vm_step insns packet s = Return v \<Longrightarrow> vm_loop insns packet s = v"
  by (simp add: vm_loop.simps)

lemma vm_loop_Continue:
  "vm_step insns packet s = Continue s' \<Longrightarrow> vm_loop insns packet s = vm_loop insns packet s'"
  by (simp add: vm_loop.simps [of insns packet s])

lemma reaches_loop: "reaches insns packet n s \<Longrightarrow> vm_loop insns packet s = run insns packet"
proof (induction rule: reaches.induct)
  case (reaches_step n s s')
  then show ?case using vm_loop_Continue by simp
qed (simp add: run_def)

lemma loop_stops:
  "reaches insns packet n s \<Longrightarrow>
     \<exists>m t v. reaches insns packet m t \<and> vm_step insns packet t = Return v"
proof (induction "length insns - reg_pc s" arbitrary: n s rule: less_induct)
  case less
  show ?case
  proof (cases "vm_step insns packet s")
    case (Return v)
    then show ?thesis using less.prems by blast
  next
    case (Continue s')
    then have "length insns - reg_pc s' < length insns - reg_pc s"
      using vm_step_forward [OF Continue] by simp
    then show ?thesis using less.hyps reaches_step [OF less.prems Continue] by blast
  qed
qed

lemma run_stops:
  "\<exists>n s. n \<le> length insns \<and> reaches insns packet n s \<and>
     vm_step insns packet s = Return (run insns packet)"
proof -
  obtain n s v where s: "reaches insns packet n s" "vm_step insns packet s = Return v"
    using loop_stops [OF reaches_init] by blast
  then have "v = run insns packet" using reaches_loop [OF s(1)] vm_loop_Return [OF s(2)] by simp
  then show ?thesis using s reaches_bound [OF s(1)] by blast
qed

section \<open>Results and registers\<close>

lemma vm_step_Return:
  "vm_step insns packet s = Return v \<Longrightarrow> v = 0 \<or> (\<exists>i \<in> set insns. decode i = Ret v)"
  by (auto simp: vm_step_def get_def load_a_def split: if_splits op.splits option.splits)

lemma run_result: "run insns packet = 0 \<or> (\<exists>i \<in> set insns. decode i = Ret (run insns packet))"
  using run_stops [of insns packet] vm_step_Return by metis

text \<open>The index register holds a header length: a multiple of four, at most 60.\<close>

lemma header_len_bound: "unat ((v AND 0x0f) * 4 :: u32) = 4 * unat (v AND 0x0f) \<and> unat (v AND 0x0f) \<le> 15"
proof -
  have "v AND 0x0f \<le> 0x0f" by (rule word_and_le1)
  then have "unat (v AND 0x0f) \<le> 15" by (simp add: word_le_nat_alt)
  then show ?thesis by (simp add: unat_word_ariths)
qed

lemma vm_step_x:
  "vm_step insns packet s = Continue s' \<Longrightarrow>
     reg_x s' = reg_x s \<or> (\<exists>byte. reg_x s' = (byte AND 0x0f) * 4)"
  by (auto simp: vm_step_def load_a_def split: option.splits op.splits)

lemma reaches_x: "reaches insns packet n s \<Longrightarrow> \<exists>k \<le> 15. unat (reg_x s) = 4 * k"
proof (induction rule: reaches.induct)
  case reaches_init
  show ?case by (rule exI [of _ 0]) (simp add: vm_init_def)
next
  case (reaches_step n s s')
  from vm_step_x [OF reaches_step(2)] show ?case
    using reaches_step.IH header_len_bound by auto
qed

section \<open>Longer packets\<close>

text \<open>A read that succeeds reads the same from every extension of the packet.\<close>

lemma get_append: "get p i = Some b \<Longrightarrow> get (p @ q) i = Some b"
  by (auto simp: get_def nth_append split: if_splits)

lemma get_range_append: "get_range p i j = Some bs \<Longrightarrow> get_range (p @ q) i j = Some bs"
  by (auto simp: get_range_def split: if_splits)

lemma read_append:
  "read_u8 p i = Some v \<Longrightarrow> read_u8 (p @ q) i = Some v"
  "read_u16 p i = Some v \<Longrightarrow> read_u16 (p @ q) i = Some v"
  "read_u32 p i = Some v \<Longrightarrow> read_u32 (p @ q) i = Some v"
  by (auto simp: read_u8_def read_u16_def read_u32_def get_append get_range_append
      split: option.split_asm)

lemma vm_step_append:
  "vm_step insns p s = Continue s' \<Longrightarrow> vm_step insns (p @ q) s = Continue s'"
  "vm_step insns p s = Return v \<Longrightarrow> v \<noteq> 0 \<Longrightarrow> vm_step insns (p @ q) s = Return v"
  by (auto simp: vm_step_def load_a_def read_append split: option.split_asm op.splits)

lemma reaches_append: "reaches insns p n s \<Longrightarrow> reaches insns (p @ q) n s"
  by (induction rule: reaches.induct) (auto intro: reaches.intros vm_step_append(1))

lemma run_append:
  assumes "run insns p \<noteq> 0"
  shows "run insns (p @ q) = run insns p"
proof -
  obtain n s where s: "reaches insns p n s" "vm_step insns p s = Return (run insns p)"
    using run_stops by blast
  show ?thesis
    using reaches_loop [OF reaches_append [OF s(1), of q]] vm_loop_Return
      vm_step_append(2) [OF s(2) assms, of q] by metis
qed

section \<open>The listing tells where the interpreter goes\<close>

text \<open>
  Behind \<open>jt\<close> and \<open>jf\<close> of a conditional jump the listing prints the program counters of the two branches.
\<close>

lemma listing_shows_targets:
  assumes "is_conditional_jump i"
  shows "\<exists>line. fmt_insn i index =
    line @ '' jt '' @ show_dec (Vm.branch index i True) @ [CHR 0x09] @
    ''jf '' @ show_dec (Vm.branch index i False)"
  using assms by (simp add: fmt_insn_def Vm.branch_def split: prod.split)

end
