(* ===== verification/Literals.thy ===== *)
theory Literals
  imports ParserCorrect WordFacts
begin

text \<open>
  Literals: the parser reads back every number and address that is written in the usual notation.
\<close>

section \<open>Numbers\<close>

lemma to_digit_char: "d < b \<Longrightarrow> b \<le> 16 \<Longrightarrow> to_digit b (digit_char d) = Some d"
  by (simp add: to_digit_def digit_char_def)

lemma digit_char_code: "d < 16 \<Longrightarrow> of_char (digit_char d) = (if d < 10 then 48 + d else 87 + d)"
  by (simp add: digit_char_def)

text \<open>A digit is none of the characters that literals are split at, and no sign.\<close>

definition digit_text :: "string \<Rightarrow> bool" where
  "digit_text s \<longleftrightarrow> (\<forall>c \<in> set s. \<exists>d < 16. c = digit_char d)"

lemma digit_char_neq:
  assumes "d < 16" and "of_char c < (48 :: nat)"
  shows "digit_char d \<noteq> c"
  using assms digit_char_code [OF assms(1)] by (auto split: if_splits)

lemma digit_text_char: "digit_text s \<Longrightarrow> of_char c < (48 :: nat) \<Longrightarrow> c \<notin> set s"
  unfolding digit_text_def by (metis digit_char_neq)

lemma digit_char_not_colon: "d < 16 \<Longrightarrow> digit_char d \<noteq> CHR '':''"
proof
  assume "d < 16" "digit_char d = CHR '':''"
  then have "of_char (CHR '':'') = (if d < 10 then 48 + d else 87 + d)" using digit_char_code by metis
  then show False by (simp split: if_splits)
qed

lemma digits_text: "2 \<le> b \<Longrightarrow> b \<le> 16 \<Longrightarrow> digit_text (digits b n)"
proof (induction b n rule: digits.induct)
  case (1 b n)
  show ?case
  proof (cases "n < b")
    case True
    then have "n < 16" using 1(3) by linarith
    then show ?thesis using True by (auto simp: digit_text_def digits.simps [of b n])
  next
    case False
    have "n mod b < 16" using 1(2,3) mod_less_divisor [of b n] by linarith
    then show ?thesis
      using 1 False by (auto simp: digit_text_def digits.simps [of b n])
  qed
qed

lemma digits_nonempty: "digits b n \<noteq> []"
  by (simp add: digits.simps [of b n])

lemma digits_value_append:
  "digits_value limit r acc (s @ t) =
     (case digits_value limit r acc s of None \<Rightarrow> None | Some a \<Rightarrow> digits_value limit r a t)"
  by (induction limit r acc s rule: digits_value.induct) (auto split: option.split)

lemma digits_value_digits:
  "2 \<le> b \<Longrightarrow> b \<le> 16 \<Longrightarrow> n \<le> limit \<Longrightarrow> digits_value limit b 0 (digits b n) = Some n"
proof (induction b n rule: digits.induct)
  case (1 b n)
  show ?case
  proof (cases "n < b")
    case True
    then show ?thesis using 1 by (simp add: digits.simps [of b n] to_digit_char)
  next
    case False
    have "n div b \<le> limit" using 1(4) div_le_dividend le_trans by blast
    then have "digits_value limit b 0 (digits b (n div b)) = Some (n div b)"
      using 1 False by simp
    moreover have "n mod b < b" using 1(2) by simp
    moreover have "n div b * b \<le> limit" using 1(4) by (meson div_times_less_eq_dividend le_trans)
    ultimately show ?thesis
      using 1(2-4) False by (simp add: digits.simps [of b n] digits_value_append to_digit_char)
  qed
qed

lemma from_str_radix_digits:
  assumes "2 \<le> b" and "b \<le> 16" and "n \<le> limit"
  shows "from_str_radix limit b (digits b n) = Some n"
proof -
  obtain c cs where c: "digits b n = c # cs" using digits_nonempty by (cases "digits b n") auto
  have "c \<noteq> CHR ''+''" "c \<noteq> CHR ''-''"
    using digit_text_char [OF digits_text [OF assms(1,2)], of "CHR ''+''" n]
      digit_text_char [OF digits_text [OF assms(1,2)], of "CHR ''-''" n] by (auto simp: c)
  then show ?thesis
    using digits_value_digits [OF assms] by (simp add: from_str_radix_def c)
qed

lemma parse_u8_show: "parse_u8 (show_dec (unat v)) = Some v"
  using u8_less [of v] by (simp add: parse_u8_def show_dec_def from_str_radix_digits)

lemma parse_u16_show: "parse_u16 (show_dec (unat v)) = Some v"
  using u16_less [of v] by (simp add: parse_u16_def show_dec_def from_str_radix_digits)

lemma hex_u16_show: "u16_from_hex (show_hex (unat v)) = Some v"
  using u16_less [of v] by (simp add: u16_from_hex_def show_hex_def from_str_radix_digits)

section \<open>Splitting\<close>

lemma split_char_join: "d \<notin> set s \<Longrightarrow> split_char d (s @ d # t) = s # split_char d t"
  by (induction s) (auto split: list.split)

lemma split_char_last: "d \<notin> set s \<Longrightarrow> split_char d s = [s]"
  by (induction s) auto

lemma split_once_join: "d \<notin> set s \<Longrightarrow> split_once d (s @ d # t) = Some (s, t)"
  by (induction s) auto

lemma split_once_none: "d \<notin> set s \<Longrightarrow> split_once d s = None"
  by (induction s) auto

lemma show_dec_chars: "of_char c < (48 :: nat) \<Longrightarrow> c \<notin> set (show_dec n)"
  using digit_text_char [OF digits_text [of 10 n]] by (simp add: show_dec_def)

lemma show_dec_colon: "CHR '':'' \<notin> set (show_dec n)"
  using digits_text [of 10 n] digit_char_not_colon
  unfolding show_dec_def digit_text_def by fastforce

section \<open>IPv4 addresses\<close>

text \<open>The dotted quad of four octets, and of an address.\<close>

definition dotted :: "u8 \<Rightarrow> u8 \<Rightarrow> u8 \<Rightarrow> u8 \<Rightarrow> string" where
  "dotted a b c d = show_dec (unat a) @ ''.'' @ show_dec (unat b) @ ''.'' @ show_dec (unat c) @ ''.'' @
     show_dec (unat d)"

lemma parse_octet:
  "parse_u16 (show_dec (unat (v :: u8))) = Some (ucast v)"
  "\<not> 255 < (ucast v :: u16)" "ucast (ucast v :: u16) = v"
proof -
  have "unat v \<le> 65535" using u8_less [of v] by linarith
  then show "parse_u16 (show_dec (unat v)) = Some (ucast v)"
    by (simp add: parse_u16_def show_dec_def from_str_radix_digits)
  have "unat (ucast v :: u16) = unat v"
    using u8_less [of v] by (simp add: unsigned_ucast_eq take_bit_nat_eq_self)
  then show "\<not> 255 < (ucast v :: u16)" using u8_less [of v] by (simp add: word_less_nat_alt)
  show "ucast (ucast v :: u16) = v" by (simp add: bit_eq_iff bit_simps)
qed

lemma split_dotted:
  "split_char CHR ''.'' (dotted a b c d) =
     [show_dec (unat a), show_dec (unat b), show_dec (unat c), show_dec (unat d)]"
  by (simp add: dotted_def split_char_join split_char_last show_dec_chars)

lemma parse_ipv4_dotted: "parse_ipv4_octets (dotted a b c d) = Some (u32_from_be_bytes a b c d)"
  by (simp add: parse_ipv4_octets_def split_dotted parse_octet)

lemma dotted_chars: "CHR '':'' \<notin> set (dotted a b c d)" "CHR ''/'' \<notin> set (dotted a b c d)"
  by (simp_all add: dotted_def show_dec_colon show_dec_chars)

lemma parse_addr_dotted:
  "parse_addr_literal (dotted a b c d) ofs allow = Ok (V4 (u32_from_be_bytes a b c d), None)"
  by (simp add: parse_addr_literal_def dotted_chars split_prefix_def split_once_none Let_def
      parse_ipv4_dotted)

lemma parse_addr_dotted_prefix:
  assumes "n \<le> 32"
  shows "parse_addr_literal (dotted a b c d @ ''/'' @ show_dec (unat n)) ofs True =
    Ok (V4 (u32_from_be_bytes a b c d), Some n)"
  using assms
  by (simp add: parse_addr_literal_def dotted_chars show_dec_colon split_prefix_def split_once_join
      Let_def parse_ipv4_dotted parse_u8_show not_less)

section \<open>MAC addresses\<close>

definition hex2 :: "u8 \<Rightarrow> string" where
  "hex2 v = [digit_char (unat v div 16), digit_char (unat v mod 16)]"

fun show_mac :: "mac_addr \<Rightarrow> string" where
  "show_mac (MacAddr m0 m1 m2 m3 m4 m5) =
     hex2 m0 @ '':'' @ hex2 m1 @ '':'' @ hex2 m2 @ '':'' @ hex2 m3 @ '':'' @ hex2 m4 @ '':'' @ hex2 m5"

lemma hex2_colon: "CHR '':'' \<notin> set (hex2 v)"
proof -
  have "unat v div 16 < 16" using u8_less [of v] by linarith
  from digit_char_not_colon [OF this] digit_char_not_colon [of "unat v mod 16"] show ?thesis
    by (auto simp: hex2_def)
qed

lemma hex2_read: "u8_from_hex (hex2 v) = Some v"
proof -
  have d: "unat v div 16 < 16" "unat v mod 16 < 16" using u8_less [of v] by simp_all
  have "digit_char (unat v div 16) \<noteq> CHR ''+''" by (rule digit_char_neq [OF d(1)]) simp
  moreover have "unat v div 16 * 16 + unat v mod 16 \<le> 255" "unat v div 16 * 16 \<le> 255"
    using u8_less [of v] by simp_all
  ultimately have "from_str_radix 255 16 (hex2 v) = Some (unat v)"
    using d by (simp add: from_str_radix_def hex2_def to_digit_char)
  then show ?thesis by (simp add: u8_from_hex_def)
qed

lemma parse_mac_show: "parse_mac_literal (show_mac m) ofs = Ok m"
  by (cases m) (simp add: parse_mac_literal_def split_char_join split_char_last hex2_colon hex2_read
      hex2_def [THEN arg_cong, of length])

section \<open>Ports and ethertypes\<close>

lemma parse_port_show: "parse_port (show_dec (unat p)) ofs = Ok p"
  by (simp add: parse_port_def parse_u16_show)

lemma parse_ethertype_hex: "parse_ethertype (''0x'' @ show_hex (unat v)) ofs = Ok v"
  by (simp add: parse_ethertype_def Let_def hex_u16_show to_lowercase_def to_ascii_lower_def)

section \<open>IPv6 addresses\<close>

text \<open>The eight groups in hexadecimal, with no group left out.\<close>

fun show_groups :: "u16 list \<Rightarrow> string" where
  "show_groups [] = []"
| "show_groups [g] = show_hex (unat g)"
| "show_groups (g # gs) = show_hex (unat g) @ '':'' @ show_groups gs"

lemma digits_length: "2 \<le> b \<Longrightarrow> n < b ^ Suc k \<Longrightarrow> length (digits b n) \<le> Suc k"
proof (induction k arbitrary: n)
  case (Suc k)
  show ?case
  proof (cases "n < b")
    case False
    have "n div b < b ^ Suc k" using Suc.prems by (simp add: less_mult_imp_div_less mult.commute)
    then show ?thesis using Suc by (simp add: digits.simps [of b n])
  qed (simp add: digits.simps [of b n])
next
  case 0
  then show ?case by (simp add: digits.simps [of b n])
qed

lemma read_digits_value:
  "digits_value limit r acc s = Some v \<Longrightarrow> count + length s \<le> most \<Longrightarrow>
     rest = [] \<or> to_digit r (hd rest) = None \<Longrightarrow>
     read_digits r most count acc (s @ rest) = Some (count + length s, v, rest)"
proof (induction s arbitrary: acc count)
  case Nil
  then show ?case by (cases rest) auto
next
  case (Cons c s)
  then show ?case by (auto split: option.splits if_splits)
qed

lemma colon_no_digit: "to_digit 16 CHR '':'' = None"
  by (simp add: to_digit_def)

lemma read_group:
  assumes "rest = [] \<or> hd rest = CHR '':''"
  shows "read_number 65535 16 4 True (show_hex (unat g) @ rest) = Some (unat (g :: u16), rest)"
proof -
  have g: "unat g \<le> 65535" using u16_less [of g] by simp
  have "length (digits 16 (unat g)) \<le> Suc 3" using u16_less [of g] by (intro digits_length) simp_all
  moreover have "digits_value 65535 16 0 (digits 16 (unat g)) = Some (unat g)"
    using g by (intro digits_value_digits) simp_all
  ultimately have "read_digits 16 4 0 0 (digits 16 (unat g) @ rest) =
      Some (0 + length (digits 16 (unat g)), unat g, rest)"
    using assms colon_no_digit by (intro read_digits_value) auto
  then show ?thesis
    using g by (simp add: read_number_def show_hex_def digits_nonempty Let_def)
qed

text \<open>Text without a dot holds no IPv4 address.\<close>

lemma read_digits_suffix:
  "read_digits r most count acc s = Some (n, v, rest) \<Longrightarrow> set rest \<subseteq> set s"
  by (induction r most count acc s rule: read_digits.induct) (auto split: option.splits if_splits)

lemma read_number_suffix: "read_number limit r most z s = Some (v, rest) \<Longrightarrow> set rest \<subseteq> set s"
  unfolding read_number_def Let_def
  by (auto split: option.splits prod.splits if_splits dest!: read_digits_suffix)

lemma read_given_char_absent: "c \<notin> set s \<Longrightarrow> read_given_char c s = None"
  by (cases s) auto

lemma read_ipv4_no_dot: "CHR ''.'' \<notin> set s \<Longrightarrow> read_ipv4_addr s = None"
proof -
  assume s: "CHR ''.'' \<notin> set s"
  have "read_given_char CHR ''.'' rest = None" if "read_number 255 10 3 False s = Some (v, rest)" for v rest
    using read_number_suffix [OF that] s by (auto intro: read_given_char_absent)
  then show ?thesis
    by (cases "read_number 255 10 3 False s") (auto simp: read_ipv4_addr_def read_separator_def)
qed

lemma show_hex_dot: "CHR ''.'' \<notin> set (show_hex n)"
  using digit_text_char [OF digits_text [of 16 n]] by (simp add: show_hex_def)

lemma show_groups_dot: "CHR ''.'' \<notin> set (show_groups gs)"
  by (induction gs rule: show_groups.induct) (auto simp: show_hex_dot)

text \<open>The groups from position \<open>i\<close> on, with their separator in front of all but the first.\<close>

definition groups_text :: "nat \<Rightarrow> u16 list \<Rightarrow> string" where
  "groups_text i gs = (if i = 0 \<or> gs = [] then show_groups gs else '':'' @ show_groups gs)"

lemma read_groups_text:
  "i + length gs = limit \<Longrightarrow>
     read_groups limit i acc (groups_text i gs) = (acc @ map unat gs, False, [])"
proof (induction gs arbitrary: i acc)
  case Nil
  then show ?case by (simp add: groups_text_def read_groups.simps [of limit limit])
next
  case (Cons g gs)
  have none: "read_separator CHR '':'' i read_ipv4_addr (groups_text i (g # gs)) = None"
    using read_ipv4_no_dot [OF show_groups_dot [of "g # gs"]]
    by (simp add: read_separator_def groups_text_def)
  have shown: "show_groups (g # gs) = show_hex (unat g) @ groups_text (Suc i) gs"
    by (cases gs) (simp_all add: groups_text_def)
  have "groups_text (Suc i) gs = [] \<or> hd (groups_text (Suc i) gs) = CHR '':''"
    by (simp add: groups_text_def)
  from read_group [OF this, of g]
  have "read_separator CHR '':'' i (read_number 65535 16 4 True) (groups_text i (g # gs)) =
      Some (unat g, groups_text (Suc i) gs)"
    by (cases "i = 0") (simp_all add: read_separator_def groups_text_def [of _ "g # gs"] shown)
  then show ?case
    using Cons.prems Cons.IH [of "Suc i" "acc @ [unat g]"] none
    by (simp add: read_groups.simps [of limit i])
qed

definition ipv6_of_groups :: "u16 list \<Rightarrow> u128" where
  "ipv6_of_groups gs = u128_of_groups (map unat gs)"

lemma parse_ipv6_groups:
  "length gs = 8 \<Longrightarrow> parse_ipv6 (show_groups gs) = Some (ipv6_of_groups gs)"
  using read_groups_text [of 0 gs 8 "[]"]
  by (simp add: parse_ipv6_def read_ipv6_addr_def groups_text_def ipv6_of_groups_def)

lemma show_hex_slash: "CHR ''/'' \<notin> set (show_hex n)"
  using digit_text_char [OF digits_text [of 16 n]] by (simp add: show_hex_def)

lemma show_groups_slash: "CHR ''/'' \<notin> set (show_groups gs)"
  by (induction gs rule: show_groups.induct) (auto simp: show_hex_slash)

lemma show_groups_colon: "2 \<le> length gs \<Longrightarrow> CHR '':'' \<in> set (show_groups gs)"
  by (cases gs rule: show_groups.cases) auto

lemma parse_addr_groups:
  assumes "length gs = 8"
  shows "parse_addr_literal (show_groups gs) ofs allow = Ok (V6 (ipv6_of_groups gs), None)"
  using assms show_groups_colon [of gs]
  by (simp add: parse_addr_literal_def parse_ipv6_literal_def split_prefix_def split_once_none
      show_groups_slash Let_def parse_ipv6_groups)

lemma parse_addr_groups_prefix:
  assumes "length gs = 8" and "n \<le> 128"
  shows "parse_addr_literal (show_groups gs @ ''/'' @ show_dec (unat n)) ofs True =
    Ok (V6 (ipv6_of_groups gs), Some n)"
  using assms show_groups_colon [of gs]
  by (simp add: parse_addr_literal_def parse_ipv6_literal_def split_prefix_def split_once_join
      show_groups_slash Let_def parse_ipv6_groups parse_u8_show not_less)

end
