(* ===== verification/CompileCorrect.thy ===== *)
theory CompileCorrect
  imports Program PacketSpec LexerCorrect
begin

text \<open>
  The pipeline. Its stages meet through interfaces: what the parser needs of a tokenizer, what the
  assembler's caller needs of a code generator, and what a compiled program is worth when both keep
  their contracts. Every interface is interpreted on the stages of \<open>compile\<close>.
\<close>

section \<open>Front end\<close>

locale tokenizer =
  fixes tokenize :: "rstr \<Rightarrow> token list res"
  assumes stream: "yields (tokenize src) (\<lambda>ts. ends_in_eof ts \<and> length ts \<le> Suc (length src))"
begin

definition front :: "rstr \<Rightarrow> expr res" where
  "front src = and_then (tokenize src) parse"

lemma front_yields: "yields (front src) (\<lambda>e. wf_expr e \<and> expr_leaves e \<le> Suc (length src))"
  unfolding front_def
  by (rule yields_and_then [OF stream]) (auto intro: yields_mono [OF parse_yields])

end

interpretation lexer: tokenizer lex
  by unfold_locales (rule lex_yields)

section \<open>Back end\<close>

text \<open>A code generator: well-formed programs of bounded size that execute to the verdict.\<close>

locale code_generator =
  fixes gen :: "expanded_expr \<Rightarrow> link_type \<Rightarrow> u32 \<Rightarrow> ir_program res"
    and sem :: "link_type \<Rightarrow> expanded_expr \<Rightarrow> packet \<Rightarrow> bool option"
    and refused :: "link_type \<Rightarrow> expanded_expr \<Rightarrow> compile_error option"
    and cost :: nat
  assumes gen_wf: "gen x lt snaplen = Ok ir \<Longrightarrow> wf_program ir"
    and gen_exec: "gen x lt snaplen = Ok ir \<Longrightarrow>
      ir_exec p (prog_stream ir) 0 0 = Done (verdict snaplen (sem lt x p))"
    and gen_size: "gen x lt snaplen = Ok ir \<Longrightarrow>
      length (reals (prog_stream ir)) + prog_num_labels ir \<le> cost * leaves x + cost"
    and gen_outcome: "wf_expanded x \<Longrightarrow> expr_outcome (refused lt x) (gen x lt snaplen)"

text \<open>An assembler: its output runs the way the intermediate program executes.\<close>

locale assembler =
  fixes asm :: "ir_program \<Rightarrow> insn list res"
    and overflow :: "ir_program \<Rightarrow> compile_error option"
  assumes asm_runs: "wf_program ir \<Longrightarrow> small_program ir \<Longrightarrow> asm ir = Ok insns \<Longrightarrow>
      run insns p = outcome_value (ir_exec p (prog_stream ir) 0 0)"
    and asm_outcome: "wf_program ir \<Longrightarrow> small_program ir \<Longrightarrow> expr_outcome (overflow ir) (asm ir)"

locale back_end = code_generator + assembler +
  assumes cost_bound: "cost \<le> 64"
begin

definition backend_of :: "expanded_expr \<Rightarrow> link_type \<Rightarrow> u32 \<Rightarrow> insn list res" where
  "backend_of x lt snaplen = and_then (gen x lt snaplen) asm"

lemma small:
  assumes "gen x lt snaplen = Ok ir" and "leaves x < 2 ^ 25"
  shows "small_program ir" and "prog_num_labels ir < 2 ^ 32"
proof -
  have "cost * leaves x + cost \<le> 64 * leaves x + 64"
    using cost_bound by (intro add_mono mult_right_mono) auto
  with gen_size [OF assms(1)] assms(2) show "small_program ir" "prog_num_labels ir < 2 ^ 32"
    by (auto simp: small_program_def)
qed

lemma back_correct:
  assumes "backend_of x lt snaplen = Ok insns" and "leaves x < 2 ^ 25"
  shows "run insns p = verdict snaplen (sem lt x p)"
proof -
  obtain ir where ir: "gen x lt snaplen = Ok ir" and asm: "asm ir = Ok insns"
    using assms(1) by (auto simp: backend_of_def)
  then show ?thesis
    using asm_runs [OF gen_wf [OF ir] small(1) [OF ir assms(2)] asm, of p] gen_exec [OF ir, of p]
    by simp
qed

text \<open>The back end fails on a refused primitive or on a jump that is too long, and in no other way.\<close>

lemma back_outcome:
  assumes "wf_expanded x" and "leaves x < 2 ^ 25"
  shows "case refused lt x of
      Some e \<Rightarrow> backend_of x lt snaplen = Err e
    | None \<Rightarrow> (\<exists>ir. gen x lt snaplen = Ok ir \<and> expr_outcome (overflow ir) (backend_of x lt snaplen))"
proof (cases "refused lt x")
  case None
  then obtain ir where ir: "gen x lt snaplen = Ok ir"
    using gen_outcome [OF assms(1), of lt snaplen] by (auto simp: expr_outcome_def is_ok_Ok)
  with asm_outcome [OF gen_wf [OF ir] small(1) [OF ir assms(2)]] None show ?thesis
    by (simp add: backend_of_def)
next
  case (Some e)
  then show ?thesis
    using gen_outcome [OF assms(1), of lt snaplen] by (simp add: expr_outcome_def backend_of_def)
qed

lemma back_returns: "wf_expanded x \<Longrightarrow> leaves x < 2 ^ 25 \<Longrightarrow> returns (backend_of x lt snaplen)"
  using back_outcome [of x lt snaplen]
  by (auto simp: expr_outcome_def is_ok_Ok split: option.splits)

end

definition overflow_of :: "ir_program \<Rightarrow> compile_error option" where
  "overflow_of ir = first_overflow (prog_stream ir) 0 (reals (prog_stream ir))"

interpretation backend: back_end generate "\<lambda>lt. eval (mk_ctx lt)" first_refusal 41 assemble overflow_of
proof
  fix x lt snaplen ir p
  assume gen: "generate x lt snaplen = Ok ir"
  show "wf_program ir" by (rule generate_wf_program [OF gen])
  show "ir_exec p (prog_stream ir) 0 0 = Done (verdict snaplen (eval (mk_ctx lt) x p))"
    by (rule generate_exec [OF gen])
  show "length (reals (prog_stream ir)) + prog_num_labels ir \<le> 41 * leaves x + 41"
    using generate_size [OF gen] by simp
next
  fix x lt snaplen
  assume "wf_expanded x"
  then show "expr_outcome (first_refusal lt x) (generate x lt snaplen)" by (rule generate_outcome)
next
  fix ir insns p
  assume ir: "wf_program ir" "small_program ir"
  show "assemble ir = Ok insns \<Longrightarrow> run insns p = outcome_value (ir_exec p (prog_stream ir) 0 0)"
    by (rule assemble_refines [OF ir])
  show "expr_outcome (overflow_of ir) (assemble ir)"
    using assemble_outcome [OF ir]
    by (auto simp: expr_outcome_def overflow_of_def is_ok_Ok split: option.splits)
qed simp

section \<open>The pipeline\<close>

lemma compile_stages:
  "compile src lt snaplen =
     and_then (lexer.front src) (\<lambda>e.
     and_then (expand e) (\<lambda>x.
     and_then (backend.backend_of x lt snaplen) (\<lambda>insns. Ok (from_validated insns))))"
  by (simp add: compile_def lexer.front_def backend.backend_of_def and_then_assoc)

text \<open>Sources below \<open>2 ^ 22\<close> characters keep every counter of the back end within its 32 bits.\<close>

definition max_source :: nat where
  "max_source = 2 ^ 22"

lemma front_leaves:
  assumes "length src < max_source" and "lexer.front src = Ok e" and "expand e = Ok x"
  shows "wf_expr e" and "wf_expanded x" and "leaves x < 2 ^ 25"
proof -
  have e: "wf_expr e" "expr_leaves e \<le> Suc (length src)"
    using yields_Ok [OF lexer.front_yields assms(2)] by auto
  then show "wf_expr e" "wf_expanded x" using expand_wf [OF assms(3)] by auto
  show "leaves x < 2 ^ 25"
    using expand_leaves [OF assms(3)] e(2) assms(1) by (simp add: max_source_def)
qed

lemma compile_Ok:
  assumes "length src < max_source" and "compile src lt snaplen = Ok prog"
  obtains e where "lexer.front src = Ok e" and "wf_expr e"
    and "\<And>p. program_run prog p = verdict snaplen (source_eval (mk_ctx lt) e p)"
proof -
  obtain e x insns where e: "lexer.front src = Ok e" and x: "expand e = Ok x"
    and insns: "backend.backend_of x lt snaplen = Ok insns" and prog: "prog = from_validated insns"
    using assms(2) by (auto simp: compile_stages)
  note small = front_leaves [OF assms(1) e x]
  have "program_run prog p = verdict snaplen (source_eval (mk_ctx lt) e p)" for p
    using backend.back_correct [OF insns small(3)] expand_eval [OF x]
    by (simp add: prog program_run_def from_validated_def)
  with e small(1) show thesis by (rule that)
qed

lemma compile_returns:
  assumes "length src < max_source"
  shows "returns (compile src lt snaplen)"
proof -
  have "returns (and_then (expand e) (\<lambda>x.
      and_then (backend.backend_of x lt snaplen) (\<lambda>insns. Ok (from_validated insns))))"
    if "lexer.front src = Ok e" for e
  proof -
    obtain x where x: "expand e = Ok x" using expand_total by blast
    from backend.back_returns [OF front_leaves(2,3) [OF assms that x]] show ?thesis by (auto simp: x)
  qed
  then show ?thesis
    unfolding compile_stages using yields_returns [OF lexer.front_yields] by blast
qed

section \<open>Outcomes of a compilation\<close>

lemma front_eq: "lex src = Ok toks \<Longrightarrow> parse toks = Ok e \<Longrightarrow> lexer.front src = Ok e"
  by (simp add: lexer.front_def)

lemma compile_run:
  assumes "length src < max_source" and "lex src = Ok toks" and "parse toks = Ok e"
    and "compile src lt snaplen = Ok prog"
  shows "program_run prog p = verdict snaplen (source_eval (mk_ctx lt) e p)"
  using compile_Ok [OF assms(1,4)] front_eq [OF assms(2,3)] by (metis result.inject(1))

text \<open>A parsed source fails on its leftmost refused primitive, else on its first jump that is too long.\<close>

lemma compile_parsed_outcome:
  assumes "length src < max_source" and "lex src = Ok toks" and "parse toks = Ok e"
  shows "case source_refusal lt e of
      Some err \<Rightarrow> compile src lt snaplen = Err err
    | None \<Rightarrow>
        (\<exists>x ir. expand e = Ok x \<and> generate x lt snaplen = Ok ir \<and>
           (case overflow_of ir of
              Some err \<Rightarrow> compile src lt snaplen = Err err
            | None \<Rightarrow> is_ok (compile src lt snaplen)))"
proof -
  obtain x where x: "expand e = Ok x" using expand_total by blast
  note front = front_eq [OF assms(2,3)]
  note out = backend.back_outcome [OF front_leaves(2,3) [OF assms(1) front x], of lt snaplen]
  have comp: "compile src lt snaplen =
      and_then (backend.backend_of x lt snaplen) (\<lambda>insns. Ok (from_validated insns))"
    by (simp add: compile_stages front x)
  show ?thesis
    using out
    by (auto simp: comp x expr_outcome_def is_ok_Ok expand_refusal [OF x, symmetric] split: option.splits)
qed

lemma compile_not_refused:
  assumes "length src < max_source" and "lex src = Ok toks" and "parse toks = Ok e"
    and "compile src lt snaplen = Ok prog"
  shows "source_refusal lt e = None"
  using compile_parsed_outcome [OF assms(1-3), of lt snaplen] assms(4) by (auto split: option.splits)

lemma compile_says:
  assumes "length src < max_source" and "lex src = Ok toks" and "parse toks = Ok e"
    and "compile src lt snaplen = Ok prog" and "long_enough p"
  shows "program_run prog p = (if says lt e p then snaplen else 0)"
proof -
  have "wf_expr e"
    using yields_Ok [OF lexer.front_yields front_eq [OF assms(2,3)]] by simp
  from source_eval_says [OF assms(5) this compile_not_refused [OF assms(1-4)]]
  show ?thesis using compile_run [OF assms(1-4), of p] by (simp add: verdict_def)
qed

section \<open>The empty packet\<close>

text \<open>Every leaf reads the packet first, so nothing is decided on an empty one, not even a negation.\<close>

lemma read_empty [simp]: "read_u8 [] i = None" "read_u16 [] i = None" "read_u32 [] i = None"
  by (simp_all add: read_u8_def read_u16_def read_u32_def get_def get_range_def checked_add_def)

lemma eval_gates_empty [simp]: "eval_gates ctx et f proto [] = None"
  by (simp add: eval_gates_def eval_l3_def split: option.split)

lemma eval_leaf_empty: "eval_primitive ctx c [] = None" "eval_ether ctx kind [] = None"
proof -
  have "eval_port ctx proto d lo hi [] = None" for proto d lo hi
    by (cases "port_proto_num proto (Range 0 0)")
       (auto simp: eval_port_def eval_port4_def eval_port4_gates_def)
  moreover have "eval_addr ctx proto d addr prefix [] = None" for proto d addr prefix
    by (cases addr; cases "addr_gates proto (Range 0 0)") (auto simp: eval_addr_def)
  ultimately show "eval_primitive ctx c [] = None"
    by (cases "cp_ty c") (simp_all add: eval_primitive_def)
  have "eval_mac f m [] = None" for f m by (cases m) simp
  then show "eval_ether ctx kind [] = None"
    by (auto simp: eval_ether_def split: ether_kind.split option.split)
qed

lemma source_eval_empty: "source_eval ctx e [] = None"
proof (induction e)
  case (EPrimitive pr)
  have "resolutions pr \<noteq> []" using resolutions_length [of pr] by auto
  then show ?case by (cases "resolutions pr") (simp_all add: eval_leaf_empty)
qed (simp_all add: eval_leaf_empty not3_def)

section \<open>Bare IPv4 addresses without an ethertype\<close>

lemma raw_bare_v4_refused:
  assumes "prim_proto pr = None" and "prim_ty pr \<in> {Host (V4 a), Net (V4 a) n}"
  shows "source_refusal Raw (EPrimitive pr) = Some (refuse (prim_offset pr) NeedsEthertype)"
proof -
  obtain d ds where d: "default_dirs pr = d # ds"
    using default_dirs_length [of pr] by (cases "default_dirs pr") auto
  have ip: "first_error (map (\<lambda>c. map_option f (leaf_refusal Raw c)) (map (\<lambda>d.
      \<lparr>cp_proto = CIp, cp_dir = d, cp_ty = prim_ty pr, cp_offset = prim_offset pr\<rparr>) dd) @ es) =
      first_error es" for f dd and es :: "compile_error option list"
    using assms(2)
    by (induction dd) (auto simp: leaf_refusal_def address_refusal_def)
  have "default_protos pr = [CIp, CArp, CRarp]" using assms by (auto simp: default_protos_def)
  then show ?thesis
    using ip assms(2)
    by (auto simp: resolutions_def d leaf_refusal_def address_refusal_def has_ethertype_def)
qed

end
