(* ===== verification/Validated.thy ===== *)
theory Validated
  imports CompileCorrect VmCorrect
begin

text \<open>
  What \<open>from_validated\<close> relies on: the rules a kernel imposes on a filter before it runs it. Every
  assembled program keeps them, and the interpreter never leaves a program that keeps them.
\<close>

section \<open>Valid programs\<close>

definition jump_targets :: "nat \<Rightarrow> insn \<Rightarrow> nat set" where
  "jump_targets pc i =
     (case decode i of
        Ja v \<Rightarrow> {pc + 1 + unat v}
      | Jeq v \<Rightarrow> {pc + 1 + unat (i_jt i), pc + 1 + unat (i_jf i)}
      | Jgt v \<Rightarrow> {pc + 1 + unat (i_jt i), pc + 1 + unat (i_jf i)}
      | Jge v \<Rightarrow> {pc + 1 + unat (i_jt i), pc + 1 + unat (i_jf i)}
      | Jset v \<Rightarrow> {pc + 1 + unat (i_jt i), pc + 1 + unat (i_jf i)}
      | _ \<Rightarrow> {})"

definition valid_program :: "insn list \<Rightarrow> bool" where
  "valid_program insns \<longleftrightarrow>
     insns \<noteq> [] \<and> (\<exists>v. decode (last insns) = Ret v) \<and>
     (\<forall>pc < length insns. decode (insns ! pc) \<noteq> Unknown \<and>
        jump_targets pc (insns ! pc) \<subseteq> {..<length insns})"

section \<open>The interpreter stays inside\<close>

text \<open>A step that goes on goes to a jump target, or to the next instruction.\<close>

lemma vm_step_pc:
  assumes "vm_step insns packet s = Continue s'"
  shows "reg_pc s' \<in> jump_targets (reg_pc s) (insns ! reg_pc s) \<or>
    reg_pc s' = reg_pc s + 1 \<and> (\<forall>v. decode (insns ! reg_pc s) \<noteq> Ret v)"
  using assms
  by (auto simp: vm_step_def load_a_def branch_def step_def checked_add_def jump_targets_def get_def
      split: option.splits op.splits if_splits)

lemma valid_reaches:
  assumes "valid_program insns"
  shows "reaches insns packet n s \<Longrightarrow> reg_pc s < length insns"
proof (induction rule: reaches.induct)
  case reaches_init
  then show ?case using assms by (simp add: valid_program_def vm_init_def)
next
  case (reaches_step n s s')
  show ?case
  proof (cases "reg_pc s' \<in> jump_targets (reg_pc s) (insns ! reg_pc s)")
    case True
    then show ?thesis using assms reaches_step.IH by (auto simp: valid_program_def)
  next
    case False
    then have "reg_pc s' = reg_pc s + 1" "\<forall>v. decode (insns ! reg_pc s) \<noteq> Ret v"
      using vm_step_pc [OF reaches_step(2)] by auto
    moreover from this(2) have "insns ! reg_pc s \<noteq> last insns"
      using assms by (auto simp: valid_program_def)
    ultimately show ?thesis
      using reaches_step.IH by (cases insns rule: rev_cases) (auto simp: nth_append split: if_splits)
  qed
qed

section \<open>Assembled programs are valid\<close>

text \<open>The targets of a lowered instruction are the indices of its labels.\<close>

lemma lower_valid:
  assumes "lower j i offsets = Ok insn" and "resolved ops j i offsets"
    and "\<forall>l \<in> targets (ir_op2 i). j + 1 \<le> target_index ops l \<and> target_index ops l < 2 ^ 32"
  shows "decode insn \<noteq> Unknown" and "jump_targets j insn = target_index ops ` targets (ir_op2 i)"
proof -
  have small: "n < 256 \<Longrightarrow> unat (of_nat n :: u8) = n" for n
    by (simp add: unat_of_nat)
  have wide: "n < 4294967296 \<Longrightarrow> unat (of_nat n :: u32) = n" for n
    by (simp add: unat_of_nat)
  show "decode insn \<noteq> Unknown"
    using assms(1)
    by (auto simp: lower_def resolve_pair_def split: ir_op2.splits)
  define d where "d = displacement ops j"
  have d: "displacement_from j l offsets = Ok (d l)" "target_index ops l = j + 1 + d l"
      "d l < 4294967296"
    if "l \<in> targets (ir_op2 i)" for l
    using assms(2,3) that by (auto simp: d_def resolved_def displacement_def)
  show "jump_targets j insn = target_index ops ` targets (ir_op2 i)"
    using assms(1) d
    by (cases "ir_op2 i")
       (auto simp: lower_def resolve_pair_def resolve_branch_def resolve_jmp_def jump_targets_def
         small wide split: if_splits)
qed

lemma target_index_inside:
  assumes "l \<in> set (mark_list ops)"
  shows "target_index (ops @ [Real r]) l < length (reals (ops @ [Real r]))"
proof -
  have "\<not> (\<forall>i \<in> set ops. i \<noteq> Mark l)" using assms by (auto simp: mark_list_set)
  then have "takeWhile (\<lambda>i. i \<noteq> Mark l) (ops @ [Real r]) = takeWhile (\<lambda>i. i \<noteq> Mark l) ops"
    by (intro takeWhile_append1) auto
  moreover have "reals ops = reals (takeWhile (\<lambda>i. i \<noteq> Mark l) ops) @ reals (dropWhile (\<lambda>i. i \<noteq> Mark l) ops)"
    by (simp flip: reals_append)
  then have "length (reals (takeWhile (\<lambda>i. i \<noteq> Mark l) ops)) \<le> length (reals ops)"
    by (metis le_add1 length_append)
  ultimately show ?thesis by (simp add: target_index_def)
qed

text \<open>An intermediate program that ends in a return is assembled to a valid program.\<close>

lemma assemble_valid:
  assumes wf: "wf_program ir" "small_program ir" and asm: "assemble ir = Ok insns"
    and stream: "prog_stream ir = ops @ [Real r]" "ir_op2 r = IrRet v"
  shows "valid_program insns"
proof -
  obtain offsets where a: "assembled (prog_stream ir) offsets insns"
    using assemble_assembled [OF wf asm] by blast
  let ?N = "length (reals (prog_stream ir))"
  have len: "length insns = ?N" "0 < ?N" "?N < 2 ^ 32"
    using a wf(2) by (simp_all add: assembled_def small_program_def stream)
  have valid: "decode (insns ! j) \<noteq> Unknown \<and> jump_targets j (insns ! j) \<subseteq> {..<?N}" if "j < ?N" for j
  proof -
    have res: "resolved (prog_stream ir) j (reals (prog_stream ir) ! j) offsets"
      using a by (intro resolved_insn [OF wf _ that]) (simp add: assembled_def)
    have low: "lower j (reals (prog_stream ir) ! j) offsets = Ok (insns ! j)"
      using a that by (simp add: assembled_def)
    have inside: "j + 1 \<le> target_index (prog_stream ir) l \<and> target_index (prog_stream ir) l < ?N"
      if l: "l \<in> targets (ir_op2 (reals (prog_stream ir) ! j))" for l
    proof -
      have "l \<in> set (mark_list (prog_stream ir)) \<and> j + 1 \<le> target_index (prog_stream ir) l"
        using scoped_forward [OF _ _ \<open>j < ?N\<close> l] a by (simp add: assembled_def)
      then show ?thesis using target_index_inside [of l ops r] by (simp add: stream(1))
    qed
    then have "\<forall>l \<in> targets (ir_op2 (reals (prog_stream ir) ! j)).
        j + 1 \<le> target_index (prog_stream ir) l \<and> target_index (prog_stream ir) l < 2 ^ 32"
      using len(3) by fastforce
    from lower_valid [OF low res this] inside show ?thesis by auto
  qed
  have "lower (?N - 1) r offsets = Ok (insns ! (?N - 1))"
    using a len by (auto simp: assembled_def stream(1) nth_append dest: spec [of _ "length (reals ops)"])
  then have "insns ! (?N - 1) = ret v" by (simp add: lower_def stream(2))
  moreover have "insns \<noteq> []" using len by auto
  ultimately have "decode (last insns) = Ret v" using len(1) by (simp add: last_conv_nth)
  with valid len \<open>insns \<noteq> []\<close> show ?thesis by (auto simp: valid_program_def)
qed

lemma generate_ends:
  assumes "generate x lt snaplen = Ok ir"
  obtains ops where "prog_stream ir = ops @ [Real \<lparr>ir_op2 = IrRet 0, ir_offset = Range 0 0\<rparr>]"
proof (rule generate_stream [OF assms])
  fix ops
  assume "prog_stream ir = ops @ [Mark (Label 0), Real \<lparr>ir_op2 = IrRet snaplen, ir_offset = Range 0 0\<rparr>,
       Mark (Label 1), Real \<lparr>ir_op2 = IrRet 0, ir_offset = Range 0 0\<rparr>]"
  then show thesis
    by (intro that [of "ops @ [Mark (Label 0), Real \<lparr>ir_op2 = IrRet snaplen, ir_offset = Range 0 0\<rparr>,
       Mark (Label 1)]"]) simp
qed

lemma compile_valid:
  assumes "length src < max_source" and "compile src lt snaplen = Ok prog"
  shows "valid_program (prog_insns prog)"
proof -
  obtain e x ir insns where e: "lexer.front src = Ok e" and x: "expand e = Ok x"
    and ir: "generate x lt snaplen = Ok ir" and insns: "assemble ir = Ok insns"
    and prog: "prog = from_validated insns"
    using assms(2) by (auto simp: compile_stages backend.backend_of_def)
  have "small_program ir"
    using backend.small(1) [OF ir front_leaves(3) [OF assms(1) e x]] .
  moreover obtain ops where "prog_stream ir = ops @ [Real \<lparr>ir_op2 = IrRet 0, ir_offset = Range 0 0\<rparr>]"
    using generate_ends [OF ir] .
  ultimately show ?thesis
    using assemble_valid [OF generate_wf_program [OF ir] _ insns] by (simp add: prog from_validated_def)
qed

section \<open>Accepted packets\<close>

text \<open>A packet of any length that is accepted satisfies the expression when it is padded with zeros.\<close>

lemma compile_accepts:
  assumes "length src < max_source" and "lex src = Ok toks" and "parse toks = Ok e"
    and "compile src lt snaplen = Ok prog" and "program_matches prog p"
  shows "says lt e (p @ replicate 80 0)"
proof -
  have "program_run prog (p @ replicate 80 0) \<noteq> 0"
    using assms(5) run_append [of "prog_insns prog" p] by (simp add: program_matches_def program_run_def)
  moreover have "long_enough (p @ replicate 80 0)" by (simp add: long_enough_def)
  ultimately show ?thesis using compile_says [OF assms(1-4)] by metis
qed

end
