(* ===== verification/Examples.thy ===== *)
theory Examples
  imports CompileCorrect Grammar Literals VmCorrect
begin

text \<open>
  Concrete compilations, evaluated by the simplifier stage by stage: \<open>ether multicast\<close> and
  \<open>tcp dst port 80\<close> on Ethernet. The root theory applies its conditional properties to them.
\<close>

section \<open>ether multicast\<close>

abbreviation multicast_src :: rstr where
  "multicast_src \<equiv> ascii ''ether multicast''"

abbreviation multicast_tokens :: "token list" where
  "multicast_tokens \<equiv>
     [mk_token (Word ''ether'') 0 5, mk_token (Word ''multicast'') 6 15, mk_token Eof 15 15]"

abbreviation multicast_kind :: ether_primitive where
  "multicast_kind \<equiv> \<lparr>ether_kind = EtherMulticast, ether_offset = Range 0 15\<rparr>"

abbreviation multicast_ir :: ir_program where
  "multicast_ir \<equiv>
     \<lparr>prog_stream =
        [Real \<lparr>ir_op2 = IrLdbAbs ETH_DST_MAC_OFFSET, ir_offset = Range 0 15\<rparr>,
         Real \<lparr>ir_op2 = IrJset 1 (Label 0) (Label (Suc 0)), ir_offset = Range 0 15\<rparr>,
         Mark (Label 0), Real \<lparr>ir_op2 = IrRet 100, ir_offset = Range 0 0\<rparr>,
         Mark (Label (Suc 0)), Real \<lparr>ir_op2 = IrRet 0, ir_offset = Range 0 0\<rparr>],
      prog_num_labels = Suc (Suc 0)\<rparr>"

abbreviation multicast_insns :: "insn list" where
  "multicast_insns \<equiv> [ldb_abs 0, jset 1 0 1, ret 100, ret 0]"

lemma lex_multicast: "lex multicast_src = Ok multicast_tokens"
  by (simp add: lex_def ascii_def lex_loop.simps is_whitespace_def is_word_char_code,
      simp add: char_of_def, simp add: numeral_eq_Suc bit_0)

lemmas token_steps =
  parse_def parse_fuel_def mk_token_def peek_def get_def word_at_def tag_word_def parse_leaf_def
  expect_word_def advance_def prev_end_def expect_eof_def

lemma parse_multicast: "parse multicast_tokens = Ok (EEther multicast_kind)"
  by (simp add: token_steps parser_simps numeral_eq_Suc parse_ether_primitive_def
      parse_ether_kind_def finish_ether_def)

lemmas emit_steps =
  generate_def new_label_def Let_def emit_def place_def finish_def new_builder_def mk_branch_def

lemma generate_multicast: "generate (EtherLeaf multicast_kind) Ethernet 100 = Ok multicast_ir"
  by (simp add: emit_steps compile_ether_def compile_ether_multicast_def)

lemmas lower_steps =
  assemble_def lower_def resolve_pair_def resolve_branch_def displacement_from_def get_def Let_def

lemma assemble_multicast: "assemble multicast_ir = Ok multicast_insns"
  by (simp add: lower_steps ETH_DST_MAC_OFFSET_def)

lemma compile_multicast: "compile multicast_src Ethernet 100 = Ok (from_validated multicast_insns)"
  by (simp only: compile_def lex_multicast parse_multicast generate_multicast assemble_multicast
      and_then.simps expand.simps)

lemma small_multicast: "length multicast_src < max_source"
  by (simp add: ascii_def max_source_def)

section \<open>tcp dst port 80\<close>

abbreviation port_src :: rstr where
  "port_src \<equiv> ascii ''tcp dst port 80''"

abbreviation port_tokens :: "token list" where
  "port_tokens \<equiv>
     [mk_token (Word ''tcp'') 0 3, mk_token (Word ''dst'') 4 7, mk_token (Word ''port'') 8 12,
      mk_token (Word ''80'') 13 15, mk_token Eof 15 15]"

abbreviation port_primitive :: primitive where
  "port_primitive \<equiv>
     \<lparr>prim_proto = Some ProtoTcp, prim_dir = Some Dst, prim_ty = Port 80, prim_offset = Range 0 15\<rparr>"

abbreviation port_leaf :: compiled_primitive where
  "port_leaf \<equiv> \<lparr>cp_proto = CTcp, cp_dir = Dst, cp_ty = Port 80, cp_offset = Range 0 15\<rparr>"

abbreviation port_at :: "ir_op2 \<Rightarrow> ir_op" where
  "port_at op \<equiv> Real \<lparr>ir_op2 = op, ir_offset = Range 0 15\<rparr>"

abbreviation port_ir :: ir_program where
  "port_ir \<equiv>
     \<lparr>prog_stream =
        [port_at (IrLdhAbs 12), port_at (IrJeq 0x800 (Label 3) (Label 2)), Mark (Label 3),
         port_at (IrLdbAbs 23), port_at (IrJeq 6 (Label 4) (Label 2)), Mark (Label 4),
         port_at (IrLdhAbs 20), port_at (IrJset 0x1fff (Label 2) (Label 5)), Mark (Label 5),
         port_at (IrLdxMsh 14), port_at (IrLdhInd 16), port_at (IrJeq 80 (Label 0) (Label 2)),
         Mark (Label 2),
         port_at (IrLdhAbs 12), port_at (IrJeq 0x86dd (Label 6) (Label 1)), Mark (Label 6),
         port_at (IrLdbAbs 20), port_at (IrJeq 6 (Label 7) (Label 1)), Mark (Label 7),
         port_at (IrLdhAbs 56), port_at (IrJeq 80 (Label 0) (Label 1)),
         Mark (Label 0), Real \<lparr>ir_op2 = IrRet 100, ir_offset = Range 0 0\<rparr>,
         Mark (Label 1), Real \<lparr>ir_op2 = IrRet 0, ir_offset = Range 0 0\<rparr>],
      prog_num_labels = 8\<rparr>"

abbreviation port_insns :: "insn list" where
  "port_insns \<equiv>
     [ldh_abs 12, jeq 0x800 0 7, ldb_abs 23, jeq 6 0 5, ldh_abs 20, jset 0x1fff 3 0,
      ldx_msh 14, ldh_ind 16, jeq 80 6 0,
      ldh_abs 12, jeq 0x86dd 0 5, ldb_abs 20, jeq 6 0 3, ldh_abs 56, jeq 80 0 1,
      ret 100, ret 0]"

lemma lex_port_src: "lex port_src = Ok port_tokens"
  by (simp add: lex_def ascii_def lex_loop.simps is_whitespace_def is_word_char_code,
      simp add: char_of_def, simp add: numeral_eq_Suc bit_0)

lemma show_80: "show_dec 80 = ''80''"
  by (simp add: show_dec_def digits.simps [of 10] digit_char_def,
      simp add: char_of_def, simp add: numeral_eq_Suc bit_0)

lemma parse_port_80: "parse_port ''80'' ofs = Ok 80"
  using parse_port_show [of 80 ofs] by (simp add: show_80)

lemma parse_port_tokens: "parse port_tokens = Ok (EPrimitive port_primitive)"
  by (simp add: token_steps parser_simps numeral_eq_Suc parse_primitive_def try_parse_proto_def
      try_parse_dir_def try_keyword_def proto_keyword_def dir_keyword_def parse_type_def
      parse_port_80)

lemma expand_port: "expand (EPrimitive port_primitive) = Ok (Leaf port_leaf)"
  by (simp add: expand_primitive_def primitive_leaves_def default_dirs_def default_protos_def
      mk_leaf_def)

lemma generate_port: "generate (Leaf port_leaf) Ethernet 100 = Ok port_ir"
  by (simp add: emit_steps compile_primitive_def compile_port_def port_proto_num_def
      compile_port4_def compile_port6_def emit_ethertype_and_proto_gates_def emit_l3_gate_def
      gate_ldh_eq_def gate_ldb_eq_def mk_ctx_def emit_not_fragment_gate_def
      emit_port_terminal_def emit_port6_terminal_def emit_port_compare_def port_rel_def
      codegen_constants)

lemma assemble_port: "assemble port_ir = Ok port_insns"
  by (simp add: lower_steps)

lemma compile_port_src: "compile port_src Ethernet 100 = Ok (from_validated port_insns)"
  by (simp only: compile_def lex_port_src parse_port_tokens expand_port generate_port assemble_port
      and_then.simps)

lemma small_port: "length port_src < max_source"
  by (simp add: ascii_def max_source_def)

text \<open>A TCP segment to port 80 in an Ethernet frame of 100 bytes.\<close>

definition tcp80_packet :: packet where
  "tcp80_packet =
     replicate 12 0 @ [0x08, 0x00, 0x45] @ replicate 5 0 @ [0x40, 0x00, 64, 6] @ replicate 10 0 @
     [0xc0, 0x01, 0, 80] @ replicate 62 0"

lemma tcp80_long: "long_enough tcp80_packet"
  by (simp add: long_enough_def tcp80_packet_def)

lemma tcp80_bytes:
  "byte tcp80_packet 12 = 8" "byte tcp80_packet 13 = 0" "byte tcp80_packet 14 = 0x45"
  "byte tcp80_packet 20 = 64" "byte tcp80_packet 21 = 0" "byte tcp80_packet 23 = 6"
  "byte tcp80_packet 36 = 0" "byte tcp80_packet 37 = 80"
  by (simp_all add: byte_def tcp80_packet_def nth_append)

lemma tcp80_says: "says Ethernet (EPrimitive port_primitive) tcp80_packet"
  unfolding says.simps
  by (rule exI [of _ port_leaf])
     (simp add: stands_for_def says_primitive_def says_port_def is_ip4_def ethertype_field_def l3_def
       ip4_protocol_def fragment_offset_def ip4_header_bytes_def be_2 tcp80_bytes)

section \<open>host 1.1.1.1\<close>

abbreviation host_src :: rstr where
  "host_src \<equiv> ascii ''host 1.1.1.1''"

abbreviation host_tokens :: "token list" where
  "host_tokens \<equiv> [mk_token (Word ''host'') 0 4, mk_token (Word ''1.1.1.1'') 5 12, mk_token Eof 12 12]"

abbreviation host_primitive :: primitive where
  "host_primitive \<equiv>
     \<lparr>prim_proto = None, prim_dir = None, prim_ty = Host (V4 0x01010101), prim_offset = Range 0 12\<rparr>"

lemma lex_host: "lex host_src = Ok host_tokens"
  by (simp add: lex_def ascii_def lex_loop.simps is_whitespace_def is_word_char_code,
      simp add: char_of_def, simp add: numeral_eq_Suc bit_0)

lemma dotted_1: "dotted 1 1 1 1 = ''1.1.1.1''"
  by (simp add: dotted_def show_dec_def digits.simps [of 10] digit_char_def,
      simp add: char_of_def, simp add: numeral_eq_Suc bit_0)

lemma parse_addr_1: "parse_addr_literal ''1.1.1.1'' ofs False = Ok (V4 0x01010101, None)"
  using parse_addr_dotted [of 1 1 1 1 ofs False] by (simp add: dotted_1 u32_from_be_bytes_def)

lemma parse_host: "parse host_tokens = Ok (EPrimitive host_primitive)"
  by (simp add: token_steps parser_simps numeral_eq_Suc parse_primitive_def try_parse_proto_def
      try_parse_dir_def try_keyword_def proto_keyword_def dir_keyword_def parse_type_def
      parse_addr_1)

lemma small_host: "length host_src < max_source"
  by (simp add: ascii_def max_source_def)

section \<open>port 80 or port 80 or port 80 or port 80\<close>

abbreviation ports_src :: rstr where
  "ports_src \<equiv> ascii ''port 80 or port 80 or port 80 or port 80''"

abbreviation ports_tokens :: "token list" where
  "ports_tokens \<equiv>
     [mk_token (Word ''port'') 0 4, mk_token (Word ''80'') 5 7, mk_token (Word ''or'') 8 10,
      mk_token (Word ''port'') 11 15, mk_token (Word ''80'') 16 18, mk_token (Word ''or'') 19 21,
      mk_token (Word ''port'') 22 26, mk_token (Word ''80'') 27 29, mk_token (Word ''or'') 30 32,
      mk_token (Word ''port'') 33 37, mk_token (Word ''80'') 38 40, mk_token Eof 40 40]"

abbreviation port_from :: "nat \<Rightarrow> nat \<Rightarrow> expr" where
  "port_from i j \<equiv>
     EPrimitive \<lparr>prim_proto = None, prim_dir = None, prim_ty = Port 80, prim_offset = Range i j\<rparr>"

abbreviation ports_expr :: expr where
  "ports_expr \<equiv>
     EOr (EOr (EOr (port_from 0 7) (port_from 11 18) (Range 0 18)) (port_from 22 29) (Range 0 29))
       (port_from 33 40) (Range 0 40)"

lemma lex_ports: "lex ports_src = Ok ports_tokens"
  by (simp add: lex_def ascii_def lex_loop.simps is_whitespace_def is_word_char_code,
      simp add: char_of_def, simp add: numeral_eq_Suc bit_0)

lemma parse_ports: "parse ports_tokens = Ok ports_expr"
  by (simp add: token_steps parser_simps numeral_eq_Suc parse_primitive_def try_parse_proto_def
      try_parse_dir_def try_keyword_def proto_keyword_def dir_keyword_def parse_type_def join_offset_def
      parse_port_80)

lemma small_ports: "length ports_src < max_source"
  by (simp add: ascii_def max_source_def)

section \<open>Turns of the interpreter\<close>

lemma first_turn: "reaches multicast_insns [1] 1 (vm_init\<lparr>reg_a := 1, reg_pc := 1\<rparr>)"
  using reaches_step [OF reaches_init, of multicast_insns "[1]"]
  by (simp add: vm_step_def vm_init_def get_def ldb_abs_def mk_insn_def decode_def bpf_fields load_a_def read_u8_def)

lemma msh_turn: "reaches [ldx_msh 0, ret 0] [0x45] 1 (vm_init\<lparr>reg_x := 20, reg_pc := 1\<rparr>)"
  using reaches_step [OF reaches_init, of "[ldx_msh 0, ret 0]" "[0x45]"]
  by (simp add: vm_step_def vm_init_def get_def ldx_msh_def mk_insn_def decode_def bpf_fields load_a_def read_u8_def)

end
