(* ===== verification/Printing.thy ===== *)
theory Printing
  imports Grammar Literals CompileCorrect
begin

text \<open>
  The concrete syntax of an expression, and the proof that the front end reads it back: a printed
  expression is tokenized and parsed to the same tree, up to the byte ranges.
\<close>

section \<open>Printing\<close>

definition v4_octet :: "u32 \<Rightarrow> nat \<Rightarrow> u8" where
  "v4_octet a k = ucast (drop_bit k a)"

definition v6_groups :: "u128 \<Rightarrow> u16 list" where
  "v6_groups a = map (\<lambda>i. ucast (drop_bit (112 - 16 * i) a)) [0, 1, 2, 3, 4, 5, 6, 7]"

fun show_addr :: "addr_lit \<Rightarrow> string" where
  "show_addr (V4 a) = dotted (v4_octet a 24) (v4_octet a 16) (v4_octet a 8) (v4_octet a 0)"
| "show_addr (V6 a) = show_groups (v6_groups a)"

fun show_net :: "addr_lit \<Rightarrow> u8 option \<Rightarrow> string" where
  "show_net a None = show_addr a"
| "show_net a (Some n) = show_addr a @ ''/'' @ show_dec (unat n)"

fun type_tags :: "prim_type \<Rightarrow> token_tag list" where
  "type_tags (Host a) = [Word ''host'', Word (show_addr a)]"
| "type_tags (Net a n) = [Word ''net'', Word (show_net a n)]"
| "type_tags (Port q) = [Word ''port'', Word (show_dec (unat q))]"
| "type_tags (PortRange lo hi) =
     [Word ''portrange'', Word (show_dec (unat lo)), Dash, Word (show_dec (unat hi))]"

fun proto_word :: "proto_tag \<Rightarrow> string" where
  "proto_word ProtoIp = ''ip''"
| "proto_word ProtoIp6 = ''ip6''"
| "proto_word ProtoArp = ''arp''"
| "proto_word ProtoTcp = ''tcp''"
| "proto_word ProtoUdp = ''udp''"
| "proto_word ProtoIcmp = ''icmp''"

fun dir_word :: "dir_tag \<Rightarrow> string" where
  "dir_word Src = ''src''"
| "dir_word Dst = ''dst''"

fun optional :: "('a \<Rightarrow> string) \<Rightarrow> 'a option \<Rightarrow> token_tag list" where
  "optional f None = []"
| "optional f (Some x) = [Word (f x)]"

definition primitive_tags :: "primitive \<Rightarrow> token_tag list" where
  "primitive_tags p =
     optional proto_word (prim_proto p) @ optional dir_word (prim_dir p) @ type_tags (prim_ty p)"

fun ether_tags :: "ether_kind \<Rightarrow> token_tag list" where
  "ether_tags (EtherHost m None) = [Word ''ether'', Word ''host'', Word (show_mac m)]"
| "ether_tags (EtherHost m (Some d)) =
     [Word ''ether'', Word (dir_word d), Word ''host'', Word (show_mac m)]"
| "ether_tags (EtherProto v) = [Word ''ether'', Word ''proto'', Word (''0x'' @ show_hex (unat v))]"
| "ether_tags EtherBroadcast = [Word ''ether'', Word ''broadcast'']"
| "ether_tags EtherMulticast = [Word ''ether'', Word ''multicast'']"

text \<open>Operands of connectives are put in parentheses unless they are primitives.\<close>

fun enclose :: "expr \<Rightarrow> token_tag list \<Rightarrow> token_tag list" where
  "enclose (EPrimitive p) ts = ts"
| "enclose (EEther e) ts = ts"
| "enclose e ts = LParen # ts @ [RParen]"

fun expr_tags :: "expr \<Rightarrow> token_tag list" where
  "expr_tags (EPrimitive p) = primitive_tags p"
| "expr_tags (EEther e) = ether_tags (ether_kind e)"
| "expr_tags (ENot e ofs) = Word ''not'' # enclose e (expr_tags e)"
| "expr_tags (EAnd l r ofs) = enclose l (expr_tags l) @ Word ''and'' # enclose r (expr_tags r)"
| "expr_tags (EOr l r ofs) = enclose l (expr_tags l) @ Word ''or'' # enclose r (expr_tags r)"

fun tag_text :: "token_tag \<Rightarrow> string" where
  "tag_text (Word w) = w"
| "tag_text Dash = ''-''"
| "tag_text LParen = ''(''"
| "tag_text RParen = '')''"
| "tag_text Eof = []"

definition tags_text :: "token_tag list \<Rightarrow> string" where
  "tags_text ts = concat (map (\<lambda>t. CHR '' '' # tag_text t) ts)"

definition show_expr :: "expr \<Rightarrow> string" where
  "show_expr e = tags_text (expr_tags e)"

text \<open>Byte ranges forgotten.\<close>

fun erase :: "expr \<Rightarrow> expr" where
  "erase (EPrimitive p) = EPrimitive (p\<lparr>prim_offset := Range 0 0\<rparr>)"
| "erase (EEther e) = EEther (e\<lparr>ether_offset := Range 0 0\<rparr>)"
| "erase (ENot e ofs) = ENot (erase e) (Range 0 0)"
| "erase (EAnd l r ofs) = EAnd (erase l) (erase r) (Range 0 0)"
| "erase (EOr l r ofs) = EOr (erase l) (erase r) (Range 0 0)"

section \<open>Addresses\<close>

lemma digit_step: "n div (2 ^ (k + j)) * 2 ^ j + n div 2 ^ k mod 2 ^ j = n div (2 ^ k)" for n :: nat
  unfolding power_add div_mult2_eq by (rule div_mult_mod_eq)

lemma horner:
  "a * 256 + b = c \<Longrightarrow> c * 256 + d = e \<Longrightarrow> e * 256 + f = n \<Longrightarrow>
   256 * (256 * (256 * a + b) + d) + f = n" for n :: nat
  by (auto simp: algebra_simps)

lemma v4_octets: "u32_from_be_bytes (v4_octet a 24) (v4_octet a 16) (v4_octet a 8) (v4_octet a 0) = a"
proof -
  have oct: "unat (v4_octet a k) = unat a div 2 ^ k mod 256" for k
    by (simp add: v4_octet_def unsigned_ucast_eq unat_drop_bit_eq drop_bit_eq_div [of _ "unat a"]
        take_bit_eq_mod)
  have top: "unat a div 2 ^ 24 mod 256 = unat a div 2 ^ 24"
    using u32_less [of a] by (simp add: less_mult_imp_div_less)
  have "unat a div 2 ^ 24 * 256 + unat a div 2 ^ 16 mod 256 = unat a div 2 ^ 16"
    "unat a div 2 ^ 16 * 256 + unat a div 2 ^ 8 mod 256 = unat a div 2 ^ 8"
    "unat a div 2 ^ 8 * 256 + unat a div 2 ^ 0 mod 256 = unat a"
    using digit_step [of "unat a" 16 8] digit_step [of "unat a" 8 8] by simp_all
  from horner [OF this] show ?thesis unfolding u32_from_be_bytes_def oct top by simp
qed

lemma v6_groups_length: "length (v6_groups a) = 8"
  by (simp add: v6_groups_def)

lemma v6_groups_read: "ipv6_of_groups (v6_groups a) = a"
proof -
  have grp: "unat (ucast (drop_bit k a) :: u16) = unat a div 2 ^ k mod 65536" for k
    by (simp add: unsigned_ucast_eq unat_drop_bit_eq drop_bit_eq_div [of _ "unat a"] take_bit_eq_mod)
  have "unat a < 2 ^ 128" using unsigned_less [of a, where ?'a = nat] by simp
  then have "unat a div 2 ^ 112 mod 65536 = unat a div 2 ^ 112"
    by (simp add: less_mult_imp_div_less)
  then have "foldl (\<lambda>acc g. acc * 65536 + g) 0 (map unat (v6_groups a)) = unat a"
    using digit_step [of "unat a" 96 16] digit_step [of "unat a" 80 16] digit_step [of "unat a" 64 16]
      digit_step [of "unat a" 48 16] digit_step [of "unat a" 32 16] digit_step [of "unat a" 16 16]
      grp [of 0]
    by (simp add: v6_groups_def grp)
  then show ?thesis by (simp add: ipv6_of_groups_def u128_of_groups_def)
qed

lemma parse_show_host: "parse_addr_literal (show_addr a) ofs allow = Ok (a, None)"
  by (cases a) (simp_all add: parse_addr_dotted v4_octets parse_addr_groups v6_groups_length v6_groups_read)

lemma full_width_bounds: "unat n \<le> 32 \<longleftrightarrow> n \<le> (32 :: u8)" "unat n \<le> 128 \<longleftrightarrow> n \<le> (128 :: u8)"
  by (simp_all add: word_le_nat_alt)

lemma parse_show_net:
  "wf_type (Net a n) \<Longrightarrow> parse_addr_literal (show_net a n) ofs True = Ok (a, n)"
proof (cases n)
  case (Some k)
  assume "wf_type (Net a n)"
  then show ?thesis
    using parse_addr_dotted_prefix [of k] parse_addr_groups_prefix [of _ k]
    by (cases a) (auto simp: Some full_width_bounds v4_octets v6_groups_length v6_groups_read)
qed (simp add: parse_show_host)

section \<open>Tokenizing printed text\<close>

definition word_string :: "string \<Rightarrow> bool" where
  "word_string w \<longleftrightarrow> w \<noteq> [] \<and> (\<forall>c \<in> set w. is_word_char (of_char c))"

lemma word_string_append: "word_string v \<Longrightarrow> word_string w \<Longrightarrow> word_string (v @ w)"
  by (auto simp: word_string_def)

lemma word_string_Cons: "is_word_char (of_char c) \<Longrightarrow> word_string w \<Longrightarrow> word_string (c # w)"
  by (auto simp: word_string_def)

lemma digit_word_char: "d < 16 \<Longrightarrow> is_word_char (of_char (digit_char d))"
  by (simp add: digit_char_code is_word_char_code)

lemma word_string_digits: "2 \<le> b \<Longrightarrow> b \<le> 16 \<Longrightarrow> word_string (digits b n)"
  using digits_text [of b n] digits_nonempty [of b n] digit_word_char
  by (auto simp: word_string_def digit_text_def)

lemma word_string_numbers: "word_string (show_dec n)" "word_string (show_hex n)" "word_string (hex2 v)"
proof -
  show "word_string (show_dec n)" "word_string (show_hex n)"
    by (simp_all add: show_dec_def show_hex_def word_string_digits)
  have "unat v div 16 < 16" using u8_less [of v] by linarith
  then show "word_string (hex2 v)" by (simp add: word_string_def hex2_def digit_word_char)
qed

lemma punctuation_word_char:
  "is_word_char (of_char CHR ''.'')" "is_word_char (of_char CHR '':'')" "is_word_char (of_char CHR ''/'')"
  by (simp_all add: is_word_char_def)

lemmas word_string_intros =
  word_string_append word_string_Cons word_string_numbers punctuation_word_char

lemma word_string_groups: "gs \<noteq> [] \<Longrightarrow> word_string (show_groups gs)"
  by (induction gs rule: show_groups.induct) (auto intro!: word_string_intros)

lemma word_string_addr: "word_string (show_addr a)"
  by (cases a) (auto simp: dotted_def v6_groups_def intro!: word_string_intros word_string_groups)

lemma word_string_literals: "word_string (show_net a n)" "word_string (show_mac m)"
  by (cases n; cases m; auto intro!: word_string_intros word_string_addr)+

text \<open>A tag that its text spells.\<close>

definition printable :: "token_tag \<Rightarrow> bool" where
  "printable t \<longleftrightarrow> spells t (ascii (tag_text t))"

lemma printable_Word: "word_string w \<Longrightarrow> printable (Word w)"
  by (auto simp: printable_def word_text_def word_string_def ascii_def)

lemma printable_keyword:
  "\<forall>c \<in> set w. is_ascii_alphanumeric (of_char c) \<Longrightarrow> w \<noteq> [] \<Longrightarrow> printable (Word w)"
  by (rule printable_Word) (auto simp: word_string_def is_word_char_def)

lemma printable_keywords [simp]:
  "printable (Word ''host'')" "printable (Word ''net'')" "printable (Word ''port'')"
  "printable (Word ''portrange'')" "printable (Word ''ether'')" "printable (Word ''proto'')"
  "printable (Word ''broadcast'')" "printable (Word ''multicast'')"
  "printable (Word ''not'')" "printable (Word ''and'')" "printable (Word ''or'')"
  by (rule printable_keyword; simp add: is_ascii_alphanumeric_def)+

lemma printable_prefix_words [simp]: "printable (Word (proto_word q))" "printable (Word (dir_word d))"
  by (cases q; rule printable_keyword; simp add: is_ascii_alphanumeric_def)
     (cases d; rule printable_keyword; simp add: is_ascii_alphanumeric_def)

lemma printable_symbols [simp]: "printable Dash" "printable LParen" "printable RParen"
  by (simp_all add: printable_def)

lemma printable_literals [simp]:
  "printable (Word (show_addr a))" "printable (Word (show_net a n))" "printable (Word (show_mac m))"
  "printable (Word (show_dec k))" "printable (Word (CHR ''0'' # CHR ''x'' # show_hex k))"
  by (intro printable_Word word_string_addr word_string_literals word_string_numbers word_string_Cons;
      simp add: is_word_char_code)+

lemma printable_optional:
  "t \<in> set (optional f v) \<Longrightarrow> (\<And>x. printable (Word (f x))) \<Longrightarrow> printable t"
  by (cases v) auto

lemma printable_type: "t \<in> set (type_tags ty) \<Longrightarrow> printable t"
  by (cases ty) auto

lemma printable_ether: "t \<in> set (ether_tags k) \<Longrightarrow> printable t"
  by (cases k rule: ether_tags.cases) auto

lemma printable_enclose: "t \<in> set (enclose e ts) \<Longrightarrow> (t \<in> set ts \<Longrightarrow> printable t) \<Longrightarrow> printable t"
  by (cases e) auto

lemma printable_tags: "t \<in> set (expr_tags e) \<Longrightarrow> printable t"
  by (induction e)
     (auto simp: primitive_tags_def dest: printable_type printable_ether printable_optional printable_enclose)

lemma tokenizes_text:
  "\<forall>t \<in> set tags. printable t \<Longrightarrow>
     \<exists>ts. tokenizes start (ascii (tags_text tags)) ts \<and> map tok_tag ts = tags @ [Eof]"
proof (induction tags arbitrary: start)
  case Nil
  have "tokenizes start (ascii (tags_text [])) [mk_token Eof start start]"
    by (rule tokenizes_end) (simp_all add: tags_text_def ascii_def blank_def)
  then show ?case by (intro exI [of _ "[mk_token Eof start start]"]) (simp add: mk_token_def)
next
  case (Cons t tags)
  let ?s = "ascii (tag_text t)"
  obtain ts where ts: "tokenizes (start + 1 + str_len ?s) (ascii (tags_text tags)) ts"
      "map tok_tag ts = tags @ [Eof]"
    using Cons.IH [of "start + 1 + str_len ?s"] Cons.prems by auto
  have "maximal ?s (ascii (tags_text tags))"
    by (cases tags) (simp_all add: maximal_def tags_text_def ascii_def is_word_char_code)
  then have "tokenizes start ([32] @ ?s @ ascii (tags_text tags))
      (mk_token t (start + 1) (start + 1 + str_len ?s) # ts)"
    using Cons.prems ts(1)
    by (intro tokenizes_token) (simp_all add: blank_def is_whitespace_def printable_def)
  moreover have "[32] @ ?s @ ascii (tags_text tags) = ascii (tags_text (t # tags))"
    by (simp add: tags_text_def ascii_def)
  ultimately show ?case using ts(2) by (metis list.simps(9) append_Cons mk_token_def token.select_convs(1))
qed

lemma lex_show: "\<exists>ts. lex (ascii (show_expr e)) = Ok ts \<and> map tok_tag ts = expr_tags e @ [Eof]"
  unfolding lex_tokenizes show_expr_def by (rule tokenizes_text) (blast intro: printable_tags)

section \<open>Parsing printed tokens\<close>

text \<open>The tokens from \<open>i\<close> on carry the tags \<open>ts\<close>, and are not the last of the stream.\<close>

fun at :: "token list \<Rightarrow> nat \<Rightarrow> token_tag list \<Rightarrow> bool" where
  "at toks i [] = (i < length toks)"
| "at toks i (t # ts) = (i < length toks \<and> tok_tag (toks ! i) = t \<and> at toks (Suc i) ts)"

lemma at_inside: "at toks i ts \<Longrightarrow> i < length toks"
  by (cases ts) auto

lemma at_append: "at toks i (ts @ us) \<longleftrightarrow> at toks i ts \<and> at toks (i + length ts) us"
  by (induction ts arbitrary: i) (auto dest: at_inside)

lemma at_tail: "i \<le> length toks \<Longrightarrow> map tok_tag (drop i toks) = ts @ [t] \<Longrightarrow> at toks i ts"
proof (induction ts arbitrary: i)
  case Nil
  then show ?case by (cases "i < length toks") auto
next
  case (Cons u us)
  then have "i < length toks" by (cases "i < length toks") auto
  with Cons show ?case by (auto simp: Cons_nth_drop_Suc [symmetric])
qed

lemma advance_inside: "Suc i < length toks \<Longrightarrow> advance toks i = Ok (Suc i)"
  by (simp add: advance_def get_def)

lemma expect_word_at:
  "Suc i < length toks \<Longrightarrow> tok_tag (toks ! i) = Word w \<Longrightarrow> expect_word ex toks i = Ok ((w, tok_offset (toks ! i)), Suc i)"
  by (auto simp: expect_word_def advance_inside)

lemma expect_dash_at: "Suc i < length toks \<Longrightarrow> tok_tag (toks ! i) = Dash \<Longrightarrow> expect_dash toks i = Ok (Suc i)"
  by (auto simp: expect_dash_def advance_inside)

lemma try_keyword_at:
  "Suc i < length toks \<Longrightarrow> tok_tag (toks ! i) = Word w \<Longrightarrow>
     try_keyword table toks i = Ok (table w, (case table w of None \<Rightarrow> i | Some k \<Rightarrow> Suc i))"
  by (auto simp: try_keyword_def tag_word_def advance_inside split: option.split)

lemma try_consume_at:
  "Suc i < length toks \<Longrightarrow> tok_tag (toks ! i) = Word w \<Longrightarrow> try_consume_word v toks i = Ok (if w = v then Suc i else i)"
  by (auto simp: try_consume_word_def tag_word_def advance_inside)

lemma prev_end_at: "i < length toks \<Longrightarrow> prev_end toks i = Ok (off_end (tok_offset (toks ! (i - 1))))"
  by (simp add: prev_end_def get_def)

lemmas at_steps =
  expect_word_at expect_dash_at try_keyword_at try_consume_at

fun type_word :: "prim_type \<Rightarrow> string" where
  "type_word (Host a) = ''host''"
| "type_word (Net a n) = ''net''"
| "type_word (Port q) = ''port''"
| "type_word (PortRange lo hi) = ''portrange''"

lemma type_tags_word: "type_tags ty = Word (type_word ty) # tl (type_tags ty)"
  by (cases ty) simp_all

lemma proto_keyword_word [simp]:
  "proto_keyword (proto_word q) = Some q" "proto_keyword (dir_word d) = None"
  "proto_keyword (type_word ty) = None"
  by (cases q; simp add: proto_keyword_def)
     ((cases d; simp add: proto_keyword_def), (cases ty; simp add: proto_keyword_def))

lemma dir_keyword_word [simp]: "dir_keyword (dir_word d) = Some d" "dir_keyword (type_word ty) = None"
  by (cases d; simp add: dir_keyword_def) (cases ty; simp add: dir_keyword_def)

lemma parse_type_at:
  assumes "at toks i (type_tags ty)" and "wf_type ty"
  shows "parse_type start (type_word ty) ofs toks (Suc i) = Ok (ty, i + length (type_tags ty))"
proof -
  have "Suc i < length toks" using assms(1) by (cases ty) (auto dest: at_inside)
  then show ?thesis
    using assms
    by (cases ty)
       (auto simp: parse_type_def parse_portrange_def at_steps parse_port_show parse_show_host
         parse_show_net not_less)
qed

lemma optional_word:
  "at toks i (optional f v @ Word kw # rest) \<Longrightarrow> (\<And>x. table (f x) = Some x) \<Longrightarrow> table kw = None \<Longrightarrow>
     try_keyword table toks i = Ok (v, i + length (optional f v))"
  by (cases v) (auto simp: try_keyword_at dest: at_inside)

lemma parse_primitive_at:
  assumes at: "at toks i (primitive_tags p)" and wf: "wf_type (prim_ty p)"
  shows "\<exists>ofs. parse_primitive toks i =
    Ok (p\<lparr>prim_offset := ofs\<rparr>, i + length (primitive_tags p))"
proof -
  let ?q = "optional proto_word (prim_proto p)" and ?d = "optional dir_word (prim_dir p)"
  let ?j = "i + length ?q" let ?k = "?j + length ?d"
  let ?t = "Word (type_word (prim_ty p)) # tl (type_tags (prim_ty p))"
  have at_k: "at toks ?k (type_tags (prim_ty p))" and at_j: "at toks ?j (?d @ ?t)"
    and at_i: "at toks i (?q @ ?d @ ?t)"
    using at by (simp_all add: primitive_tags_def at_append flip: type_tags_word)
  have "try_parse_dir toks ?j = Ok (prim_dir p, ?k)"
    unfolding try_parse_dir_def by (rule optional_word [OF at_j]) simp_all
  moreover obtain w rest where w: "?d @ ?t = Word w # rest" "proto_keyword w = None"
    by (cases "prim_dir p") auto
  then have "try_parse_proto toks i = Ok (prim_proto p, ?j)"
    unfolding try_parse_proto_def
    by (intro optional_word [where kw = w and rest = rest]) (use at_i in simp_all)
  moreover have "expect_word ex toks ?k =
      Ok ((type_word (prim_ty p), tok_offset (toks ! ?k)), Suc ?k)" for ex
    using at_k by (subst (asm) type_tags_word) (auto simp: expect_word_at dest: at_inside)
  moreover have "i < length toks" "?k + length (type_tags (prim_ty p)) < length toks"
    using at_inside [OF at] at_k at_append [of toks ?k "type_tags (prim_ty p)" "[]"] by simp_all
  ultimately show ?thesis
    using parse_type_at [OF at_k wf]
    by (cases p) (auto simp: parse_primitive_def Let_def prev_end_at primitive_tags_def add.assoc)
qed

lemma ether_kind_cases:
  obtains m where "kind = EtherHost m None" | m where "kind = EtherHost m (Some Src)"
  | m where "kind = EtherHost m (Some Dst)" | v where "kind = EtherProto v"
  | "kind = EtherBroadcast" | "kind = EtherMulticast"
  by (cases kind rule: ether_tags.cases) (metis dir_tag.exhaust)+

lemma parse_ether_at:
  assumes at: "at toks i (ether_tags (ether_kind e))"
  shows "\<exists>ofs. parse_ether_primitive toks i =
    Ok (e\<lparr>ether_offset := ofs\<rparr>, i + length (ether_tags (ether_kind e)))"
proof -
  have "i < length toks" "i + length (ether_tags (ether_kind e)) < length toks"
    using at_inside [OF at] at at_append [of toks i "ether_tags (ether_kind e)" "[]"] by simp_all
  moreover obtain kind ofs where e: "e = \<lparr>ether_kind = kind, ether_offset = ofs\<rparr>" by (cases e)
  ultimately show ?thesis
    using at
    by (cases rule: ether_kind_cases [of kind])
       (auto simp: parse_ether_primitive_def Let_def word_at_in tag_word_def advance_inside at_steps
         parse_ether_kind_def parse_mac_operand_def parse_mac_show
         parse_ethertype_hex [simplified]
         finish_ether_def prev_end_at)
qed


lemma primitive_word:
  obtains w rest where "primitive_tags p = Word w # rest" "w \<noteq> ''ether''" "w \<noteq> ''broadcast''" "w \<noteq> ''multicast''"
proof -
  have "\<exists>w rest. primitive_tags p = Word w # rest \<and> w \<noteq> ''ether'' \<and> w \<noteq> ''broadcast'' \<and> w \<noteq> ''multicast''"
    by (cases "prim_proto p"; cases "the (prim_proto p)"; cases "prim_dir p"; cases "the (prim_dir p)"; cases "prim_ty p")
       (simp_all add: primitive_tags_def)
  then show ?thesis using that by blast
qed

lemma ether_word: "\<exists>rest. ether_tags k = Word ''ether'' # rest"
  by (cases k rule: ether_tags.cases) simp_all

text \<open>Some derivation of the nonterminal \<open>nt\<close> over the tags \<open>ts\<close> at \<open>i\<close> yields \<open>e\<close>, up to byte ranges.\<close>

definition derives ::
    "(nat \<Rightarrow> expr \<Rightarrow> nat \<Rightarrow> bool) \<Rightarrow> nat \<Rightarrow> expr \<Rightarrow> token_tag list \<Rightarrow> bool" where
  "derives nt i e ts \<longleftrightarrow> (\<exists>e'. nt i e' (i + length ts) \<and> erase e' = erase e)"

lemma derivesI: "nt i e' (i + length ts) \<Longrightarrow> erase e' = erase e \<Longrightarrow> derives nt i e ts"
  by (auto simp: derives_def)

lemma derives_primitive:
  assumes at: "at toks i (primitive_tags p)" and wf: "wf_type (prim_ty p)"
  shows "derives (atom toks) i (EPrimitive p) (primitive_tags p)"
proof -
  obtain w rest where w: "primitive_tags p = Word w # rest" "w \<noteq> ''ether''" "w \<noteq> ''broadcast''" "w \<noteq> ''multicast''"
    by (rule primitive_word)
  obtain ofs where "parse_primitive toks i = Ok (p\<lparr>prim_offset := ofs\<rparr>, i + length (primitive_tags p))"
    using parse_primitive_at [OF at wf] by blast
  then have "parse_leaf toks i w = Ok (EPrimitive (p\<lparr>prim_offset := ofs\<rparr>), i + length (primitive_tags p))"
    using w by (simp add: parse_leaf_def)
  then have "atom toks i (EPrimitive (p\<lparr>prim_offset := ofs\<rparr>)) (i + length (primitive_tags p))"
    using at w(1) by (intro atom_primitive) auto
  then show ?thesis by (rule derivesI) simp
qed

lemma derives_ether:
  assumes at: "at toks i (ether_tags (ether_kind e))"
  shows "derives (atom toks) i (EEther e) (ether_tags (ether_kind e))"
proof -
  obtain ofs where "parse_ether_primitive toks i =
      Ok (e\<lparr>ether_offset := ofs\<rparr>, i + length (ether_tags (ether_kind e)))"
    using parse_ether_at [OF at] by blast
  then have "parse_leaf toks i ''ether'' = Ok (EEther (e\<lparr>ether_offset := ofs\<rparr>), i + length (ether_tags (ether_kind e)))"
    by (simp add: parse_leaf_def)
  then have "atom toks i (EEther (e\<lparr>ether_offset := ofs\<rparr>)) (i + length (ether_tags (ether_kind e)))"
    using at ether_word [of "ether_kind e"] by (intro atom_primitive) auto
  then show ?thesis by (rule derivesI) simp
qed

lemma derives_atom:
  assumes "at toks i (enclose e ts)"
    and "at toks i ts \<Longrightarrow> (case e of EPrimitive p \<Rightarrow> True | EEther e \<Rightarrow> True | _ \<Rightarrow> False) \<Longrightarrow> derives (atom toks) i e ts"
    and "at toks (Suc i) ts \<Longrightarrow> derives (or_expr toks) (Suc i) e ts"
  shows "derives (atom toks) i e (enclose e ts)"
proof (cases "case e of EPrimitive p \<Rightarrow> True | EEther e \<Rightarrow> True | _ \<Rightarrow> False")
  case True
  then have "enclose e ts = ts" by (cases e) simp_all
  with True assms show ?thesis by simp
next
  case False
  then have enc: "enclose e ts = LParen # ts @ [RParen]" by (cases e) simp_all
  then have "at toks (Suc i) (ts @ [RParen])" and i: "i < length toks" "tok_tag (toks ! i) = LParen"
    using assms(1) by simp_all
  then have "at toks (Suc i) ts" and j: "Suc i + length ts < length toks"
      "tok_tag (toks ! (Suc i + length ts)) = RParen"
    unfolding at_append by simp_all
  then obtain e' where e': "or_expr toks (Suc i) e' (Suc i + length ts)" "erase e' = erase e"
    using assms(3) by (auto simp: derives_def)
  from atom_parens [OF i e'(1) j] e'(2) show ?thesis by (auto simp: derives_def enc)
qed

lemma derives_expr:
  "wf_expr e \<Longrightarrow> at toks i (expr_tags e) \<Longrightarrow> derives (or_expr toks) i e (expr_tags e)"
  "wf_expr e \<Longrightarrow> at toks i (enclose e (expr_tags e)) \<Longrightarrow> derives (atom toks) i e (enclose e (expr_tags e))"
proof (induction e arbitrary: i)
  case (EPrimitive p)
  {
    case 1
    then have "derives (atom toks) i (EPrimitive p) (primitive_tags p)" using derives_primitive by simp
    then show ?case by (auto simp: derives_def intro: or_single and_single not_none)
  next
    case 2
    then show ?case using derives_primitive by simp
  }
next
  case (EEther e)
  {
    case 1
    then have "derives (atom toks) i (EEther e) (ether_tags (ether_kind e))" using derives_ether by simp
    then show ?case by (auto simp: derives_def intro: or_single and_single not_none)
  next
    case 2
    then show ?case using derives_ether by simp
  }
next
  case (ENot e ofs)
  have *: "derives (or_expr toks) i (ENot e ofs) (expr_tags (ENot e ofs))"
    if wf: "wf_expr (ENot e ofs)" and at: "at toks i (expr_tags (ENot e ofs))" for i
  proof -
    obtain e' where e': "atom toks (Suc i) e' (Suc i + length (enclose e (expr_tags e)))" "erase e' = erase e"
      using ENot.IH(2) [of "Suc i"] wf at by (auto simp: derives_def)
    show ?thesis
      by (rule derivesI, rule or_single, rule and_single, rule not_prefix [where e = e'])
         (use at e' in \<open>auto simp: tag_word_def intro: not_none\<close>)
  qed
  {
    case 1
    then show ?case by (rule *)
  next
    case 2
    then show ?case by (intro derives_atom *) auto
  }
next
  case (EAnd l r ofs)
  have *: "derives (or_expr toks) i (EAnd l r ofs) (expr_tags (EAnd l r ofs))"
    if wf: "wf_expr (EAnd l r ofs)" and at: "at toks i (expr_tags (EAnd l r ofs))" for i
  proof -
    let ?l = "enclose l (expr_tags l)" and ?r = "enclose r (expr_tags r)"
    let ?j = "i + length ?l"
    have at': "at toks i ?l" "?j < length toks" "tok_tag (toks ! ?j) = Word ''and''" "at toks (Suc ?j) ?r"
      using at by (simp_all add: at_append)
    obtain l' where "atom toks i l' ?j" "erase l' = erase l"
      using EAnd.IH(2) [of i] wf at' by (auto simp: derives_def)
    moreover obtain r' where "atom toks (Suc ?j) r' (Suc ?j + length ?r)" "erase r' = erase r"
      using EAnd.IH(4) [of "Suc ?j"] wf at' by (auto simp: derives_def)
    ultimately show ?thesis
      using at'
      by (intro derivesI [of _ _ "EAnd l' r' (join_offset l' r')"])
         (auto simp: tag_word_def add.assoc intro!: or_single and_chain intro: not_none and_single or_single)
  qed
  {
    case 1
    then show ?case by (rule *)
  next
    case 2
    then show ?case by (intro derives_atom *) auto
  }
next
  case (EOr l r ofs)
  have *: "derives (or_expr toks) i (EOr l r ofs) (expr_tags (EOr l r ofs))"
    if wf: "wf_expr (EOr l r ofs)" and at: "at toks i (expr_tags (EOr l r ofs))" for i
  proof -
    let ?l = "enclose l (expr_tags l)" and ?r = "enclose r (expr_tags r)"
    let ?j = "i + length ?l"
    have at': "at toks i ?l" "?j < length toks" "tok_tag (toks ! ?j) = Word ''or''" "at toks (Suc ?j) ?r"
      using at by (simp_all add: at_append)
    obtain l' where "atom toks i l' ?j" "erase l' = erase l"
      using EOr.IH(2) [of i] wf at' by (auto simp: derives_def)
    moreover obtain r' where "atom toks (Suc ?j) r' (Suc ?j + length ?r)" "erase r' = erase r"
      using EOr.IH(4) [of "Suc ?j"] wf at' by (auto simp: derives_def)
    ultimately show ?thesis
      using at'
      by (intro derivesI [of _ _ "EOr l' r' (join_offset l' r')"])
         (auto simp: tag_word_def add.assoc intro!: or_chain intro: not_none and_single or_single)
  qed
  {
    case 1
    then show ?case by (rule *)
  next
    case 2
    then show ?case by (intro derives_atom *) auto
  }
qed

lemma print_parse:
  assumes "wf_expr e"
  shows "\<exists>ts e'. lex (ascii (show_expr e)) = Ok ts \<and> parse ts = Ok e' \<and> erase e' = erase e"
proof -
  obtain ts where ts: "lex (ascii (show_expr e)) = Ok ts" "map tok_tag ts = expr_tags e @ [Eof]"
    using lex_show by blast
  then have eof: "ends_in_eof ts" using lex_yields [of "ascii (show_expr e)"] by (auto simp: yields_def)
  have "at ts 0 (expr_tags e)" using ts(2) by (intro at_tail) simp_all
  moreover have "length ts = Suc (length (expr_tags e))" using arg_cong [OF ts(2), of length] by simp
  ultimately obtain e' where "or_expr ts 0 e' (length ts - 1)" "erase e' = erase e"
    using derives_expr(1) [OF assms, of ts 0] by (auto simp: derives_def)
  with ts(1) parse_grammar [OF eof] show ?thesis by blast
qed

section \<open>Compiling printed text\<close>

lemma resolutions_moved:
  "resolutions (pr\<lparr>prim_offset := ofs\<rparr>) = map (\<lambda>c. c\<lparr>cp_offset := ofs\<rparr>) (resolutions pr)"
proof -
  have "default_protos (pr\<lparr>prim_offset := ofs\<rparr>) = default_protos pr"
    "default_dirs (pr\<lparr>prim_offset := ofs\<rparr>) = default_dirs pr"
    by (simp_all add: default_protos_def default_dirs_def split: option.split prim_type.split)
  then show ?thesis by (simp add: resolutions_def map_concat comp_def)
qed

lemma eval_primitive_moved: "eval_primitive ctx (c\<lparr>cp_offset := ofs\<rparr>) p = eval_primitive ctx c p"
  by (simp add: eval_primitive_def split: prim_type.split)

lemma source_eval_erase: "source_eval ctx (erase e) p = source_eval ctx e p"
  by (induction e) (simp_all add: resolutions_moved eval_primitive_moved comp_def)

lemma compile_printed:
  assumes "wf_expr e" and "length (show_expr e) < max_source"
    and "compile (ascii (show_expr e)) lt snaplen = Ok prog"
  shows "program_run prog p = verdict snaplen (source_eval (mk_ctx lt) e p)"
proof -
  obtain ts e' where e': "lex (ascii (show_expr e)) = Ok ts" "parse ts = Ok e'" "erase e' = erase e"
    using print_parse [OF assms(1)] by blast
  have "length (ascii (show_expr e)) < max_source" using assms(2) by (simp add: ascii_def)
  from compile_run [OF this e'(1,2) assms(3)] show ?thesis
    using e'(3) source_eval_erase by metis
qed

end
