(* ===== verification/Spans.thy ===== *)
theory Spans
  imports Grammar LexerCorrect
begin

text \<open>
  Where the front end points. Every byte range in a tree, and every byte range that an error of the
  parser carries, runs from the beginning of a token to the end of the same or a later one, and so is
  a stretch of whole characters of the source.
\<close>

section \<open>Ranges of the source\<close>

definition boundary :: "rstr \<Rightarrow> nat \<Rightarrow> bool" where
  "boundary src k \<longleftrightarrow> (\<exists>u v. src = u @ v \<and> k = str_len u)"

definition in_source :: "rstr \<Rightarrow> offset \<Rightarrow> bool" where
  "in_source src ofs \<longleftrightarrow>
     boundary src (off_start ofs) \<and> boundary src (off_end ofs) \<and> off_start ofs \<le> off_end ofs"

lemma boundaryI: "src = u @ v \<Longrightarrow> k = str_len u \<Longrightarrow> boundary src k"
  by (auto simp: boundary_def)

lemma str_len_0 [simp]: "str_len u = 0 \<longleftrightarrow> u = []"
  by (cases u) (auto simp: len_utf8_def)

text \<open>Such a range cuts a run of characters out of the text.\<close>

lemma in_source_slice:
  assumes "in_source src ofs"
  shows "\<exists>a s b. src = a @ s @ b \<and> off_start ofs = str_len a \<and> off_end ofs = str_len a + str_len s \<and>
    get_range (utf8 src) (off_start ofs) (off_end ofs) = Some (utf8 s)"
proof -
  obtain a v where a: "src = a @ v" "off_start ofs = str_len a"
    using assms unfolding in_source_def boundary_def by blast
  obtain u b where u: "src = u @ b" "off_end ofs = str_len u"
    using assms unfolding in_source_def boundary_def by blast
  have le: "str_len a \<le> str_len u" using assms a u by (simp add: in_source_def)
  have "\<exists>s. u = a @ s"
    using a(1) u(1) le by (auto simp: append_eq_append_conv2)
  then obtain s where "u = a @ s" by blast
  with u have src: "src = a @ s @ b" and s: "off_end ofs = str_len a + str_len s" by simp_all
  have "get_range (utf8 src) (off_start ofs) (off_end ofs) = Some (utf8 s)"
    unfolding src a(2) s by (simp add: get_range_def utf8_append)
  with src a(2) s show ?thesis by blast
qed

section \<open>Tokens\<close>

lemma tokenizes_located:
  assumes "tokenizes (str_len pre) cs ts"
  shows "sorted_wrt (\<lambda>s t. off_end (tok_offset s) \<le> off_start (tok_offset t)) ts \<and>
    (\<forall>t \<in> set ts. str_len pre \<le> off_start (tok_offset t) \<and> in_source (pre @ cs) (tok_offset t))"
  using assms
proof (induction "str_len pre" cs ts arbitrary: pre rule: tokenizes.induct)
  case (tokenizes_end ws end_at)
  then show ?case
    by (auto simp: mk_token_def in_source_def intro!: boundaryI [of _ "pre @ ws" "[]"])
next
  case (tokenizes_token ws tag s rest lo hi ts)
  have hi: "hi = str_len (pre @ ws @ s)" and lo: "lo = str_len (pre @ ws)"
    using tokenizes_token(4,5) by simp_all
  note IH = tokenizes_token(7) [OF hi]
  have "boundary (pre @ ws @ s @ rest) lo" "boundary (pre @ ws @ s @ rest) hi"
    using lo hi by (auto intro: boundaryI [of _ "pre @ ws" "s @ rest"] boundaryI [of _ "pre @ ws @ s" rest])
  then show ?case
    using IH hi lo by (fastforce simp: mk_token_def in_source_def)
qed

text \<open>From the beginning of the token \<open>i\<close> to the end of the token \<open>j\<close>.\<close>

definition run_of :: "token list \<Rightarrow> nat \<Rightarrow> nat \<Rightarrow> offset" where
  "run_of toks i j = Range (off_start (tok_offset (toks ! i))) (off_end (tok_offset (toks ! j)))"

definition span :: "token list \<Rightarrow> offset \<Rightarrow> bool" where
  "span toks ofs \<longleftrightarrow> (\<exists>i j. i \<le> j \<and> j < length toks \<and> ofs = run_of toks i j)"

lemma spanI: "i \<le> j \<Longrightarrow> j < length toks \<Longrightarrow> span toks (run_of toks i j)"
  by (auto simp: span_def)

lemma span_token [simp]: "i < length toks \<Longrightarrow> span toks (tok_offset (toks ! i))"
  unfolding span_def run_of_def by (intro exI [of _ i]) simp

lemma span_in_source:
  assumes "lex src = Ok toks" and "span toks ofs"
  shows "in_source src ofs"
proof -
  obtain i j where ij: "i \<le> j" "j < length toks" "ofs = run_of toks i j"
    using assms(2) by (auto simp: span_def)
  have *: "sorted_wrt (\<lambda>s t. off_end (tok_offset s) \<le> off_start (tok_offset t)) toks"
    "\<forall>t \<in> set toks. in_source src (tok_offset t)"
    using tokenizes_located [of "[]" src toks] assms(1) by (simp_all add: lex_tokenizes)
  then have t: "in_source src (tok_offset (toks ! i))" "in_source src (tok_offset (toks ! j))"
    using ij by auto
  moreover have "off_start (tok_offset (toks ! i)) \<le> off_end (tok_offset (toks ! j))"
  proof (cases "i = j")
    case True
    then show ?thesis using t by (simp add: in_source_def)
  next
    case False
    then have "off_end (tok_offset (toks ! i)) \<le> off_start (tok_offset (toks ! j))"
      using *(1) ij by (simp add: sorted_wrt_iff_nth_less)
    then show ?thesis using t by (auto simp: in_source_def)
  qed
  ultimately show ?thesis using ij(3) by (simp add: in_source_def run_of_def)
qed

section \<open>What an error blames\<close>

definition blames :: "(offset \<Rightarrow> bool) \<Rightarrow> 'a res \<Rightarrow> bool" where
  "blames P m \<longleftrightarrow> (\<forall>e. m = Err e \<longrightarrow> P (err_offset e))"

lemma blames_simps [simp]:
  "blames P (Ok x)" "blames P (Err e) \<longleftrightarrow> P (err_offset e)" "blames P Panic" "blames P Diverge"
  by (simp_all add: blames_def)

lemma blames_ok_or [simp]: "blames P (ok_or e v) \<longleftrightarrow> v = None \<longrightarrow> P (err_offset e)"
  by (cases v) auto

lemma new_error_offset [simp]: "err_offset (new_error ofs tag) = ofs"
  by (simp add: new_error_def)

lemma blames_and_then:
  "blames P m \<Longrightarrow> (\<And>x. m = Ok x \<Longrightarrow> blames P (f x)) \<Longrightarrow> blames P (and_then m f)"
  by (cases m) auto

text \<open>Literals blame the offset they are given.\<close>

lemma literals_blame:
  assumes "P ofs"
  shows "blames P (parse_port w ofs)" "blames P (parse_mac_literal w ofs)"
    "blames P (parse_ethertype w ofs)" "blames P (parse_addr_literal w ofs allow)"
proof -
  have prefix: "blames P (parse_prefix limit ok err v)" if "P (err_offset err)" for limit ok err v
    using that by (cases v) (auto intro!: blames_and_then)
  show "blames P (parse_port w ofs)" "blames P (parse_mac_literal w ofs)"
    "blames P (parse_ethertype w ofs)"
    using assms by (auto simp: parse_port_def parse_mac_literal_def parse_ethertype_def Let_def split: option.split)
  have "blames P (parse_ipv6_literal w ofs allow)"
    using assms by (auto simp: parse_ipv6_literal_def Let_def intro!: blames_and_then prefix split: prod.split)
  then show "blames P (parse_addr_literal w ofs allow)"
    using assms by (auto simp: parse_addr_literal_def Let_def intro!: blames_and_then prefix split: prod.split)
qed

section \<open>Errors of the parser\<close>

text \<open>Sequencing behind the functions that consume tokens: what they blame, and where they end.\<close>

lemma word_blames:
  assumes toks: "ends_in_eof toks" and pos: "pos < length toks"
    and rest: "\<And>w. Suc pos < length toks \<Longrightarrow> blames (span toks) (f ((w, tok_offset (toks ! pos)), Suc pos))"
  shows "blames (span toks) (and_then (expect_word ex toks pos) f)"
  using pos rest advance_in [OF toks pos]
  by (auto simp: expect_word_def split: token_tag.split)

lemma dash_blames:
  assumes toks: "ends_in_eof toks" and pos: "pos < length toks"
    and rest: "Suc pos < length toks \<Longrightarrow> blames (span toks) (f (Suc pos))"
  shows "blames (span toks) (and_then (expect_dash toks pos) f)"
  using pos rest advance_in [OF toks pos]
  by (auto simp: expect_dash_def split: token_tag.split)

lemma keyword_blames:
  assumes toks: "ends_in_eof toks" and pos: "pos < length toks"
    and rest: "\<And>v pos'. pos \<le> pos' \<Longrightarrow> pos' < length toks \<Longrightarrow> blames P (f (v, pos'))"
  shows "blames P (and_then (try_keyword table toks pos) f)"
  using pos rest advance_word [OF toks pos]
  by (auto simp: try_keyword_def split: option.split)

lemma consume_blames:
  assumes toks: "ends_in_eof toks" and pos: "pos < length toks"
    and rest: "\<And>pos'. pos' < length toks \<Longrightarrow> blames P (f pos')"
  shows "blames P (and_then (try_consume_word w toks pos) f)"
  using pos rest advance_word [OF toks pos] by (auto simp: try_consume_word_def)

lemma prev_end_blames: "(\<And>e. blames P (f e)) \<Longrightarrow> blames P (and_then (prev_end toks pos) f)"
  by (simp add: prev_end_def split: option.split)

lemma span_run [simp]: "i \<le> j \<Longrightarrow> j < length toks \<Longrightarrow>
    span toks (Range (off_start (tok_offset (toks ! i))) (off_end (tok_offset (toks ! j))))"
  using spanI by (simp add: run_of_def)

lemmas blames_intros =
  word_blames dash_blames keyword_blames consume_blames prev_end_blames

lemma parse_mac_operand_blames:
  assumes "ends_in_eof toks" and "pos < length toks"
  shows "blames (span toks) (parse_mac_operand d toks pos)"
  unfolding parse_mac_operand_def
  using assms by (auto intro!: blames_intros blames_and_then [OF literals_blame(2)])

lemma parse_ether_kind_blames:
  assumes toks: "ends_in_eof toks" and pos: "pos < length toks" and ofs: "span toks ofs"
  shows "blames (span toks) (parse_ether_kind kw ofs toks pos)"
proof -
  have proto: "blames (span toks) (and_then (expect_word ex toks pos) (\<lambda>((text, ofs), pos).
        and_then (parse_ethertype text ofs) (\<lambda>et. Ok (EtherProto et, pos))))" for ex
    by (rule word_blames [OF toks pos], simp, rule blames_and_then) (auto intro: literals_blame pos)
  have "blames (span toks) (and_then (try_consume_word w toks pos) (parse_mac_operand d toks))" for w d
    by (rule consume_blames [OF toks pos]) (rule parse_mac_operand_blames [OF toks])
  then show ?thesis
    using proto parse_mac_operand_blames [OF toks pos] ofs by (simp add: parse_ether_kind_def)
qed

lemma finish_ether_blames [simp]: "blames P (finish_ether toks start r)"
  by (auto simp: finish_ether_def intro!: prev_end_blames split: prod.split)

lemma parse_ether_primitive_blames:
  assumes toks: "ends_in_eof toks" and pos: "pos < length toks" and w: "tag_word (tok_tag (toks ! pos)) = Some w"
  shows "blames (span toks) (parse_ether_primitive toks pos)"
proof -
  have "tok_tag (toks ! pos) \<noteq> Eof" using w by (auto simp: tag_word_def)
  note adv = advance_in [OF toks pos this]
  have "blames (span toks) (and_then (expect_word ether_expected toks (Suc pos)) (\<lambda>((kw, kw_offset), pos).
      and_then (parse_ether_kind kw kw_offset toks pos) (finish_ether toks start)))" for start
    by (rule word_blames [OF toks adv(2)]) (auto intro!: blames_and_then parse_ether_kind_blames toks adv(2))
  then show ?thesis
    using pos adv by (simp add: parse_ether_primitive_def Let_def)
qed

lemma parse_portrange_blames:
  assumes "ends_in_eof toks" and "i \<le> pos" "pos < length toks"
  shows "blames (span toks) (parse_portrange (off_start (tok_offset (toks ! i))) toks pos)"
  unfolding parse_portrange_def
  using assms by (auto intro!: blames_intros blames_and_then [OF literals_blame(1)])

lemma parse_type_blames:
  assumes toks: "ends_in_eof toks" and pos: "i \<le> pos" "pos < length toks" and ofs: "span toks ofs"
  shows "blames (span toks) (parse_type (off_start (tok_offset (toks ! i))) w ofs toks pos)"
proof -
  have addr: "blames (span toks) (and_then (expect_word ex toks pos) (\<lambda>((text, ofs), pos).
        and_then (parse_addr_literal text ofs allow) (\<lambda>(addr, prefix). Ok (f addr prefix, pos))))"
    for ex allow and f :: "addr_lit \<Rightarrow> u8 option \<Rightarrow> prim_type"
    by (rule word_blames [OF toks pos(2)], simp, rule blames_and_then)
       (auto intro: literals_blame pos)
  have port: "blames (span toks) (and_then (expect_word ex toks pos) (\<lambda>((text, ofs), pos).
        and_then (parse_port text ofs) (\<lambda>p. Ok (Port p, pos))))" for ex
    by (rule word_blames [OF toks pos(2)], simp, rule blames_and_then)
       (auto intro: literals_blame pos)
  show ?thesis
    using ofs addr [of _ _ "\<lambda>a n. Host a"] addr [of _ _ Net] port parse_portrange_blames [OF toks pos]
    by (simp add: parse_type_def)
qed

lemma parse_primitive_blames:
  assumes "ends_in_eof toks" and "pos < length toks"
  shows "blames (span toks) (parse_primitive toks pos)"
  using assms
  by (auto simp: parse_primitive_def try_parse_proto_def try_parse_dir_def Let_def
      intro!: blames_intros blames_and_then [OF parse_type_blames])

lemma parse_leaf_blames:
  assumes "ends_in_eof toks" and "pos < length toks" and "tok_tag (toks ! pos) = Word w"
  shows "blames (span toks) (parse_leaf toks pos w)"
proof -
  have "tag_word (tok_tag (toks ! pos)) = Some w" using assms(3) by (simp add: tag_word_def)
  from parse_ether_primitive_blames [OF assms(1,2) this] parse_primitive_blames [OF assms(1,2)]
  show ?thesis by (auto simp: parse_leaf_def intro!: blames_and_then split: prod.split)
qed

lemma advance_end_blames [simp]: "blames P (and_then (advance toks pos) (\<lambda>pos. Ok (f pos)))"
  by (simp add: advance_def split: option.split)

lemma parse_expr_blames:
  assumes toks: "ends_in_eof toks"
  shows "pos < length toks \<Longrightarrow> blames (span toks) (parse_or n toks pos)"
    and "pos < length toks \<Longrightarrow> blames (span toks) (parse_or_loop n toks lhs pos)"
    and "pos < length toks \<Longrightarrow> blames (span toks) (parse_and n toks pos)"
    and "pos < length toks \<Longrightarrow> blames (span toks) (parse_and_loop n toks lhs pos)"
    and "pos < length toks \<Longrightarrow> blames (span toks) (parse_unary n toks pos)"
    and "pos < length toks \<Longrightarrow> blames (span toks) (parse_primary n toks pos)"
proof (induction n arbitrary: pos lhs)
  case (Suc n)
  note adv = advance_word [OF toks]
  have inside: "pos < length toks \<Longrightarrow> parse_or n toks pos = Ok (e, j) \<Longrightarrow> j < length toks"
    "pos < length toks \<Longrightarrow> parse_and n toks pos = Ok (e, j) \<Longrightarrow> j < length toks"
    "pos < length toks \<Longrightarrow> parse_unary n toks pos = Ok (e, j) \<Longrightarrow> j < length toks" for pos e j
    using parse_sound(1,3,5) [OF toks, of pos n e j] by simp_all
  {
    case 1
    show ?case
      unfolding parse_or.simps
      by (rule blames_and_then [OF Suc.IH(3) [OF 1]])
         (use inside(2) [OF 1] Suc.IH(2) in \<open>auto split: prod.split\<close>)
  next
    case 2
    show ?case
    proof (cases "word toks pos = Some ''or''")
      case True
      note moved = adv [OF 2 True]
      have "blames (span toks) (and_then (parse_and n toks (Suc pos))
          (\<lambda>(rhs, pos). parse_or_loop n toks (EOr lhs rhs (join_offset lhs rhs)) pos))"
        by (rule blames_and_then [OF Suc.IH(3) [OF moved(2)]])
           (use inside(2) [OF moved(2)] Suc.IH(2) in \<open>auto split: prod.split\<close>)
      with 2 True moved show ?thesis by (simp add: parse_or_loop.simps)
    qed (use 2 in \<open>simp add: parse_or_loop.simps\<close>)
  next
    case 3
    show ?case
      unfolding parse_and.simps
      by (rule blames_and_then [OF Suc.IH(5) [OF 3]])
         (use inside(3) [OF 3] Suc.IH(4) in \<open>auto split: prod.split\<close>)
  next
    case 4
    show ?case
    proof (cases "word toks pos = Some ''and''")
      case True
      note moved = adv [OF 4 True]
      have "blames (span toks) (and_then (parse_unary n toks (Suc pos))
          (\<lambda>(rhs, pos). parse_and_loop n toks (EAnd lhs rhs (join_offset lhs rhs)) pos))"
        by (rule blames_and_then [OF Suc.IH(5) [OF moved(2)]])
           (use inside(3) [OF moved(2)] Suc.IH(4) in \<open>auto split: prod.split\<close>)
      with 4 True moved show ?thesis by (simp add: parse_and_loop.simps)
    qed (use 4 in \<open>simp add: parse_and_loop.simps\<close>)
  next
    case 5
    show ?case
    proof (cases "word toks pos = Some ''not''")
      case True
      note moved = adv [OF 5 True]
      show ?thesis
        using 5 True moved Suc.IH(5) [OF moved(2)]
        by (cases "parse_unary n toks (Suc pos)") (auto simp: parse_unary.simps)
    qed (use 5 Suc.IH(6) in \<open>simp add: parse_unary.simps\<close>)
  next
    case 6
    show ?case
    proof (cases "tok_tag (toks ! pos)")
      case (Word w)
      with 6 parse_leaf_blames [OF toks 6 Word] show ?thesis by (simp add: parse_primary.simps)
    next
      case LParen
      note moved = advance_in [OF toks 6, unfolded LParen]
      have "blames (span toks) (and_then (parse_or n toks (Suc pos)) (\<lambda>(inner, pos).
           and_then (peek toks pos) (\<lambda>t.
             if tok_tag t = RParen then and_then (advance toks pos) (\<lambda>pos. Ok (inner, pos))
             else Err (new_error (tok_offset t) UnbalancedParens))))"
        by (rule blames_and_then [OF Suc.IH(1)])
           (use moved inside(1) [of "Suc pos"] in \<open>auto split: prod.split\<close>)
      with 6 LParen moved show ?thesis by (simp add: parse_primary.simps)
    qed (use 6 in \<open>simp_all add: parse_primary.simps\<close>)
  }
qed (simp_all add: parser_simps)

lemma parse_blames:
  assumes toks: "ends_in_eof toks"
  shows "blames (span toks) (parse toks)"
proof -
  obtain t ts where ts: "toks = t # ts" using toks by (cases toks) (auto simp: ends_in_eof_def)
  have eof: "blames (span toks) (expect_eof toks pos)" if "pos < length toks" for pos
    using that by (simp add: expect_eof_def)
  have "blames (span toks) (and_then (parse_or (parse_fuel toks) toks 0)
      (\<lambda>(e, pos). and_then (expect_eof toks pos) (\<lambda>_. Ok e)))"
    by (rule blames_and_then [OF parse_expr_blames(1) [OF toks]])
       (use parse_sound(1) [OF toks, of 0] eof in \<open>auto simp: ts intro!: blames_and_then\<close>)
  then show ?thesis using span_token [of 0 toks] by (simp add: parse_def ts)
qed

section \<open>Byte ranges of the tree\<close>

text \<open>All ranges in a tree, and those of its leaves only.\<close>

fun expr_offsets :: "expr \<Rightarrow> offset set" where
  "expr_offsets (EPrimitive p) = {prim_offset p}"
| "expr_offsets (EEther e) = {ether_offset e}"
| "expr_offsets (ENot e ofs) = insert ofs (expr_offsets e)"
| "expr_offsets (EAnd l r ofs) = insert ofs (expr_offsets l \<union> expr_offsets r)"
| "expr_offsets (EOr l r ofs) = insert ofs (expr_offsets l \<union> expr_offsets r)"

lemma prev_end_Ok: "prev_end toks pos = Ok k \<longleftrightarrow> pos - 1 < length toks \<and> k = off_end (tok_offset (toks ! (pos - 1)))"
  by (auto simp: prev_end_def get_def)

lemma finish_ether_Ok:
  "finish_ether toks (off_start (tok_offset (toks ! i))) r = Ok (e, j) \<Longrightarrow> ether_offset e = run_of toks i (j - 1)"
  by (cases r) (auto simp: finish_ether_def prev_end_Ok run_of_def)

lemma parse_ether_offset:
  assumes "pos < length toks" and "parse_ether_primitive toks pos = Ok (e, j)"
  shows "ether_offset e = run_of toks pos (j - 1)"
  using assms
  by (simp add: parse_ether_primitive_def Let_def split: if_split_asm) (auto dest: finish_ether_Ok)

lemma parse_primitive_offset:
  assumes "pos < length toks" and "parse_primitive toks pos = Ok (p, j)"
  shows "prim_offset p = run_of toks pos (j - 1)"
  using assms by (auto simp: parse_primitive_def Let_def prev_end_Ok run_of_def)

lemma parse_leaf_offset:
  assumes "pos < length toks" and "parse_leaf toks pos w = Ok (e, j)"
  shows "expr_offsets e = {run_of toks pos (j - 1)} \<and> offset_from_expr e = run_of toks pos (j - 1)"
  using assms parse_ether_offset [OF assms(1)] parse_primitive_offset [OF assms(1)]
  by (auto simp: parse_leaf_def split: if_splits)

text \<open>
  A tree that the tokens from \<open>i\<close> to before \<open>j\<close> derive: its own range runs from one of these tokens to
  the same or a later one, and so do the ranges within.
\<close>

definition ranged :: "token list \<Rightarrow> nat \<Rightarrow> expr \<Rightarrow> nat \<Rightarrow> bool" where
  "ranged toks i e j \<longleftrightarrow>
     (\<exists>a b. i \<le> a \<and> a \<le> b \<and> b < j \<and> offset_from_expr e = run_of toks a b) \<and>
     (\<forall>ofs \<in> expr_offsets e. span toks ofs)"

lemma ranged_mono: "ranged toks i e j \<Longrightarrow> i' \<le> i \<Longrightarrow> j \<le> j' \<Longrightarrow> ranged toks i' e j'"
  unfolding ranged_def by (meson le_trans less_le_trans)

lemma ranged_join:
  assumes "ranged toks i l j" and "ranged toks (Suc j) r k" and "k \<le> length toks"
  obtains a b where "i \<le> a" "a \<le> b" "b < k" "join_offset l r = run_of toks a b" "span toks (join_offset l r)"
proof -
  obtain a b where l: "i \<le> a" "a \<le> b" "b < j" "offset_from_expr l = run_of toks a b"
    using assms(1) by (auto simp: ranged_def)
  obtain c d where r: "Suc j \<le> c" "c \<le> d" "d < k" "offset_from_expr r = run_of toks c d"
    using assms(2) by (auto simp: ranged_def)
  have "join_offset l r = run_of toks a d" using l(4) r(4) by (simp add: join_offset_def run_of_def)
  moreover from this have "span toks (join_offset l r)" using l r assms(3) by (auto intro: spanI)
  ultimately show thesis using l r by (intro that [of a d]) auto
qed

lemma derivation_ranged:
  assumes toks: "ends_in_eof toks"
  shows "or_expr toks i e j \<Longrightarrow> ranged toks i e j"
    and "and_expr toks i e j \<Longrightarrow> ranged toks i e j"
    and "not_expr toks i e j \<Longrightarrow> ranged toks i e j"
    and "atom toks i e j \<Longrightarrow> ranged toks i e j"
proof (induction rule: or_expr_and_expr_not_expr_atom.inducts)
  case (or_chain i l j r k)
  have joined: "k \<le> length toks" using derivation_inside(2) [OF toks or_chain(5)] by simp
  show ?case
  proof (rule ranged_join [OF or_chain(2,6) joined])
    fix a b
    assume "i \<le> a" "a \<le> b" "b < k" "join_offset l r = run_of toks a b" "span toks (join_offset l r)"
    with or_chain(2,6) show ?thesis unfolding ranged_def by auto
  qed
next
  case (and_chain i l j r k)
  have joined: "k \<le> length toks" using derivation_inside(3) [OF toks and_chain(5)] by simp
  show ?case
  proof (rule ranged_join [OF and_chain(2,6) joined])
    fix a b
    assume "i \<le> a" "a \<le> b" "b < k" "join_offset l r = run_of toks a b" "span toks (join_offset l r)"
    with and_chain(2,6) show ?thesis unfolding ranged_def by auto
  qed
next
  case (not_prefix i e j)
  have "j < length toks" using derivation_inside(3) [OF toks not_prefix(3)] by simp
  obtain a b where "Suc i \<le> a" "a \<le> b" "b < j" "offset_from_expr e = run_of toks a b"
    and e: "\<forall>ofs \<in> expr_offsets e. span toks ofs"
    using not_prefix(4) by (auto simp: ranged_def)
  then have ofs: "Range (off_start (tok_offset (toks ! i))) (off_end (offset_from_expr e)) = run_of toks i b"
    and ib: "i \<le> b" "b < j" by (simp_all add: run_of_def)
  moreover have "span toks (run_of toks i b)" using ib \<open>j < length toks\<close> by (intro spanI) auto
  ultimately show ?case using e by (auto simp: ranged_def)
next
  case (atom_parens i e j)
  show ?case by (rule ranged_mono [OF atom_parens(4)]) auto
next
  case (atom_primitive i w e j)
  have "Suc i \<le> j" "j < length toks"
    using parse_leaf_lands [OF toks atom_primitive(1,2)] atom_primitive(3) by (simp_all add: lands_def)
  then have "i \<le> j - 1" "j - 1 < j" "span toks (run_of toks i (j - 1))" by (auto intro: spanI)
  with parse_leaf_offset [OF atom_primitive(1,3)] show ?case unfolding ranged_def by auto
qed auto

lemma parse_spans:
  assumes "ends_in_eof toks" and "parse toks = Ok e" and "ofs \<in> expr_offsets e"
  shows "span toks ofs"
  using derivation_ranged(1) [OF assms(1)] parse_grammar [OF assms(1)] assms(2,3)
  by (auto simp: ranged_def)

end
