(* ===== verification/Located.thy ===== *)
theory Located
  imports CompileCorrect Spans
begin

text \<open>
  Where errors of a compilation point: the instructions of a program carry the byte ranges of the
  primitives they were generated for, so the errors of the back end, like those of the parser, point at a
  stretch of the source.
\<close>

section \<open>Byte ranges of the generated code\<close>

fun leaf_offsets :: "expanded_expr \<Rightarrow> offset set" where
  "leaf_offsets (Leaf c) = {cp_offset c}"
| "leaf_offsets (EtherLeaf e) = {ether_offset e}"
| "leaf_offsets (XNot e) = leaf_offsets e"
| "leaf_offsets (XAnd l r) = leaf_offsets l \<union> leaf_offsets r"
| "leaf_offsets (XOr l r) = leaf_offsets l \<union> leaf_offsets r"

text \<open>Every instruction so far carries a range with \<open>P\<close>.\<close>

definition located :: "(offset \<Rightarrow> bool) \<Rightarrow> ir_builder \<Rightarrow> bool" where
  "located P b \<longleftrightarrow> (\<forall>i \<in> set (reals (stream b)). P (ir_offset i))"

lemma located_builder [simp]:
  "located P (place l b) = located P b"
  "located P (emit op ofs b) \<longleftrightarrow> located P b \<and> P ofs"
  "located P (fresh b) = located P b"
  by (auto simp: located_def fresh_def new_label_def)

named_theorems locates "emitters put the range they are given on what they emit"

lemma located_gates [locates]:
  assumes "P ofs"
  shows "located P (gate_ldh_eq j imm ofs lf b) = located P b"
    "located P (gate_ldb_eq j imm ofs lf b) = located P b"
    "located P (gate_ip_version ctx n ofs lf b) = located P b"
    "located P (emit_not_fragment_gate ctx ofs lf b) = located P b"
  using assms
  by (simp_all add: gate_ldh_eq_def gate_ldb_eq_def gate_ip_version_def emit_not_fragment_gate_def
      Let_def new_label_fresh)

lemma located_prologue:
  "emit_ethertype_and_proto_gates ctx et field proto ofs lf b = Ok b' \<Longrightarrow> P ofs \<Longrightarrow>
     located P b' = located P b"
  by (auto simp: emit_ethertype_and_proto_gates_def emit_l3_gate_def locates
      split: option.splits if_splits)

lemma located_terminals [locates]:
  assumes "P ofs"
  shows "located P (emit_addr_terminal ctx gates d msk target ofs br b) = located P b"
    "located P (emit_port_terminal ctx d lo hi ofs br b) = located P b"
    "located P (emit_port6_terminal ctx d lo hi ofs br b) = located P b"
    "located P (emit_mac_eq field mac ofs br b) = located P b"
  using assms
  by (auto simp: emit_addr_terminal_def emit_port_terminal_def emit_port6_terminal_def
      emit_port_compare_def emit_mac_eq_def Let_def new_label_fresh
      split: option.splits mac_addr.splits)

lemma located_addr6_words:
  "emit_addr6_words ctx start addr prefix words ofs br is b = Ok b' \<Longrightarrow> P ofs \<Longrightarrow>
     located P b' = located P b"
proof (induction "is" arbitrary: b)
  case (Cons i "is")
  then obtain b1 where "emit_addr6_word ctx start addr prefix words ofs br i b = Ok b1"
    and "emit_addr6_words ctx start addr prefix words ofs br is b1 = Ok b'" by auto
  then show ?case
    using Cons by (auto simp: emit_addr6_word_def Let_def new_label_fresh split: if_splits)
qed simp

lemma located_addr6_terminal:
  "emit_addr6_terminal ctx gates d addr prefix ofs br b = Ok b' \<Longrightarrow> P ofs \<Longrightarrow>
     located P b' = located P b"
  by (auto simp: emit_addr6_terminal_def Let_def dest: located_addr6_words split: if_splits)

lemma located_addr6:
  assumes "compile_addr6 p1 second ctx addr prefix br b = Ok b'" and "P (cp_offset p1)" and "located P b"
  shows "located P b'"
  using assms
  by (cases second)
     (auto simp: compile_addr6_def Let_def new_label_fresh split: if_splits
       dest!: located_prologue [where P = P] located_addr6_terminal [where P = P])

lemma located_addr:
  assumes "compile_addr p ctx addr prefix br b = Ok b'" and "P (cp_offset p)" and "located P b"
  shows "located P b'"
  using assms located_addr6 [of p None ctx _ prefix br b b' P]
  by (cases addr)
     (auto simp: compile_addr_def locates dest!: located_prologue [where P = P])

lemma located_addr_pair:
  assumes "compile_addr_pair p1 p2 ctx addr prefix br b = Ok b'" and "P (cp_offset p1)" and "located P b"
  shows "located P b'"
  using assms located_addr6 [of p1 "Some p2" ctx _ prefix br b b' P]
  by (cases addr)
     (auto simp: compile_addr_pair_def Let_def new_label_fresh locates
       dest!: located_prologue [where P = P])

lemma located_port:
  assumes "P (cp_offset p1)" and "located P b"
  shows "compile_port p1 ctx lo hi br b = Ok b' \<Longrightarrow> located P b'"
    and "compile_port_pair p1 p2 ctx lo hi br b = Ok b' \<Longrightarrow> located P b'"
  using assms
  by (auto simp: compile_port_def compile_port_pair_def compile_port4_def compile_port4_pair_def
      compile_port6_def compile_port6_pair_def Let_def new_label_fresh locates
      dest!: located_prologue [where P = P] split: prod.splits)

lemma located_ether:
  assumes "compile_ether e ctx br b = Ok b'" and "P (ether_offset e)" and "located P b"
  shows "located P b'"
  using assms
  by (auto simp: compile_ether_def compile_ether_host_def compile_ether_proto_def
      compile_ether_multicast_def new_label_fresh Let_def locates
      split: if_splits ether_kind.splits option.splits dir_tag.splits)

lemma located_primitive:
  assumes "P (cp_offset p1)" and "located P b"
  shows "compile_primitive p1 ctx br b = Ok b' \<Longrightarrow> located P b'"
    and "compile_dir_pair p1 p2 ctx br b = Ok b' \<Longrightarrow> located P b'"
  using assms
  by (auto simp: compile_primitive_def compile_dir_pair_def split: prim_type.splits
      dest: located_addr located_addr_pair located_port)

lemma located_expr:
  "compile_expr x ctx br b = Ok b' \<Longrightarrow> \<forall>ofs \<in> leaf_offsets x. P ofs \<Longrightarrow> located P b \<Longrightarrow> located P b'"
proof (induction x arbitrary: br b b')
  case (Leaf c)
  then show ?case using located_primitive(1) by simp
next
  case (EtherLeaf e)
  then show ?case using located_ether by simp
next
  case (XAnd l r)
  then show ?case by (auto simp: new_label_fresh)
next
  case (XOr l r)
  show ?case
  proof (cases "dir_pair l r")
    case None
    then show ?thesis using XOr by (auto simp: new_label_fresh)
  next
    case (Some pq)
    then obtain p1 p2 where p: "dir_pair l r = Some (p1, p2)" by (cases pq) auto
    with XOr.prems dir_pair_Some [OF p] located_primitive(2) [of P p1 b p2 ctx br b'] show ?thesis by simp
  qed
qed simp

lemma generate_offsets:
  assumes "generate x lt snaplen = Ok ir" and "i \<in> set (reals (prog_stream ir))"
  shows "ir_offset i \<in> leaf_offsets x \<or> (\<exists>v. ir_op2 i = IrRet v)"
proof -
  let ?b = "\<lparr>stream = [], num_labels = 2\<rparr>"
  obtain b' where b': "compile_expr x (mk_ctx lt) (mk_branch (Label 0) (Label 1)) ?b = Ok b'"
    and ir: "ir = finish (emit (IrRet 0) (Range 0 0) (place (Label 1)
        (emit (IrRet snaplen) (Range 0 0) (place (Label 0) b'))))"
    using assms(1) by (auto simp: generate_def new_builder_def new_label_def Let_def numeral_2_eq_2)
  have "located (\<lambda>ofs. ofs \<in> leaf_offsets x) b'"
    by (rule located_expr [OF b']) (simp_all add: located_def)
  then show ?thesis using assms(2) by (auto simp: ir located_def)
qed

lemma refusal_offset: "first_refusal lt x = Some err \<Longrightarrow> err_offset err \<in> leaf_offsets x"
  by (induction x) (auto simp: refuse_def split: option.splits if_splits)

section \<open>Errors of the assembler\<close>

lemma resolve_pair_blames:
  "blames ((=) ofs) (resolve_pair idx t f offsets ofs mk)"
proof -
  have *: "blames ((=) ofs) (displacement_from idx l offsets)" for l
    by (simp add: displacement_from_def Let_def split: option.split)
  have "blames ((=) ofs) (resolve_branch idx l offsets ofs)" for l
    unfolding resolve_branch_def by (rule blames_and_then [OF *]) simp
  then show ?thesis unfolding resolve_pair_def by (auto intro!: blames_and_then)
qed

lemma lower_blames:
  "lower idx i offsets = Err e \<Longrightarrow> err_offset e = ir_offset i \<and> (\<forall>v. ir_op2 i \<noteq> IrRet v)"
  using resolve_pair_blames
  by (auto simp: lower_def blames_def resolve_jmp_def displacement_from_def Let_def and_then_Err
      split: ir_op2.splits option.splits if_splits)

lemma pass_b_blames:
  "pass_b idx is offsets = Err e \<Longrightarrow> \<exists>i \<in> set is. err_offset e = ir_offset i \<and> (\<forall>v. ir_op2 i \<noteq> IrRet v)"
  by (induction "is" arbitrary: idx) (auto simp: and_then_Err dest: lower_blames)

lemma assemble_blames:
  assumes "assemble ir = Err e"
  shows "\<exists>i \<in> set (reals (prog_stream ir)). err_offset e = ir_offset i \<and> (\<forall>v. ir_op2 i \<noteq> IrRet v)"
  using assms pass_a_reals [of "prog_stream ir" "replicate (prog_num_labels ir) None" "[]", OF refl]
  by (auto simp: assemble_def dest: pass_b_blames)

section \<open>Errors of a compilation\<close>

lemma leaf_offsets_chain:
  "leaf_offsets (foldl XOr x (map Leaf cs)) = leaf_offsets x \<union> cp_offset ` set cs"
  by (induction cs arbitrary: x) auto

lemma expand_offsets: "expand e = Ok x \<Longrightarrow> leaf_offsets x \<subseteq> expr_offsets e"
proof (induction e arbitrary: x)
  case (EPrimitive pr)
  obtain c cs where c: "resolutions pr = c # cs"
    and "expand_primitive pr = Ok (foldl XOr (Leaf c) (map Leaf cs))"
    by (rule expand_primitive_Ok)
  moreover have "\<forall>c' \<in> set (c # cs). cp_offset c' = prim_offset pr"
    using resolutions_fields [of _ pr] by (simp add: c)
  ultimately show ?case using EPrimitive by (auto simp: leaf_offsets_chain)
qed auto

lemma back_end_blames:
  assumes "wf_expanded x" and "backend.backend_of x lt snaplen = Err err"
  shows "err_offset err \<in> leaf_offsets x"
proof (cases "generate x lt snaplen")
  case (Ok ir)
  then have "assemble ir = Err err" using assms(2) by (simp add: backend.backend_of_def)
  from assemble_blames [OF this] generate_offsets [OF Ok] show ?thesis by metis
next
  case (Err e)
  then have "e = err" using assms(2) by (simp add: backend.backend_of_def)
  with Err generate_outcome [OF assms(1), of lt snaplen] show ?thesis
    by (auto simp: expr_outcome_def is_ok_Ok intro: refusal_offset split: option.splits)
qed (use assms(2) in \<open>simp_all add: backend.backend_of_def\<close>)

lemma compile_blames:
  assumes "lex src = Ok toks" and "compile src lt snaplen = Err err"
  shows "in_source src (err_offset err)"
proof -
  have toks: "ends_in_eof toks" using lex_yields [of src] assms(1) by (simp add: yields_def)
  have "span toks (err_offset err)"
  proof (cases "parse toks")
    case (Ok e)
    obtain x where x: "expand e = Ok x" using expand_total by blast
    have "lexer.front src = Ok e" by (rule front_eq [OF assms(1) Ok])
    then have "backend.backend_of x lt snaplen = Err err"
      using assms(2) by (simp add: compile_stages x and_then_Err)
    moreover have "wf_expanded x"
      using expand_wf [OF x] parse_yields [OF toks] Ok by (simp add: yields_def)
    ultimately have "err_offset err \<in> expr_offsets e"
      using back_end_blames expand_offsets [OF x] by blast
    then show ?thesis by (rule parse_spans [OF toks Ok])
  next
    case (Err e)
    then have "e = err" using assms by (simp add: compile_stages lexer.front_def)
    with Err parse_blames [OF toks] show ?thesis by (simp add: blames_def)
  qed (use assms in \<open>simp_all add: compile_stages lexer.front_def\<close>)
  with assms(1) show ?thesis by (rule span_in_source)
qed

lemma boundary_bound: "boundary src k \<Longrightarrow> k \<le> str_len src"
  by (auto simp: boundary_def)

lemma compile_lex_error: "lex src = Err e \<Longrightarrow> compile src lt snaplen = Err e"
  by (simp add: compile_stages lexer.front_def)

lemma compile_error_bounds:
  assumes "compile src lt snaplen = Err err"
  shows "off_start (err_offset err) \<le> off_end (err_offset err) \<and> off_end (err_offset err) \<le> str_len src"
proof (cases "lex src")
  case (Ok toks)
  from compile_blames [OF this assms] show ?thesis by (auto simp: in_source_def intro: boundary_bound)
next
  case (Err e)
  then have e: "e = err" using compile_lex_error assms by simp
  obtain pre c post where "src = pre @ c # post"
    and "e = new_error (Range (str_len pre) (str_len pre + 1)) (UnexpectedChar c)"
    using lex_error [OF Err] by blast
  then show ?thesis using e by (simp add: len_utf8_def)
next
  case Panic
  then show ?thesis using assms by (simp add: compile_stages lexer.front_def)
next
  case Diverge
  then show ?thesis using assms by (simp add: compile_stages lexer.front_def)
qed

text \<open>The range of an unexpected character is one byte long and splits any character outside ASCII.\<close>

lemma unexpected_splits:
  assumes "lex src = Err e" and "err_tag e = UnexpectedChar c" and "128 \<le> c"
  shows "\<not> boundary src (off_end (err_offset e))"
proof
  obtain pre post where src: "src = pre @ c # post"
    and e: "off_end (err_offset e) = str_len pre + 1"
    using lex_error [OF assms(1)] assms(2) by (auto simp: new_error_def)
  assume "boundary src (off_end (err_offset e))"
  then obtain u v where u: "pre @ c # post = u @ v" "str_len u = str_len pre + 1"
    using src e by (auto simp: boundary_def)
  then obtain s where "u = pre @ s" by (auto simp: append_eq_append_conv2)
  moreover from this u obtain s' where "s = c # s'" by (cases s) auto
  moreover have "2 \<le> len_utf8 c" using assms(3) by (simp add: len_utf8_def)
  ultimately show False using u(2) by simp
qed

lemma lex_error_boundary:
  assumes "lex src = Err err"
  shows "\<exists>pre c post. src = pre @ c # post \<and> \<not> is_whitespace c \<and>
    (\<nexists>tag s rest. c # post = s @ rest \<and> spells tag s \<and> maximal s rest) \<and>
    err = new_error (Range (str_len pre) (str_len pre + 1)) (UnexpectedChar c) \<and>
    (boundary src (str_len pre + 1) \<longleftrightarrow> c < 128)"
proof -
  obtain pre c post where src: "src = pre @ c # post" and c: "\<not> is_whitespace c"
      "\<nexists>tag s rest. c # post = s @ rest \<and> spells tag s \<and> maximal s rest"
    and err: "err = new_error (Range (str_len pre) (str_len pre + 1)) (UnexpectedChar c)"
    using lex_error [OF assms] by blast
  have "boundary src (str_len pre + 1) \<longleftrightarrow> c < 128"
  proof
    assume "c < 128"
    then show "boundary src (str_len pre + 1)"
      by (intro boundaryI [of _ "pre @ [c]" post]) (simp_all add: src)
  next
    assume "boundary src (str_len pre + 1)"
    then have "\<not> 128 \<le> c" using unexpected_splits [OF assms, of c] by (auto simp: err new_error_def)
    then show "c < 128" by simp
  qed
  with src c err show ?thesis by blast
qed

end
