(* ===== verification/CodeSize.thy ===== *)
theory CodeSize
  imports GenerateCorrect
begin

text \<open>
  The exact number of instructions the code generator emits, as a function of the expanded expression
  and the link type.
\<close>

section \<open>What the parts of a test cost\<close>

text \<open>The test for the network layer takes an instruction more where there is no ethertype field.\<close>

definition gate_size :: "ctx \<Rightarrow> nat" where
  "gate_size ctx = (if eth_field ctx = None then 3 else 2)"

text \<open>One comparison of a port, or two for a range.\<close>

definition port_size :: "u16 \<Rightarrow> u16 \<Rightarrow> nat" where
  "port_size lo hi = (if lo = hi then 1 else 2)"

text \<open>
  Load and comparison of an IPv4 address with a mask unless the prefix is full; of an IPv6 address one
  word for every 32 bits of the prefix, the last masked when the prefix ends inside it.
\<close>

definition v4_size :: "u8 option \<Rightarrow> nat" where
  "v4_size prefix = (if prefix = None \<or> prefix = Some 32 then 2 else 3)"

definition v6_size :: "nat \<Rightarrow> nat" where
  "v6_size prefix =
     (if prefix = 0 then 1
      else 2 * ((prefix + 31) div 32) + (if prefix mod 32 = 0 then 0 else 1))"

definition proto_size :: "compiled_proto \<Rightarrow> nat" where
  "proto_size proto = (if proto \<in> {CTcp, CUdp, CIcmp} then 2 else 0)"

text \<open>Everything before the comparison, and the comparison: a pair of directions shares the former.\<close>

definition addr_size :: "nat \<Rightarrow> ctx \<Rightarrow> compiled_proto \<Rightarrow> addr_lit \<Rightarrow> u8 option \<Rightarrow> nat" where
  "addr_size dirs ctx proto addr prefix =
     (case addr of
        V4 a \<Rightarrow> gate_size ctx + proto_size proto + dirs * v4_size prefix
      | V6 a \<Rightarrow> gate_size ctx + dirs * v6_size (unat (case prefix of None \<Rightarrow> 128 | Some n \<Rightarrow> n)))"

definition ports_size :: "nat \<Rightarrow> ctx \<Rightarrow> u16 \<Rightarrow> u16 \<Rightarrow> nat" where
  "ports_size dirs ctx lo hi =
     (gate_size ctx + 5 + dirs * (1 + port_size lo hi)) +
     (gate_size ctx + 2 + dirs * (1 + port_size lo hi))"

definition leaf_size :: "nat \<Rightarrow> ctx \<Rightarrow> compiled_primitive \<Rightarrow> nat" where
  "leaf_size dirs ctx c =
     (case cp_ty c of
        Host addr \<Rightarrow> addr_size dirs ctx (cp_proto c) addr None
      | Net addr prefix \<Rightarrow>
          addr_size dirs ctx (cp_proto c) addr
            (Some (case prefix of None \<Rightarrow> full_prefix addr | Some n \<Rightarrow> n))
      | Port port \<Rightarrow> ports_size dirs ctx port port
      | PortRange lo hi \<Rightarrow> ports_size dirs ctx lo hi)"

definition ether_size :: "ether_kind \<Rightarrow> nat" where
  "ether_size kind =
     (case kind of
        EtherHost mac None \<Rightarrow> 8 | EtherHost mac (Some d) \<Rightarrow> 4 | EtherProto v \<Rightarrow> 2
      | EtherBroadcast \<Rightarrow> 4 | EtherMulticast \<Rightarrow> 2)"

text \<open>Connectives cost nothing; two leaves that differ only in direction share their prologue.\<close>

fun code_size :: "ctx \<Rightarrow> expanded_expr \<Rightarrow> nat" where
  "code_size ctx (Leaf c) = leaf_size 1 ctx c"
| "code_size ctx (EtherLeaf e) = ether_size (ether_kind e)"
| "code_size ctx (XNot e) = code_size ctx e"
| "code_size ctx (XAnd l r) = code_size ctx l + code_size ctx r"
| "code_size ctx (XOr l r) =
     (case dir_pair l r of
        Some (c, d) \<Rightarrow> leaf_size 2 ctx c
      | None \<Rightarrow> code_size ctx l + code_size ctx r)"

section \<open>What the emitters add\<close>

definition code :: "ir_builder \<Rightarrow> nat" where
  "code b = length (reals (stream b))"

lemma code_builder [simp]:
  "code (place l b) = code b" "code (emit op ofs b) = code b + 1" "code (fresh b) = code b"
  by (simp_all add: code_def fresh_def)

lemma code_gates [simp]:
  "code (gate_ldh_eq j imm ofs lf b) = code b + 2"
  "code (gate_ldb_eq j imm ofs lf b) = code b + 2"
  "code (gate_ip_version ctx n ofs lf b) = code b + 3"
  "code (emit_not_fragment_gate ctx ofs lf b) = code b + 2"
  by (simp_all add: gate_ldh_eq_def gate_ldb_eq_def gate_ip_version_def emit_not_fragment_gate_def
      Let_def new_label_fresh)

lemma code_l3_gate: "emit_l3_gate ctx et ofs lf b = Ok b' \<Longrightarrow> code b' = code b + gate_size ctx"
  unfolding emit_l3_gate_def gate_size_def by (cases "eth_field ctx") (auto split: if_splits)

lemma code_prologue:
  assumes "emit_ethertype_and_proto_gates ctx et field proto ofs lf b = Ok b'"
  shows "code b' = code b + gate_size ctx + (if proto = None then 0 else 2)"
  using assms unfolding emit_ethertype_and_proto_gates_def
  by (cases proto) (auto dest: code_l3_gate)

lemma code_port_terminals [simp]:
  "code (emit_port_terminal ctx d lo hi ofs br b) = code b + 1 + port_size lo hi"
  "code (emit_port6_terminal ctx d lo hi ofs br b) = code b + 1 + port_size lo hi"
  by (simp_all add: emit_port_terminal_def emit_port6_terminal_def emit_port_compare_def port_size_def
      Let_def new_label_fresh)

lemma code_mac [simp]: "code (emit_mac_eq field mac ofs br b) = code b + 4"
  by (simp add: emit_mac_eq_def Let_def new_label_fresh split: mac_addr.split)

lemma code_addr_terminal:
  "code (emit_addr_terminal ctx gates d msk target ofs br b) =
     code b + 2 + (if msk = None \<or> msk = Some (- 1) then 0 else 1)"
  by (auto simp: emit_addr_terminal_def Let_def split: option.splits)

section \<open>Masks\<close>

lemma netmask_full:
  assumes "netmask n = Ok m"
  shows "m = - 1 \<longleftrightarrow> unat n = 32"
proof -
  have "bit m 0 \<longleftrightarrow> unat n = 32"
  proof (cases "n = 0")
    case True
    then show ?thesis using assms by (simp add: netmask_def)
  next
    case False
    then have "unat n \<le> 32" "m = push_bit (32 - unat n) (- 1)"
      using assms by (auto simp: netmask_def split: if_splits)
    then show ?thesis by (auto simp: bit_push_bit_iff simp del: push_bit_minus_one_eq_not_mask push_bit_minus_one)
  qed
  moreover have "m = - 1" if "unat n = 32"
    using that assms by (auto simp: netmask_def split: if_splits)
  ultimately show ?thesis by auto
qed

lemma code_addr_terminal_netmask:
  assumes "map_netmask prefix = Ok msk"
  shows "code (emit_addr_terminal ctx gates d msk target ofs br b) = code b + v4_size prefix"
proof (cases prefix)
  case (Some n)
  then obtain m where m: "netmask n = Ok m" "msk = Some m" using assms by auto
  have "n = 32 \<longleftrightarrow> unat n = 32" by (auto simp: word_unat_eq_iff)
  with netmask_full [OF m(1)] show ?thesis by (simp add: code_addr_terminal v4_size_def Some m(2))
qed (use assms in \<open>simp add: code_addr_terminal v4_size_def\<close>)

section \<open>IPv6 words\<close>

definition word_size :: "nat \<Rightarrow> nat \<Rightarrow> nat" where
  "word_size prefix i = (if 32 \<le> prefix - 32 * i then 2 else 3)"

lemma code_addr6_word:
  assumes "emit_addr6_word ctx start addr prefix words ofs br i b = Ok b'"
  shows "code b' = code b + word_size prefix i"
proof -
  let ?n = "of_nat (min (prefix - 32 * i) 32) :: u8"
  obtain m where m: "netmask ?n = Ok m"
    using assms by (auto simp: emit_addr6_word_def Let_def split: if_splits)
  have "unat ?n = min (prefix - 32 * i) 32" by (simp add: unat_of_nat_u8)
  with netmask_full [OF m] have "m = - 1 \<longleftrightarrow> 32 \<le> prefix - 32 * i" by auto
  with assms m show ?thesis
    by (auto simp: emit_addr6_word_def word_size_def new_label_fresh Let_def split: if_splits)
qed

lemma code_addr6_words:
  "emit_addr6_words ctx start addr prefix words ofs br is b = Ok b' \<Longrightarrow>
     code b' = code b + sum_list (map (word_size prefix) is)"
  by (induction "is" arbitrary: b) (auto dest: code_addr6_word)

lemma full_words: "w \<le> prefix div 32 \<Longrightarrow> sum_list (map (word_size prefix) [0..<w]) = 2 * w"
  by (induction w) (auto simp: word_size_def)

lemma ceil_words: "(n + 31) div 32 = n div 32 + (if n mod 32 = 0 then 0 else (1::nat))"
proof -
  let ?r = "n mod 32"
  have "(n + 31) div 32 = (?r + 31 + 32 * (n div 32)) div 32"
    by (simp add: add.commute add.left_commute)
  also have "\<dots> = n div 32 + (?r + 31) div 32" by (subst div_mult_self2) auto
  also have "(?r + 31) div 32 = (if ?r = 0 then 0 else 1)"
  proof (cases "?r = 0")
    case False
    then have "32 \<le> ?r + 31" "?r + 31 < 2 * 32" using mod_less_divisor [of 32 n] by linarith+
    then have "(?r + 31) div 32 = 1" by (intro div_nat_eqI) simp_all
    with False show ?thesis by (simp only: if_False)
  qed simp
  finally show ?thesis .
qed
lemma sum_word_size:
  "sum_list (map (word_size prefix) [0..<(prefix + 31) div 32]) =
     2 * ((prefix + 31) div 32) + (if prefix mod 32 = 0 then 0 else 1)"
proof (cases "prefix mod 32 = 0")
  case True
  show ?thesis unfolding ceil_words if_P [OF True] add_0_right full_words [OF order_refl] ..
next
  case False
  have "prefix - 32 * (prefix div 32) < 32" by (simp add: minus_mult_div_eq_mod)
  then have "word_size prefix (prefix div 32) = 3" by (simp only: word_size_def not_le [symmetric] if_False)
  then show ?thesis
    unfolding ceil_words if_not_P [OF False] upt_Suc_append [OF le0] map_append sum_list_append add_Suc_right
      One_nat_def add_0_right full_words [OF order_refl]
    by simp
qed

lemma code_addr6_terminal:
  assumes "emit_addr6_terminal ctx gates d addr prefix ofs br b = Ok b'"
  shows "code b' = code b + v6_size prefix"
proof (cases "prefix = 0")
  case False
  then have "(prefix + 31) div 32 \<noteq> 0" by (simp add: div_eq_0_iff)
  with assms have "emit_addr6_words ctx (dir_offset gates d) addr prefix ((prefix + 31) div 32) ofs br
      [0..<(prefix + 31) div 32] b = Ok b'"
    by (simp only: emit_addr6_terminal_def Let_def if_False)
  from code_addr6_words [OF this] show ?thesis
    unfolding sum_word_size v6_size_def using False by (simp only: if_False)
qed (use assms in \<open>auto simp: emit_addr6_terminal_def v6_size_def Let_def\<close>)

section \<open>Leaves\<close>

lemma code_addr6:
  assumes "compile_addr6 p second ctx addr prefix br b = Ok b'"
  shows "code b' = code b + addr_size (if second = None then 1 else 2) ctx (cp_proto p) (V6 addr) prefix"
  using assms
  by (auto simp: compile_addr6_def addr_size_def new_label_fresh Let_def
      dest!: code_prologue code_addr6_terminal split: if_splits option.splits)

lemma code_addr:
  "compile_addr p ctx addr prefix br b = Ok b' \<Longrightarrow>
     code b' = code b + addr_size 1 ctx (cp_proto p) addr prefix"
  by (cases addr; cases "cp_proto p")
    (auto simp: compile_addr_def addr_size_def proto_size_def ip_gates_def arp_gates_def
      code_addr_terminal_netmask dest!: code_prologue code_addr6)

lemma code_addr_pair:
  "compile_addr_pair p1 p2 ctx addr prefix br b = Ok b' \<Longrightarrow>
     code b' = code b + addr_size 2 ctx (cp_proto p1) addr prefix"
  by (cases addr; cases "cp_proto p1")
    (auto simp: compile_addr_pair_def addr_size_def proto_size_def ip_gates_def arp_gates_def
      code_addr_terminal_netmask new_label_fresh Let_def dest!: code_prologue code_addr6)

lemma code_port:
  "compile_port p ctx lo hi br b = Ok b' \<Longrightarrow> code b' = code b + ports_size 1 ctx lo hi"
  by (auto simp: compile_port_def compile_port4_def compile_port6_def ports_size_def new_label_fresh Let_def
      dest!: code_prologue)

lemma code_port_pair:
  "compile_port_pair p1 p2 ctx lo hi br b = Ok b' \<Longrightarrow> code b' = code b + ports_size 2 ctx lo hi"
  by (auto simp: compile_port_pair_def compile_port4_pair_def compile_port6_pair_def ports_size_def
      new_label_fresh Let_def dest!: code_prologue)

lemma code_primitive:
  "compile_primitive p ctx br b = Ok b' \<Longrightarrow> code b' = code b + leaf_size 1 ctx p"
  by (auto simp: compile_primitive_def leaf_size_def dest!: code_addr code_port split: prim_type.splits)

lemma code_dir_pair:
  "compile_dir_pair p1 p2 ctx br b = Ok b' \<Longrightarrow> code b' = code b + leaf_size 2 ctx p1"
  by (auto simp: compile_dir_pair_def leaf_size_def dest!: code_addr_pair code_port_pair
      split: prim_type.splits)

lemma code_ether: "compile_ether e ctx br b = Ok b' \<Longrightarrow> code b' = code b + ether_size (ether_kind e)"
  by (auto simp: compile_ether_def compile_ether_host_def compile_ether_proto_def
      compile_ether_multicast_def ether_size_def new_label_fresh Let_def
      split: if_splits ether_kind.splits option.splits dir_tag.splits)

section \<open>Expressions\<close>

lemma code_expr: "compile_expr e ctx br b = Ok b' \<Longrightarrow> code b' = code b + code_size ctx e"
proof (induction e arbitrary: br b b')
  case (XAnd l r)
  then show ?case by (auto simp: new_label_fresh Let_def)
next
  case (XOr l r)
  show ?case
  proof (cases "dir_pair l r")
    case None
    then show ?thesis using XOr by (auto simp: new_label_fresh Let_def)
  next
    case (Some pq)
    then show ?thesis using XOr.prems by (cases pq) (auto dest: code_dir_pair)
  qed
qed (auto dest: code_primitive code_ether)

theorem generate_code_size:
  assumes "generate e lt snaplen = Ok ir"
  shows "length (reals (prog_stream ir)) = code_size (mk_ctx lt) e + 2"
  using assms
  by (auto simp: generate_def new_builder_def new_label_def Let_def numeral_2_eq_2 code_def
      dest!: code_expr)

section \<open>A bound for each primitive\<close>

text \<open>A resolved primitive takes nineteen instructions at most, which a port range on a raw link does.\<close>

lemma v6_size_le: "prefix \<le> 128 \<Longrightarrow> v6_size prefix \<le> 9"
  using div_le_mono [of "prefix + 31" 159 32] by (simp add: v6_size_def)

lemma addr6_terminal_prefix:
  assumes "emit_addr6_terminal ctx gates d addr prefix ofs br b = Ok b'"
  shows "v6_size prefix \<le> 9"
proof (cases "(prefix + 31) div 32")
  case 0
  then show ?thesis by (auto simp: div_eq_0_iff v6_size_def)
next
  case (Suc w)
  with assms have "emit_addr6_words ctx (dir_offset gates d) addr prefix (Suc w) ofs br [0..<Suc w] b = Ok b'"
    by (simp only: emit_addr6_terminal_def Let_def nat.distinct if_False)
  then have "w \<le> 3" by (auto dest!: weight_addr6_words)
  then have "(prefix + 31) div 32 \<le> 4" using Suc by simp
  then show ?thesis by (simp add: v6_size_def)
qed

lemma gate_size_le: "gate_size ctx \<le> 3"
  by (simp add: gate_size_def)

lemma ports_size_le: "1 \<le> dirs \<Longrightarrow> ports_size dirs ctx lo hi \<le> 19 * dirs"
  using gate_size_le [of ctx] by (simp add: ports_size_def port_size_def)

lemma addr_size_V4_le: "1 \<le> dirs \<Longrightarrow> addr_size dirs ctx proto (V4 a) prefix \<le> 19 * dirs"
  using gate_size_le [of ctx] by (simp add: addr_size_def proto_size_def v4_size_def)

lemma addr_size_V6_le:
  assumes "compile_addr6 p second ctx addr prefix br b = Ok b'" and "1 \<le> dirs"
  shows "addr_size dirs ctx proto (V6 addr) prefix \<le> 19 * dirs"
proof -
  let ?n = "unat (case prefix of None \<Rightarrow> 128 | Some n \<Rightarrow> n)"
  have "v6_size ?n \<le> 9"
    using assms(1)
    by (auto simp: compile_addr6_def new_label_fresh Let_def dest!: addr6_terminal_prefix
        split: if_splits option.splits)
  then have "dirs * v6_size ?n \<le> 9 * dirs" by simp
  with gate_size_le [of ctx] assms(2) show ?thesis unfolding addr_size_def addr_lit.case by linarith
qed

lemma addr_size_le:
  "compile_addr p ctx addr prefix br b = Ok b' \<Longrightarrow> addr_size 1 ctx (cp_proto p) addr prefix \<le> 19"
  "compile_addr_pair p q ctx addr prefix br b = Ok b' \<Longrightarrow> addr_size 2 ctx (cp_proto p) addr prefix \<le> 38"
  using addr_size_V4_le [of 1] addr_size_V4_le [of 2] addr_size_V6_le [where dirs = 1]
    addr_size_V6_le [where dirs = 2]
  by (cases addr; fastforce simp: compile_addr_def compile_addr_pair_def)+

lemma primitive_size_le: "compile_primitive p ctx br b = Ok b' \<Longrightarrow> leaf_size 1 ctx p \<le> 19"
  using ports_size_le [of 1]
  by (auto simp: compile_primitive_def leaf_size_def dest: addr_size_le split: prim_type.splits)

lemma dir_pair_size_le: "compile_dir_pair p q ctx br b = Ok b' \<Longrightarrow> leaf_size 2 ctx p \<le> 38"
  using ports_size_le [of 2]
  by (auto simp: compile_dir_pair_def leaf_size_def dest: addr_size_le split: prim_type.splits)

lemma ether_size_le: "ether_size k \<le> 8"
  by (cases k) (auto simp: ether_size_def split: option.splits)

lemma code_size_le: "compile_expr e ctx br b = Ok b' \<Longrightarrow> code_size ctx e \<le> 19 * leaves e"
proof (induction e arbitrary: br b b')
  case (EtherLeaf e)
  show ?case using ether_size_le [of "ether_kind e"] by simp
next
  case (XAnd l r)
  then show ?case by (fastforce simp: new_label_fresh Let_def distrib_left)
next
  case (XOr l r)
  show ?case
  proof (cases "dir_pair l r")
    case None
    with XOr show ?thesis by (fastforce simp: new_label_fresh Let_def distrib_left)
  next
    case (Some pq)
    with XOr.prems dir_pair_Some [of l r] dir_pair_size_le show ?thesis by (cases pq) fastforce
  qed
qed (auto dest: primitive_size_le)

lemma generate_code_size_le:
  "generate e lt snaplen = Ok ir \<Longrightarrow> code_size (mk_ctx lt) e \<le> 19 * leaves e"
  by (auto simp: generate_def Let_def new_label_fresh dest: code_size_le)

end
