(* ===== verification/Overflow.thy ===== *)
theory Overflow
  imports CompileCorrect CodeSize
begin

text \<open>
  When a compilation runs into the one-byte limit of conditional jumps. Code of 256 instructions is
  always within the limit, and thirteen resolved primitives never take more. For \<open>port\<close> primitives
  without protocol and direction, joined by \<open>or\<close> in any shape, the limit is exact: three are within it on
  a link with an ethertype field and two on a raw one, and one more is beyond it.
\<close>

section \<open>Programs within the limit\<close>

lemma target_index_le: "target_index ops l \<le> length (reals ops)"
proof -
  have "reals ops = reals (takeWhile (\<lambda>i. i \<noteq> Mark l) ops) @ reals (dropWhile (\<lambda>i. i \<noteq> Mark l) ops)"
    by (simp flip: reals_append)
  then show ?thesis by (metis target_index_def le_add1 length_append)
qed

lemma no_overflow:
  assumes "length (reals ops) \<le> 256"
  shows "first_overflow ops j is = None"
proof (induction "is" arbitrary: j)
  case (Cons i "is")
  have "displacement ops j l \<le> 255" for l
    using target_index_le [of ops l] assms by (simp add: displacement_def)
  then have "filter (\<lambda>l. 255 < displacement ops j l) (cond_targets (ir_op2 i)) = []"
    by (simp add: filter_empty_conv not_less)
  then show ?case using Cons by simp
qed simp

lemma short_code_no_overflow:
  assumes "generate x lt snaplen = Ok ir" and "code_size (mk_ctx lt) x \<le> 254"
  shows "overflow_of ir = None"
  unfolding overflow_of_def
  using generate_code_size [OF assms(1)] assms(2) by (intro no_overflow) simp

lemma few_leaves_no_overflow:
  assumes "generate x lt snaplen = Ok ir" and "leaves x \<le> 13"
  shows "overflow_of ir = None"
  using generate_code_size_le [OF assms(1)] assms(2) by (intro short_code_no_overflow [OF assms(1)]) simp

section \<open>Programs beyond the limit\<close>

definition overflows :: "compile_error option \<Rightarrow> bool" where
  "overflows r \<longleftrightarrow> (\<exists>ofs idx d. r = Some (new_error ofs (JumpDisplacementOverflow idx d)))"

lemma overflow_at:
  "j < length is \<Longrightarrow> l \<in> set (cond_targets (ir_op2 (is ! j))) \<Longrightarrow> k + j + 256 < target_index ops l \<Longrightarrow>
     overflows (first_overflow ops k is)"
proof (induction "is" arbitrary: j k)
  case (Cons i "is")
  show ?case
  proof (cases "filter (\<lambda>l. 255 < displacement ops k l) (cond_targets (ir_op2 i))")
    case Nil
    have "j \<noteq> 0"
    proof
      assume "j = 0"
      then have "l \<in> set (filter (\<lambda>l. 255 < displacement ops k l) (cond_targets (ir_op2 i)))"
        using Cons.prems by (simp add: displacement_def)
      with Nil show False by simp
    qed
    then obtain j' where "j = Suc j'" by (cases j) auto
    with Cons.IH [of j' "k + 1"] Cons.prems Nil show ?thesis by simp
  qed (auto simp: overflows_def)
qed simp

text \<open>
  Transitions of the builder that append \<open>n\<close> instructions, and those whose first eleven
  instructions have a conditional jump to \<open>l\<close>.
\<close>

definition adds :: "nat \<Rightarrow> ir_builder \<Rightarrow> ir_builder \<Rightarrow> bool" where
  "adds n b b' \<longleftrightarrow> (\<exists>ops. stream b' = stream b @ ops \<and> length (reals ops) = n)"

definition leaves_early :: "label \<Rightarrow> ir_builder \<Rightarrow> ir_builder \<Rightarrow> bool" where
  "leaves_early l b b' \<longleftrightarrow>
     (\<exists>ops. stream b' = stream b @ ops \<and>
        (\<exists>i \<in> set (take 11 (reals ops)). l \<in> set (cond_targets (ir_op2 i))))"

lemma adds_trans: "adds m b b1 \<Longrightarrow> adds n b1 b2 \<Longrightarrow> adds (m + n) b b2"
  by (fastforce simp: adds_def)

lemma adds_place: "adds n (place l b) b' \<Longrightarrow> adds n b b'"
  by (auto simp: adds_def)

lemma fresh_starts [simp]:
  "adds n (fresh b) b' = adds n b b'" "leaves_early l (fresh b) b' = leaves_early l b b'"
  by (simp_all add: adds_def leaves_early_def fresh_def)

lemma leaves_early_adds: "leaves_early l b b1 \<Longrightarrow> adds n b1 b2 \<Longrightarrow> leaves_early l b b2"
  by (fastforce simp: adds_def leaves_early_def)

lemmas port_emitters =
  compile_port_def compile_port_pair_def compile_port4_def compile_port4_pair_def compile_port6_def
  compile_port6_pair_def emit_ethertype_and_proto_gates_def emit_l3_gate_def gate_ldh_eq_def
  gate_ldb_eq_def gate_ip_version_def emit_not_fragment_gate_def emit_port_terminal_def
  emit_port6_terminal_def emit_port_compare_def new_label_def

lemma port_adds:
  assumes "compile_port p1 ctx n n br b = Ok b'"
  shows "adds (2 * gate_size ctx + 11) b b'"
  using assms
  by (auto simp: port_emitters adds_def gate_size_def Let_def split: option.splits if_splits)

lemma port_pair_adds:
  assumes "compile_port_pair p1 p2 ctx n n br b = Ok b'"
  shows "adds (2 * gate_size ctx + 15) b b'"
  using assms
  by (auto simp: port_emitters adds_def gate_size_def Let_def split: option.splits if_splits)

lemma port_pair_early:
  assumes "compile_port_pair p1 p2 ctx n n br b = Ok b'"
  shows "leaves_early (on_true br) b b'"
  using assms
  by (auto simp: port_emitters leaves_early_def Let_def split: option.splits if_splits)

section \<open>Expressions of bare ports\<close>

text \<open>A port primitive without protocol and direction, and disjunctions of such.\<close>

fun bare_ports :: "expr \<Rightarrow> bool" where
  "bare_ports (EPrimitive p) \<longleftrightarrow> prim_proto p = None \<and> prim_dir p = None \<and> (\<exists>n. prim_ty p = Port n)"
| "bare_ports (EOr l r ofs) \<longleftrightarrow> bare_ports l \<and> bare_ports r"
| "bare_ports _ \<longleftrightarrow> False"

lemma expand_bare_port:
  assumes "bare_ports (EPrimitive p)"
  shows "\<exists>n. prim_ty p = Port n \<and> expand (EPrimitive p) = Ok (foldl XOr
     (XOr (mk_leaf p CTcp Src) (mk_leaf p CTcp Dst))
     [mk_leaf p CUdp Src, mk_leaf p CUdp Dst, mk_leaf p CSctp Src, mk_leaf p CSctp Dst])"
  using assms
  by (auto simp: expand_primitive_def primitive_leaves_def default_protos_def default_dirs_def)

lemma not_a_pair: "dir_pair (XOr a b) r = None"
  by simp

lemma compile_or:
  "dir_pair l r = None \<Longrightarrow> compile_expr (XOr l r) ctx br b =
     and_then (compile_expr l ctx (mk_branch (on_true br) (Label (num_labels b))) (fresh b))
       (\<lambda>b1. compile_expr r ctx br (place (Label (num_labels b)) b1))"
  by (simp add: new_label_fresh)

text \<open>One pair with a shared prologue and four primitives: 79 instructions, or 89 on a raw link.\<close>

definition bare_size :: "ctx \<Rightarrow> nat" where
  "bare_size ctx = 10 * gate_size ctx + 59"

lemma compile_bare_port:
  assumes "bare_ports (EPrimitive p)" and "expand (EPrimitive p) = Ok x"
    and "compile_expr x ctx br b = Ok b'"
  shows "adds (bare_size ctx) b b' \<and> leaves_early (on_true br) b b'"
proof -
  let ?one = "2 * gate_size ctx + 11" and ?two = "2 * gate_size ctx + 15"
  obtain n where n: "prim_ty p = Port n" and x: "x = foldl XOr
     (XOr (mk_leaf p CTcp Src) (mk_leaf p CTcp Dst))
     [mk_leaf p CUdp Src, mk_leaf p CUdp Dst, mk_leaf p CSctp Src, mk_leaf p CSctp Dst]"
    using expand_bare_port [OF assms(1)] assms(2) by auto
  have leaf: "adds ?one b b'" if "compile_expr (mk_leaf p proto d) ctx br b = Ok b'" for proto d br b b'
    using that n by (auto simp: mk_leaf_def compile_primitive_def dest: port_adds)
  have pair: "adds ?two b b' \<and> leaves_early (on_true br) b b'"
    if "compile_expr (XOr (mk_leaf p proto Src) (mk_leaf p proto Dst)) ctx br b = Ok b'" for proto br b b'
    using that n
    by (auto simp: mk_leaf_def differs_only_in_dir_def compile_dir_pair_def dest: port_pair_adds port_pair_early)
  have more: "adds (m + ?one) b b' \<and> leaves_early (on_true br) b b'"
    if code: "compile_expr (XOr (XOr y z) (mk_leaf p proto d)) ctx br b = Ok b'"
      and before: "\<And>br b b'. compile_expr (XOr y z) ctx br b = Ok b' \<Longrightarrow> adds m b b' \<and> leaves_early (on_true br) b b'"
    for y z proto d m br b b'
  proof -
    obtain b1 where b1: "compile_expr (XOr y z) ctx (mk_branch (on_true br) (Label (num_labels b))) (fresh b) = Ok b1"
      and b': "compile_expr (mk_leaf p proto d) ctx br (place (Label (num_labels b)) b1) = Ok b'"
      using code unfolding compile_or [OF not_a_pair] and_then_Ok by blast
    have "adds ?one b1 b'" by (rule adds_place [OF leaf [OF b']])
    with before [OF b1] show ?thesis by (auto intro: adds_trans leaves_early_adds)
  qed
  have "adds (?two + ?one + ?one + ?one + ?one) b b' \<and> leaves_early (on_true br) b b'"
    using assms(3) unfolding x foldl.simps by (intro more [OF _ more [OF _ more [OF _ more [OF _ pair]]]])
  then show ?thesis by (simp add: bare_size_def)
qed

lemma compile_bare_ports:
  "bare_ports e \<Longrightarrow> expand e = Ok x \<Longrightarrow> compile_expr x ctx br b = Ok b' \<Longrightarrow>
     adds (bare_size ctx * expr_leaves e) b b' \<and> leaves_early (on_true br) b b' \<and> 6 \<le> leaves x"
proof (induction e arbitrary: x br b b')
  case (EPrimitive p)
  have "leaves x = 6" using expand_bare_port [OF EPrimitive(1)] EPrimitive(2) by (auto simp: mk_leaf_def)
  with compile_bare_port [OF EPrimitive] show ?case by simp
next
  case (EOr l r ofs)
  obtain y z where y: "expand l = Ok y" and z: "expand r = Ok z" and x: "x = XOr y z"
    using EOr.prems(2) by auto
  show ?case
  proof (cases "dir_pair y z")
    case None
    obtain b1 where b1: "compile_expr y ctx (mk_branch (on_true br) (Label (num_labels b))) (fresh b) = Ok b1"
      and b': "compile_expr z ctx br (place (Label (num_labels b)) b1) = Ok b'"
      using EOr.prems(3) None by (auto simp: new_label_fresh x)
    have "adds (bare_size ctx * expr_leaves r) b1 b'"
      using EOr.IH(2) [OF _ z b'] EOr.prems(1) by (auto intro: adds_place)
    with EOr.IH(1) [OF _ y b1] EOr.prems(1) show ?thesis
      by (auto simp: x distrib_left intro: adds_trans leaves_early_adds)
  next
    case (Some pq)
    have "bare_ports l" using EOr.prems(1) by simp
    moreover obtain p1 where "y = Leaf p1" using Some dir_pair_Some [of y z] by (cases pq) auto
    ultimately show ?thesis using y
    proof (induction l arbitrary: y)
      case (EPrimitive p)
      then show ?case using expand_bare_port [of p] by auto
    qed auto
  qed
qed auto

lemma bare_ports_code:
  assumes "bare_ports e" and "expand e = Ok x" and "generate x lt snaplen = Ok ir"
  obtains j where "j < 11" and "Label 0 \<in> set (cond_targets (ir_op2 (reals (prog_stream ir) ! j)))"
    and "target_index (prog_stream ir) (Label 0) = bare_size (mk_ctx lt) * expr_leaves e"
    and "length (reals (prog_stream ir)) = bare_size (mk_ctx lt) * expr_leaves e + 2"
    and "j < length (reals (prog_stream ir))"
proof -
  let ?b = "\<lparr>stream = [], num_labels = 2\<rparr>" and ?n = "bare_size (mk_ctx lt) * expr_leaves e"
  obtain ops where ops: "prog_stream ir = ops @ [Mark (Label 0), Real \<lparr>ir_op2 = IrRet snaplen, ir_offset = Range 0 0\<rparr>,
       Mark (Label 1), Real \<lparr>ir_op2 = IrRet 0, ir_offset = Range 0 0\<rparr>]"
    and marks: "set (mark_list ops) = {Label 2..<Label (prog_num_labels ir)}"
    by (rule generate_stream [OF assms(3)])
  obtain b' where b': "compile_expr x (mk_ctx lt) (mk_branch (Label 0) (Label 1)) ?b = Ok b'"
    and "ir = finish (emit (IrRet 0) (Range 0 0) (place (Label 1)
        (emit (IrRet snaplen) (Range 0 0) (place (Label 0) b'))))"
    using assms(3) by (auto simp: generate_def new_builder_def new_label_def Let_def numeral_2_eq_2)
  then have "stream b' = ops" using ops by simp
  with compile_bare_ports [OF assms(1,2) b'] have long: "length (reals ops) = ?n"
    and early: "\<exists>i \<in> set (take 11 (reals ops)). Label 0 \<in> set (cond_targets (ir_op2 i))"
    by (simp_all add: adds_def leaves_early_def)
  then obtain i where "i \<in> set (take 11 (reals ops))" and l: "Label 0 \<in> set (cond_targets (ir_op2 i))"
    by blast
  then obtain j where "j < 11" "j < length (reals ops)" "reals ops ! j = i"
    by (auto simp: in_set_conv_nth)
  with l have j: "j < 11" "j < length (reals ops)" "Label 0 \<in> set (cond_targets (ir_op2 (reals ops ! j)))"
    by simp_all
  have "Label 0 \<notin> set (mark_list ops)" by (simp add: marks)
  then have "target_index (prog_stream ir) (Label 0) = ?n"
    unfolding ops using target_index_split long by metis
  with j show thesis by (intro that [of j]) (simp_all add: ops nth_append long)
qed

text \<open>How many of them still compile.\<close>

definition most_bare_ports :: "link_type \<Rightarrow> nat" where
  "most_bare_ports lt = (if lt = Raw then 2 else 3)"

lemma bare_size_link: "bare_size (mk_ctx lt) = (if lt = Raw then 89 else 79)"
  by (cases lt) (simp_all add: bare_size_def gate_size_def mk_ctx_def)

lemma bare_ports_overflow:
  assumes "bare_ports e" and "expand e = Ok x" and "generate x lt snaplen = Ok ir"
  shows "if expr_leaves e \<le> most_bare_ports lt then overflow_of ir = None else overflows (overflow_of ir)"
proof -
  obtain j where j: "j < 11" "Label 0 \<in> set (cond_targets (ir_op2 (reals (prog_stream ir) ! j)))"
      "target_index (prog_stream ir) (Label 0) = bare_size (mk_ctx lt) * expr_leaves e"
      "length (reals (prog_stream ir)) = bare_size (mk_ctx lt) * expr_leaves e + 2"
      "j < length (reals (prog_stream ir))"
    by (rule bare_ports_code [OF assms])
  show ?thesis
  proof (cases "expr_leaves e \<le> most_bare_ports lt")
    case True
    then have "length (reals (prog_stream ir)) \<le> 256"
      using j(4) by (auto simp: bare_size_link most_bare_ports_def split: if_splits)
    with True show ?thesis by (simp add: overflow_of_def no_overflow)
  next
    case False
    then have "0 + j + 256 < target_index (prog_stream ir) (Label 0)"
      using j(1,3) by (auto simp: bare_size_link most_bare_ports_def split: if_splits)
    with False j(2,5) show ?thesis by (simp add: overflow_of_def overflow_at)
  qed
qed

lemma bare_ports_refusal: "bare_ports e \<Longrightarrow> source_refusal lt e = None"
proof (induction e)
  case (EPrimitive p)
  then show ?case
    by (auto simp: resolutions_def default_protos_def default_dirs_def leaf_refusal_def port_refusal_def)
qed auto

text \<open>The length of what they compile to.\<close>

lemma assemble_length: "assemble p = Ok insns \<Longrightarrow> length insns = length (reals (prog_stream p))"
  by (auto simp: assemble_def dest!: pass_a_reals pass_b_Ok)

lemma compile_bare_ports_length:
  assumes "lex src = Ok toks" and "parse toks = Ok e" and "bare_ports e"
    and "compile src lt snaplen = Ok prog"
  shows "length (instructions prog) = bare_size (mk_ctx lt) * expr_leaves e + 2"
proof -
  obtain x ir insns where x: "expand e = Ok x" and ir: "generate x lt snaplen = Ok ir"
    and insns: "assemble ir = Ok insns" and prog: "prog = from_validated insns"
    using assms by (auto simp: compile_def)
  have "length (reals (prog_stream ir)) = bare_size (mk_ctx lt) * expr_leaves e + 2"
    by (rule bare_ports_code [OF assms(3) x ir])
  with assemble_length [OF insns] prog show ?thesis
    by (simp add: instructions_def from_validated_def)
qed

lemma compile_bare_ports_threshold:
  assumes "length src < max_source" and "lex src = Ok toks" and "parse toks = Ok e"
    and "bare_ports e"
  shows "if expr_leaves e \<le> most_bare_ports lt then \<exists>prog. compile src lt snaplen = Ok prog
    else \<exists>ofs idx d. compile src lt snaplen = Err (new_error ofs (JumpDisplacementOverflow idx d))"
  using compile_parsed_outcome [OF assms(1-3), of lt snaplen] bare_ports_refusal [OF assms(4), of lt]
    bare_ports_overflow [OF assms(4)]
  by (fastforce simp: overflows_def is_ok_Ok)

lemma compile_bare_ports_overflow:
  assumes "length src < max_source" and "lex src = Ok toks" and "parse toks = Ok e"
    and "bare_ports e" and "4 \<le> expr_leaves e"
  shows "\<exists>ofs idx d. compile src lt snaplen = Err (new_error ofs (JumpDisplacementOverflow idx d))"
  using compile_bare_ports_threshold [OF assms(1-4), of lt snaplen] assms(5)
  by (simp add: most_bare_ports_def split: if_splits)

lemma compile_code_size:
  assumes "lex src = Ok toks" and "parse toks = Ok e" and "expand e = Ok x"
    and "compile src lt snaplen = Ok prog"
  shows "length (instructions prog) = code_size (mk_ctx lt) x + 2"
proof -
  obtain ir insns where ir: "generate x lt snaplen = Ok ir"
    and insns: "assemble ir = Ok insns" and prog: "prog = from_validated insns"
    using assms by (auto simp: compile_def)
  with generate_code_size [OF ir] assemble_length [OF insns] show ?thesis
    by (simp add: instructions_def from_validated_def)
qed

lemma compile_few_leaves:
  assumes "length src < max_source" and "lex src = Ok toks" and "parse toks = Ok e"
    and "expand e = Ok x" and "leaves x \<le> 13" and "source_refusal lt e = None"
  shows "\<exists>prog. compile src lt snaplen = Ok prog \<and>
    length (instructions prog) = code_size (mk_ctx lt) x + 2"
  using compile_parsed_outcome [OF assms(1-3), of lt snaplen] few_leaves_no_overflow [OF _ assms(5)]
    compile_code_size [OF assms(2-4)] assms(4,6)
  by (auto simp: is_ok_Ok)

end
