(* ===== verification/Dump.thy ===== *)
theory Dump
  imports Located
begin

text \<open>
  \<open>examples/cbpf_dump.rs\<close>: the command-line helper that prints the listing of a filter, or an error
  with the offending part of the filter underlined. Output is a list of lines for each stream.
\<close>

section \<open>The program\<close>

record dump =
  dump_success :: bool
  dump_out :: "string list"
  dump_err :: "string list"

text \<open>\<open>collect::<Vec<_>>().join(" ")\<close>.\<close>

fun join_spaces :: "rstr list \<Rightarrow> rstr" where
  "join_spaces [] = []"
| "join_spaces [w] = w"
| "join_spaces (w # ws) = w @ 0x20 # join_spaces ws"

text \<open>The bytes of a text, as they are written.\<close>

definition bytes_of :: "rstr \<Rightarrow> string" where
  "bytes_of s = map char_of (utf8 s)"

definition caret_line :: "offset \<Rightarrow> string" where
  "caret_line ofs =
     (let width = max (off_end ofs - off_start ofs) 1
      in ''  '' @ replicate (off_start ofs) CHR '' '' @ replicate width CHR ''^'')"

definition dump_usage :: string where
  "dump_usage =
     ''Usage: cargo run --example cbpf_dump -- '' @ quoted ''<pcap-filter expression>''"

definition dump_main :: "rstr list \<Rightarrow> dump res" where
  "dump_main args =
     (let fltr = join_spaces (drop 1 args) in
      if fltr = [] then Ok \<lparr>dump_success = False, dump_out = [], dump_err = [dump_usage]\<rparr>
      else
        (case compile fltr Ethernet KEEP_WHOLE_PACKET of
           Ok program \<Rightarrow>
             Ok \<lparr>dump_success = True, dump_out = [display program], dump_err = []\<rparr>
         | Err err \<Rightarrow>
             Ok \<lparr>dump_success = False, dump_out = [],
                 dump_err =
                   [''error: '' @ show_compile_error err, ''  '' @ bytes_of fltr,
                    caret_line (err_offset err)]\<rparr>
         | Panic \<Rightarrow> Panic
         | Diverge \<Rightarrow> Diverge))"

section \<open>What it shows\<close>

lemma dump_returns:
  assumes "length (join_spaces (drop 1 args)) < max_source"
  shows "\<exists>d. dump_main args = Ok d"
  using compile_returns [OF assms, of Ethernet KEEP_WHOLE_PACKET]
  by (cases "compile (join_spaces (drop 1 args)) Ethernet KEEP_WHOLE_PACKET")
     (simp_all add: dump_main_def Let_def)

lemma ascii_str_len: "\<forall>c \<in> set s. c < 128 \<Longrightarrow> str_len s = length s"
  by (induction s) auto

text \<open>On an ASCII source every error, also one of the tokenizer, points at whole characters.\<close>

lemma ascii_error_slice:
  assumes "\<forall>c \<in> set src. c < 128" and "compile src lt snaplen = Err err"
  shows "\<exists>a s b. src = a @ s @ b \<and> err_offset err = Range (length a) (length a + length s)"
proof -
  have "in_source src (err_offset err)"
  proof (cases "lex src")
    case (Ok toks)
    then show ?thesis by (rule compile_blames [OF _ assms(2)])
  next
    case (Err e)
    then have "e = err" using compile_lex_error assms(2) by simp
    moreover obtain pre c post where src: "src = pre @ c # post"
      and e: "e = new_error (Range (str_len pre) (str_len pre + 1)) (UnexpectedChar c)"
      using lex_error [OF Err] by blast
    moreover have "boundary src (str_len pre)" using src by (rule boundaryI) simp
    moreover have "boundary src (str_len pre + 1)"
      using src assms(1) by (intro boundaryI [of _ "pre @ [c]" post]) auto
    ultimately show ?thesis by (auto simp: in_source_def)
  next
    case Panic
    then show ?thesis using assms(2) by (simp add: compile_stages lexer.front_def)
  next
    case Diverge
    then show ?thesis using assms(2) by (simp add: compile_stages lexer.front_def)
  qed
  then obtain a s b where src: "src = a @ s @ b"
    and ofs: "off_start (err_offset err) = str_len a" "off_end (err_offset err) = str_len a + str_len s"
    using in_source_slice by blast
  then have "str_len a = length a" "str_len s = length s"
    using assms(1) by (simp_all add: ascii_str_len)
  with src ofs show ?thesis by (metis offset.collapse)
qed

lemma dump_caret:
  assumes "\<forall>c \<in> set (join_spaces (drop 1 args)). c < 128"
    and "join_spaces (drop 1 args) \<noteq> []"
    and "compile (join_spaces (drop 1 args)) Ethernet KEEP_WHOLE_PACKET = Err err"
  shows "\<exists>a s b. join_spaces (drop 1 args) = a @ s @ b \<and>
    dump_main args = Ok \<lparr>dump_success = False, dump_out = [],
      dump_err = [''error: '' @ show_compile_error err, ''  '' @ bytes_of (a @ s @ b),
        ''  '' @ replicate (length a) CHR '' '' @ replicate (max (length s) 1) CHR ''^'']\<rparr>"
proof -
  obtain a s b where src: "join_spaces (drop 1 args) = a @ s @ b"
    and ofs: "err_offset err = Range (length a) (length a + length s)"
    using ascii_error_slice [OF assms(1,3)] by blast
  show ?thesis
    using assms(2,3) unfolding dump_main_def src
    by (intro exI [of _ a] exI [of _ s] exI [of _ b]) (simp add: Let_def ofs caret_line_def)
qed

lemma dump_cases:
  assumes "\<forall>c \<in> set (join_spaces (drop 1 args)). c < 128" and "length (join_spaces (drop 1 args)) < max_source"
  shows "(join_spaces (drop 1 args) = [] \<and>
      dump_main args = Ok \<lparr>dump_success = False, dump_out = [], dump_err = [dump_usage]\<rparr>) \<or>
    (\<exists>prog. compile (join_spaces (drop 1 args)) Ethernet KEEP_WHOLE_PACKET = Ok prog \<and>
      dump_main args = Ok \<lparr>dump_success = True, dump_out = [display prog], dump_err = []\<rparr>) \<or>
    (\<exists>err a s b. compile (join_spaces (drop 1 args)) Ethernet KEEP_WHOLE_PACKET = Err err \<and>
      join_spaces (drop 1 args) = a @ s @ b \<and>
      dump_main args = Ok \<lparr>dump_success = False, dump_out = [],
        dump_err = [''error: '' @ show_compile_error err, ''  '' @ bytes_of (a @ s @ b),
          ''  '' @ replicate (length a) CHR '' '' @ replicate (max (length s) 1) CHR ''^'']\<rparr>)"
proof (cases "join_spaces (drop 1 args) = []")
  case True
  then show ?thesis by (simp add: dump_main_def)
next
  case False
  show ?thesis
  proof (cases "compile (join_spaces (drop 1 args)) Ethernet KEEP_WHOLE_PACKET")
    case (Ok prog)
    then show ?thesis using False by (simp add: dump_main_def)
  next
    case (Err err)
    with dump_caret [OF assms(1) False Err] show ?thesis by blast
  qed (use compile_returns [OF assms(2), of Ethernet KEEP_WHOLE_PACKET] in simp_all)
qed

end
