(* ===== verification/RustText.thy ===== *)
theory RustText
  imports Literals
begin

text \<open>
  More of Rust's standard library on text, as the command-line programs under \<open>examples/\<close> use it: reading
  UTF-8, lines, words, and integers with the reason of a failure.
\<close>

section \<open>Reading UTF-8\<close>

text \<open>
  One turn of \<open>core::str::run_utf8_validation\<close>: the next character and the bytes behind it, or an error,
  whose number is the length of the invalid sequence, \<open>None\<close> when the input ends inside a character.
\<close>

type_synonym utf8_error = "nat option"

definition is_continuation :: "nat \<Rightarrow> bool" where
  "is_continuation b \<longleftrightarrow> 0x80 \<le> b \<and> b < 0xC0"

definition second_of_3 :: "nat \<Rightarrow> nat \<Rightarrow> bool" where
  "second_of_3 b0 b1 \<longleftrightarrow>
     (if b0 = 0xE0 then 0xA0 \<le> b1 \<and> b1 < 0xC0
      else if b0 = 0xED then 0x80 \<le> b1 \<and> b1 < 0xA0
      else is_continuation b1)"

definition second_of_4 :: "nat \<Rightarrow> nat \<Rightarrow> bool" where
  "second_of_4 b0 b1 \<longleftrightarrow>
     (if b0 = 0xF0 then 0x90 \<le> b1 \<and> b1 < 0xC0
      else if b0 = 0xF4 then 0x80 \<le> b1 \<and> b1 < 0x90
      else is_continuation b1)"

definition next_utf8 :: "nat \<Rightarrow> nat list \<Rightarrow> (utf8_error, rchar \<times> nat list) result" where
  "next_utf8 b0 bs =
     (if b0 < 0x80 then Ok (b0, bs)
      else if 0xC2 \<le> b0 \<and> b0 < 0xE0 then
        (case bs of
           [] \<Rightarrow> Err None
         | b1 # bs \<Rightarrow>
             if is_continuation b1 then Ok ((b0 - 0xC0) * 0x40 + (b1 - 0x80), bs) else Err (Some 1))
      else if 0xE0 \<le> b0 \<and> b0 < 0xF0 then
        (case bs of
           [] \<Rightarrow> Err None
         | b1 # bs \<Rightarrow>
             if \<not> second_of_3 b0 b1 then Err (Some 1)
             else
               (case bs of
                  [] \<Rightarrow> Err None
                | b2 # bs \<Rightarrow>
                    if is_continuation b2 then
                      Ok ((b0 - 0xE0) * 0x1000 + (b1 - 0x80) * 0x40 + (b2 - 0x80), bs)
                    else Err (Some 2)))
      else if 0xF0 \<le> b0 \<and> b0 < 0xF5 then
        (case bs of
           [] \<Rightarrow> Err None
         | b1 # bs \<Rightarrow>
             if \<not> second_of_4 b0 b1 then Err (Some 1)
             else
               (case bs of
                  [] \<Rightarrow> Err None
                | b2 # bs \<Rightarrow>
                    if \<not> is_continuation b2 then Err (Some 2)
                    else
                      (case bs of
                         [] \<Rightarrow> Err None
                       | b3 # bs \<Rightarrow>
                           if is_continuation b3 then
                             Ok ((b0 - 0xF0) * 0x40000 + (b1 - 0x80) * 0x1000 + (b2 - 0x80) * 0x40 +
                               (b3 - 0x80), bs)
                           else Err (Some 3))))
      else Err (Some 1))"

lemma next_utf8_shorter: "next_utf8 b0 bs = Ok (c, rest) \<Longrightarrow> length rest \<le> length bs"
  by (auto simp: next_utf8_def split: if_splits list.splits)

text \<open>\<open>String::from_utf8\<close>: all of the bytes, or the position of the first error and its length.\<close>

function from_utf8_at :: "nat \<Rightarrow> nat list \<Rightarrow> (nat \<times> utf8_error, rstr) result" where
  "from_utf8_at i [] = Ok []"
| "from_utf8_at i (b # bs) =
     (case next_utf8 b bs of
        Ok (c, rest) \<Rightarrow>
          and_then (from_utf8_at (i + len_utf8 c) rest) (\<lambda>cs. Ok (c # cs))
      | Err e \<Rightarrow> Err (i, e)
      | Panic \<Rightarrow> Panic
      | Diverge \<Rightarrow> Diverge)"
  by pat_completeness auto
termination
  by (relation "measure (\<lambda>(i, bs). length bs)") (auto dest: next_utf8_shorter)

definition from_utf8 :: "nat list \<Rightarrow> (nat \<times> utf8_error, rstr) result" where
  "from_utf8 bs = from_utf8_at 0 bs"

text \<open>\<open>String::from_utf8_lossy\<close>: every invalid sequence becomes one replacement character.\<close>

function from_utf8_lossy :: "nat list \<Rightarrow> rstr" where
  "from_utf8_lossy [] = []"
| "from_utf8_lossy (b # bs) =
     (case next_utf8 b bs of
        Ok (c, rest) \<Rightarrow> c # from_utf8_lossy rest
      | Err (Some n) \<Rightarrow> 0xFFFD # from_utf8_lossy (drop (n - 1) bs)
      | _ \<Rightarrow> [0xFFFD])"
  by pat_completeness auto
termination
  by (relation "measure length") (auto dest: next_utf8_shorter)

text \<open>Reading a character that was encoded gives it back.\<close>

lemma sextets:
  fixes c :: nat
  obtains c0 c1 c2 where "c mod 0x40 = c0" and "c div 0x40 mod 0x40 = c1" and "c div 0x1000 mod 0x40 = c2"
    and "c0 < 0x40" and "c1 < 0x40" and "c2 < 0x40"
    and "c = c div 0x40 * 0x40 + c0" and "c = c div 0x1000 * 0x1000 + c1 * 0x40 + c0"
    and "c = c div 0x40000 * 0x40000 + c2 * 0x1000 + c1 * 0x40 + c0"
proof
  have "c div 0x1000 = c div 0x40 div 0x40" "c div 0x40000 = c div 0x1000 div 0x40"
    by (simp_all add: div_mult2_eq [symmetric])
  then show "c = c div 0x1000 * 0x1000 + c div 0x40 mod 0x40 * 0x40 + c mod 0x40"
    "c = c div 0x40000 * 0x40000 + c div 0x1000 mod 0x40 * 0x1000 + c div 0x40 mod 0x40 * 0x40 + c mod 0x40"
    using div_mult_mod_eq [of c "0x40"] div_mult_mod_eq [of "c div 0x40" "0x40"]
      div_mult_mod_eq [of "c div 0x1000" "0x40"] by linarith+
qed simp_all

lemma next_encoded:
  assumes "is_scalar c"
  shows "\<exists>b bs. encode_utf8 c = b # bs \<and> next_utf8 b (bs @ rest) = Ok (c, rest)"
proof -
  obtain c0 c1 c2 where c: "c mod 0x40 = c0" "c div 0x40 mod 0x40 = c1" "c div 0x1000 mod 0x40 = c2"
    and less: "c0 < 0x40" "c1 < 0x40" "c2 < 0x40"
    and eq: "c = c div 0x40 * 0x40 + c0" "c = c div 0x1000 * 0x1000 + c1 * 0x40 + c0"
      "c = c div 0x40000 * 0x40000 + c2 * 0x1000 + c1 * 0x40 + c0"
    by (rule sextets)
  consider "c < 0x80" | "0x80 \<le> c" "c < 0x800" | "0x800 \<le> c" "c < 0x10000" | "0x10000 \<le> c" "c < 0x110000"
    using assms unfolding is_scalar_def by linarith
  then show ?thesis
  proof cases
    case 1
    then show ?thesis by (simp add: encode_utf8_def next_utf8_def)
  next
    case 2
    obtain d where d: "c div 0x40 = d" by blast
    with 2 eq(1) less have "2 \<le> d" "d < 0x20" "d * 0x40 + c0 = c" by linarith+
    with 2 less show ?thesis
      by (simp add: encode_utf8_def next_utf8_def is_continuation_def c d)
  next
    case 3
    obtain d where d: "c div 0x1000 = d" by blast
    have b: "d < 0x10" "d * 0x1000 + c1 * 0x40 + c0 = c" using 3 eq(2) less d by linarith+
    moreover have "second_of_3 (0xE0 + d) (0x80 + c1)"
      using 3(1) assms b less by (simp add: second_of_3_def is_continuation_def is_scalar_def) linarith
    ultimately show ?thesis using 3 less
      by (simp add: encode_utf8_def next_utf8_def is_continuation_def c d)
  next
    case 4
    obtain d where d: "c div 0x40000 = d" by blast
    have b: "d < 5" "d * 0x40000 + c2 * 0x1000 + c1 * 0x40 + c0 = c" using 4 eq(3) less d by linarith+
    moreover have "second_of_4 (0xF0 + d) (0x80 + c2)"
      using 4 b less by (simp add: second_of_4_def is_continuation_def)
    ultimately show ?thesis using 4 less
      by (simp add: encode_utf8_def next_utf8_def is_continuation_def c d)
  qed
qed

lemma from_utf8_at_utf8: "\<forall>c \<in> set s. is_scalar c \<Longrightarrow> from_utf8_at i (utf8 s) = Ok s"
proof (induction s arbitrary: i)
  case (Cons c s)
  then obtain b bs where "encode_utf8 c = b # bs" and "next_utf8 b (bs @ utf8 s) = Ok (c, utf8 s)"
    using next_encoded [of c "utf8 s"] by auto
  with Cons show ?case by (simp add: utf8_def)
qed (simp add: utf8_def)

lemma from_utf8_utf8: "\<forall>c \<in> set s. is_scalar c \<Longrightarrow> from_utf8 (utf8 s) = Ok s"
  by (simp add: from_utf8_def from_utf8_at_utf8)

section \<open>Lines and words\<close>

text \<open>\<open>str::lines\<close>: a line feed ends a line, a carriage return before it belongs to it.\<close>

definition strip_cr :: "rstr \<Rightarrow> rstr" where
  "strip_cr l = (if l \<noteq> [] \<and> last l = 0x0D then butlast l else l)"

function str_lines :: "rstr \<Rightarrow> rstr list" where
  "str_lines s =
     (if s = [] then []
      else
        (case dropWhile (\<lambda>c. c \<noteq> 0x0A) s of
           [] \<Rightarrow> [s]
         | _ # rest \<Rightarrow> strip_cr (takeWhile (\<lambda>c. c \<noteq> 0x0A) s) # str_lines rest))"
  by pat_completeness auto
termination
  by (relation "measure length") (auto dest: length_dropWhile_less)

declare str_lines.simps [simp del]

text \<open>\<open>str::split_whitespace\<close> and \<open>str::trim\<close>.\<close>

function split_whitespace :: "rstr \<Rightarrow> rstr list" where
  "split_whitespace s =
     (let t = dropWhile is_whitespace s
      in if t = [] then []
         else takeWhile (\<lambda>c. \<not> is_whitespace c) t #
           split_whitespace (dropWhile (\<lambda>c. \<not> is_whitespace c) t))"
  by pat_completeness auto
termination
proof (relation "measure length", simp)
  fix s t :: rstr
  assume t: "t = dropWhile is_whitespace s" and "t \<noteq> []"
  then obtain c cs where "t = c # cs" and "\<not> is_whitespace c"
    by (metis hd_dropWhile list.exhaust_sel)
  moreover have "length (dropWhile (\<lambda>c. \<not> is_whitespace c) cs) \<le> length cs"
    by (rule length_dropWhile_le)
  moreover have "length t \<le> length s" unfolding t by (rule length_dropWhile_le)
  ultimately show "(dropWhile (\<lambda>c. \<not> is_whitespace c) t, s) \<in> measure length" by simp
qed

declare split_whitespace.simps [simp del]

definition trim :: "rstr \<Rightarrow> rstr" where
  "trim s = rev (dropWhile is_whitespace (rev (dropWhile is_whitespace s)))"

text \<open>Reading back lines and words that were joined.\<close>

lemma lines_of_line:
  assumes "0x0A \<notin> set l" and "0x0D \<notin> set l"
  shows "str_lines (l @ 0x0A # rest) = l # str_lines rest"
proof -
  have l: "\<forall>c \<in> set l. c \<noteq> 0x0A" using assms(1) by blast
  have "strip_cr l = l" using assms(2) last_in_set [of l] unfolding strip_cr_def by metis
  then show ?thesis
    using l by (subst str_lines.simps) (simp add: dropWhile_append_none takeWhile_append)
qed

lemma lines_unlines:
  "\<forall>l \<in> set ls. 0x0A \<notin> set l \<and> 0x0D \<notin> set l \<Longrightarrow>
   str_lines (concat (map (\<lambda>l. l @ [0x0A]) ls)) = ls"
proof (induction ls)
  case (Cons l ls)
  then show ?case using lines_of_line [of l "concat (map (\<lambda>l. l @ [0x0A]) ls)"] by simp
qed (simp add: str_lines.simps)

definition is_word :: "rstr \<Rightarrow> bool" where
  "is_word w \<longleftrightarrow> w \<noteq> [] \<and> (\<forall>c \<in> set w. \<not> is_whitespace c)"

lemma word_start: "w \<noteq> [] \<Longrightarrow> \<forall>c \<in> set w. \<not> is_whitespace c \<Longrightarrow> dropWhile is_whitespace (w @ rest) = w @ rest"
  by (cases w) auto

lemma words_cons:
  assumes "is_word w" and "is_whitespace b"
  shows "split_whitespace (w @ b # rest) = w # split_whitespace rest"
proof -
  have "split_whitespace (b # rest) = split_whitespace rest"
    using assms(2) by (subst (1 2) split_whitespace.simps) (simp add: Let_def)
  then show ?thesis
    using assms word_start [of w "b # rest"]
    by (subst split_whitespace.simps)
       (simp add: Let_def is_word_def dropWhile_append_none takeWhile_append)
qed

lemma words_last:
  assumes "is_word w"
  shows "split_whitespace w = [w]"
proof -
  have "split_whitespace [] = []" by (subst split_whitespace.simps) simp
  then show ?thesis
    using assms word_start [of w "[]"] dropWhile_append_none [of w "\<lambda>c. \<not> is_whitespace c" "[]"]
    by (subst split_whitespace.simps) (simp add: Let_def is_word_def dropWhile_eq_Nil_conv [THEN iffD2])
qed

lemma trim_word: "is_word w \<Longrightarrow> trim w = w"
  using word_start [of w "[]"] word_start [of "rev w" "[]"] by (simp add: trim_def is_word_def)

section \<open>Integers with a reason\<close>

text \<open>
  \<open>str::parse\<close> of an unsigned type whose largest value is \<open>limit\<close>, with \<open>IntErrorKind\<close>. A character
  outside ASCII is a sequence of bytes none of which is a digit.
\<close>

datatype int_error = IntEmpty | InvalidDigit | PosOverflow

fun int_digits :: "nat \<Rightarrow> nat \<Rightarrow> string \<Rightarrow> (int_error, nat) result" where
  "int_digits limit acc [] = Ok acc"
| "int_digits limit acc (c # cs) =
     (case to_digit 10 c of
        None \<Rightarrow> Err InvalidDigit
      | Some d \<Rightarrow>
          if limit < acc * 10 then Err PosOverflow
          else if limit < acc * 10 + d then Err PosOverflow
          else int_digits limit (acc * 10 + d) cs)"

definition ascii_or_bad :: "rchar \<Rightarrow> char" where
  "ascii_or_bad c = (if c < 128 then char_of c else CHR 0x80)"

definition parse_int :: "nat \<Rightarrow> rstr \<Rightarrow> (int_error, nat) result" where
  "parse_int limit s =
     (case map ascii_or_bad s of
        [] \<Rightarrow> Err IntEmpty
      | c # cs \<Rightarrow>
          if cs = [] \<and> (c = CHR ''+'' \<or> c = CHR ''-'') then Err InvalidDigit
          else if c = CHR ''+'' then int_digits limit 0 cs
          else int_digits limit 0 (c # cs))"

definition show_int_error :: "int_error \<Rightarrow> string" where
  "show_int_error e =
     (case e of
        IntEmpty \<Rightarrow> ''cannot parse integer from empty string''
      | InvalidDigit \<Rightarrow> ''invalid digit found in string''
      | PosOverflow \<Rightarrow> ''number too large to fit in target type'')"

lemma int_digits_Ok: "digits_value limit 10 acc s = Some n \<Longrightarrow> int_digits limit acc s = Ok n"
  by (induction limit acc s rule: int_digits.induct) (auto split: option.splits if_splits)

lemma parse_int_Ok:
  "from_str_radix limit 10 (map ascii_or_bad s) = Some n \<Longrightarrow> parse_int limit s = Ok n"
  by (auto simp: from_str_radix_def parse_int_def int_digits_Ok simp del: int_digits.simps
      split: list.splits if_splits)

lemma show_dec_codes: "c \<in> set (ascii (show_dec n)) \<Longrightarrow> 48 \<le> c \<and> c < 128"
  using digits_text [of 10 n] digit_char_code
  by (auto simp: ascii_def show_dec_def digit_text_def split: if_splits)

lemma show_dec_word: "is_word (ascii (show_dec n))"
  using show_dec_codes [of _ n] digits_nonempty [of 10 n]
  by (fastforce simp: is_word_def ascii_def show_dec_def is_whitespace_def)

lemma parse_int_show:
  assumes "n \<le> limit"
  shows "parse_int limit (ascii (show_dec n)) = Ok n"
proof (rule parse_int_Ok)
  have "map ascii_or_bad (ascii (show_dec n)) = show_dec n"
    using show_dec_codes [of _ n] by (auto simp: ascii_def ascii_or_bad_def intro!: map_idI)
  then show "from_str_radix limit 10 (map ascii_or_bad (ascii (show_dec n))) = Some n"
    using from_str_radix_digits [of 10 n limit] assms by (simp add: show_dec_def)
qed

section \<open>Joining\<close>

text \<open>\<open>[..].join(sep)\<close>.\<close>

fun join_with :: "string \<Rightarrow> string list \<Rightarrow> string" where
  "join_with sep [] = []"
| "join_with sep [w] = w"
| "join_with sep (w # ws) = w @ sep @ join_with sep ws"

end
