(* ===== verification/Host.thy ===== *)
theory Host
  imports Attach RustText
begin

text \<open>
  What \<open>examples/kernel_diff.rs\<close> needs of the operating system: processes, raw sockets and the standard
  streams. The C library, the kernel and \<open>tcpdump\<close> are not part of the repository: the calls are
  an argument of the model, functions from their arguments and the state of the system to the returned
  value, the \<open>errno\<close> where the code reads it, and the next state.
\<close>

section \<open>The C library and processes\<close>

type_synonym c_long = "64 word"

record sockaddr_ll =
  sll_family :: u16
  sll_protocol :: u16
  sll_ifindex :: c_int
  sll_hatype :: u16
  sll_pkttype :: u8
  sll_halen :: u8
  sll_addr :: "u8 list"

record timeval =
  tv_sec :: c_long
  tv_usec :: c_long

text \<open>\<open>std::process::Output\<close>.\<close>

record proc_output =
  status_success :: bool
  stdout_bytes :: "u8 list"
  stderr_bytes :: "u8 list"

text \<open>
  The constants and calls. \<open>c_setsockopt_timeval\<close> is \<open>setsockopt\<close> with a pointer to a \<open>timeval\<close>;
  \<open>c_recv\<close> gets the size of the buffer, which is never looked at afterwards; \<open>strerror\<close> is the text of
  an \<open>errno\<close>; \<open>run_command\<close> runs a program with its arguments to the end.
\<close>

record 's host = "'s libc" +
  c_AF_PACKET :: c_int
  c_SOCK_RAW :: c_int
  c_ETH_P_ALL :: c_int
  c_SO_RCVTIMEO :: c_int
  c_EAGAIN :: c_int
  c_ETIMEDOUT :: c_int
  c_sizeof_timeval :: u32
  c_sizeof_sockaddr_ll :: u32
  c_htons :: "u16 \<Rightarrow> u16"
  c_strerror :: "c_int \<Rightarrow> string"
  c_if_nametoindex :: "string \<Rightarrow> 's \<Rightarrow> (u32 \<times> c_int) \<times> 's"
  c_socket :: "c_int \<Rightarrow> c_int \<Rightarrow> c_int \<Rightarrow> 's \<Rightarrow> (c_int \<times> c_int) \<times> 's"
  c_bind :: "c_int \<Rightarrow> sockaddr_ll \<Rightarrow> u32 \<Rightarrow> 's \<Rightarrow> (c_int \<times> c_int) \<times> 's"
  c_setsockopt_timeval :: "c_int \<Rightarrow> c_int \<Rightarrow> c_int \<Rightarrow> timeval \<Rightarrow> u32 \<Rightarrow> 's \<Rightarrow> (c_int \<times> c_int) \<times> 's"
  c_sendto ::
    "c_int \<Rightarrow> packet \<Rightarrow> nat \<Rightarrow> c_int \<Rightarrow> sockaddr_ll \<Rightarrow> u32 \<Rightarrow> 's \<Rightarrow> (c_long \<times> c_int) \<times> 's"
  c_recv :: "c_int \<Rightarrow> nat \<Rightarrow> c_int \<Rightarrow> 's \<Rightarrow> (c_long \<times> c_int) \<times> 's"
  c_close :: "c_int \<Rightarrow> 's \<Rightarrow> c_int \<times> 's"
  run_command :: "string \<Rightarrow> string list \<Rightarrow> 's \<Rightarrow> (io_error, proc_output) result \<times> 's"

section \<open>Effects\<close>

text \<open>
  The state a command-line program works on: the system, and the bytes written to its two streams. An
  effect gives a result and the next state; \<open>io_then\<close> is sequencing with \<open>?\<close>.
\<close>

record 's world =
  system :: 's
  stdout :: string
  stderr :: string

type_synonym ('s, 'e, 'a) io = "'s world \<Rightarrow> ('e, 'a) result \<times> 's world"

definition pure :: "('e, 'a) result \<Rightarrow> ('s, 'e, 'a) io" where
  "pure r w = (r, w)"

definition io_then :: "('s, 'e, 'a) io \<Rightarrow> ('a \<Rightarrow> ('s, 'e, 'b) io) \<Rightarrow> ('s, 'e, 'b) io" where
  "io_then m f w =
     (case m w of
        (Ok x, w') \<Rightarrow> f x w'
      | (Err e, w') \<Rightarrow> (Err e, w')
      | (Panic, w') \<Rightarrow> (Panic, w')
      | (Diverge, w') \<Rightarrow> (Diverge, w'))"

text \<open>A fallible operation on the system.\<close>

definition operation :: "('s \<Rightarrow> ('e, 'a) result \<times> 's) \<Rightarrow> ('s, 'e, 'a) io" where
  "operation f w = (case f (system w) of (r, s) \<Rightarrow> (r, w\<lparr>system := s\<rparr>))"

text \<open>A call of the system, and \<open>print!\<close>, \<open>println!\<close> and \<open>eprintln!\<close> of a formatted text.\<close>

definition call :: "('s \<Rightarrow> 'a \<times> 's) \<Rightarrow> ('s, 'e, 'a) io" where
  "call f w = (case f (system w) of (x, s) \<Rightarrow> (Ok x, w\<lparr>system := s\<rparr>))"

definition print :: "string \<Rightarrow> ('s, 'e, unit) io" where
  "print t w = (Ok (), w\<lparr>stdout := stdout w @ t\<rparr>)"

definition println :: "string \<Rightarrow> ('s, 'e, unit) io" where
  "println t = print (t @ [CHR 0x0A])"

definition eprintln :: "string \<Rightarrow> ('s, 'e, unit) io" where
  "eprintln t w = (Ok (), w\<lparr>stderr := stderr w @ t @ [CHR 0x0A]\<rparr>)"

text \<open>A \<open>for\<close> loop, with a value carried from turn to turn.\<close>

fun for_each :: "'a list \<Rightarrow> ('a \<Rightarrow> ('s, 'e, unit) io) \<Rightarrow> ('s, 'e, unit) io" where
  "for_each [] f = pure (Ok ())"
| "for_each (x # xs) f = io_then (f x) (\<lambda>_. for_each xs f)"

text \<open>\<open>map_err\<close> and the conversion of \<open>?\<close>.\<close>

fun map_err :: "('e \<Rightarrow> 'f) \<Rightarrow> ('e, 'a) result \<Rightarrow> ('f, 'a) result" where
  "map_err f (Ok x) = Ok x"
| "map_err f (Err e) = Err (f e)"
| "map_err f Panic = Panic"
| "map_err f Diverge = Diverge"

definition with_err :: "('e \<Rightarrow> 'f) \<Rightarrow> ('s, 'e, 'a) io \<Rightarrow> ('s, 'f, 'a) io" where
  "with_err f m w = (case m w of (r, w') \<Rightarrow> (map_err f r, w'))"

section \<open>Total correctness\<close>

text \<open>
  \<open>achieves P m Q\<close>: from a state of the system with \<open>P\<close>, whatever was printed before, the effect
  succeeds with a value and a state that satisfy \<open>Q\<close>.
\<close>

definition achieves ::
    "('s \<Rightarrow> bool) \<Rightarrow> ('s, 'e, 'a) io \<Rightarrow> ('a \<Rightarrow> 's \<Rightarrow> bool) \<Rightarrow> bool" where
  "achieves P m Q \<longleftrightarrow>
     (\<forall>w. P (system w) \<longrightarrow> (\<exists>x w'. m w = (Ok x, w') \<and> Q x (system w')))"

named_theorems achieves_rules \<open>what the effects achieve\<close>

lemma achieves_pure [achieves_rules]: "achieves P (pure (Ok x)) (\<lambda>y s. y = x \<and> P s)"
  by (simp add: achieves_def pure_def)

lemma achieves_print [achieves_rules]: "achieves P (print t) (\<lambda>_. P)"
  by (simp add: achieves_def print_def)

lemma achieves_println [achieves_rules]: "achieves P (println t) (\<lambda>_. P)"
  by (simp add: println_def achieves_print)

lemma achieves_eprintln [achieves_rules]: "achieves P (eprintln t) (\<lambda>_. P)"
  by (simp add: achieves_def eprintln_def)

lemma achieves_then:
  "achieves P m R \<Longrightarrow> (\<And>x. achieves (R x) (f x) Q) \<Longrightarrow> achieves P (io_then m f) Q"
  unfolding achieves_def io_then_def by fastforce

text \<open>A fact that does not depend on the state leaves the precondition.\<close>

lemma achieves_given: "(\<phi> \<Longrightarrow> achieves P m Q) \<Longrightarrow> achieves (\<lambda>s. \<phi> \<and> P s) m Q"
  by (auto simp: achieves_def)

lemma achieves_then_eq:
  "achieves P m (\<lambda>y s. y = x \<and> R s) \<Longrightarrow> achieves R (f x) Q \<Longrightarrow> achieves P (io_then m f) Q"
  by (rule achieves_then) (auto intro: achieves_given)

lemma achieves_mono:
  "achieves P m Q \<Longrightarrow> (\<And>x s. Q x s \<Longrightarrow> Q' x s) \<Longrightarrow> achieves P m Q'"
  unfolding achieves_def by blast

lemma achieves_call:
  "(\<And>s. P s \<Longrightarrow> \<exists>x s'. f s = (x, s') \<and> Q x s') \<Longrightarrow> achieves P (call f) Q"
  unfolding achieves_def call_def by fastforce

lemma achieves_operation:
  "(\<And>s. P s \<Longrightarrow> \<exists>x s'. f s = (Ok x, s') \<and> Q x s') \<Longrightarrow> achieves P (operation f) Q"
  unfolding achieves_def operation_def by fastforce

lemma achieves_with_err [achieves_rules]: "achieves P m Q \<Longrightarrow> achieves P (with_err f m) Q"
  unfolding achieves_def with_err_def by fastforce

lemma achieves_for_each:
  "(\<And>x. x \<in> set xs \<Longrightarrow> achieves P (f x) (\<lambda>_. P)) \<Longrightarrow> achieves P (for_each xs f) (\<lambda>_. P)"
proof (induction xs)
  case Nil
  show ?case by (simp add: achieves_def pure_def)
next
  case (Cons x xs)
  then show ?case by (auto intro: achieves_then)
qed

section \<open>Failing\<close>

text \<open>\<open>fails P m Q\<close>: from a state of the system with \<open>P\<close>, the effect ends in an error, in a state with \<open>Q\<close>.\<close>

definition fails :: "('s \<Rightarrow> bool) \<Rightarrow> ('s, 'e, 'a) io \<Rightarrow> ('s \<Rightarrow> bool) \<Rightarrow> bool" where
  "fails P m Q \<longleftrightarrow> (\<forall>w. P (system w) \<longrightarrow> (\<exists>e w'. m w = (Err e, w') \<and> Q (system w')))"

lemma fails_later:
  "achieves P m R \<Longrightarrow> (\<And>x. fails (R x) (f x) Q) \<Longrightarrow> fails P (io_then m f) Q"
  unfolding achieves_def fails_def io_then_def by fastforce

lemma fails_given: "(\<phi> \<Longrightarrow> fails P m Q) \<Longrightarrow> fails (\<lambda>s. \<phi> \<and> P s) m Q"
  by (auto simp: fails_def)

lemma fails_later_eq:
  "achieves P m (\<lambda>y s. y = x \<and> R s) \<Longrightarrow> fails R (f x) Q \<Longrightarrow> fails P (io_then m f) Q"
  by (rule fails_later) (auto intro: fails_given)

lemma fails_now: "fails P m Q \<Longrightarrow> fails P (io_then m f) Q"
  unfolding fails_def io_then_def by fastforce

lemma fails_with_err: "fails P m Q \<Longrightarrow> fails P (with_err f m) Q"
  unfolding fails_def with_err_def by fastforce

lemma fails_operation:
  "(\<And>s. P s \<Longrightarrow> \<exists>e s'. f s = (Err e, s') \<and> Q s') \<Longrightarrow> fails P (operation f) Q"
  unfolding fails_def operation_def by fastforce

lemma fails_print:
  "fails P (f ()) Q \<Longrightarrow> fails P (io_then (print t) f) Q"
  "fails P (f ()) Q \<Longrightarrow> fails P (io_then (println t) f) Q"
  "fails P (f ()) Q \<Longrightarrow> fails P (io_then (for_each ls (\<lambda>l. println (g l))) f) Q"
  by (rule fails_later, rule achieves_print, simp)
     (rule fails_later, rule achieves_println, simp,
      rule fails_later, rule achieves_for_each, rule achieves_println, simp)

end
