(* ===== verification/Frames.thy ===== *)
theory Frames
  imports Program
begin

text \<open>
  The frames that \<open>examples/kernel_diff.rs\<close> sends, built by hand byte by byte, and its table of cases.
\<close>

section \<open>Frames\<close>

definition ETH_P_IPV4 :: u16 where "ETH_P_IPV4 = 0x0800"
definition ETH_P_IPV6 :: u16 where "ETH_P_IPV6 = 0x86dd"
definition TCP :: u8 where "TCP = 6"
definition UDP :: u8 where "UDP = 17"

text \<open>\<open>f[a..b].copy_from_slice(bs)\<close> and \<open>f[i] = v\<close>; a range outside, or of another length, is a panic.\<close>

definition copy_into :: "nat \<Rightarrow> nat \<Rightarrow> u8 list \<Rightarrow> packet \<Rightarrow> ('e, packet) result" where
  "copy_into a b bs f =
     (if a \<le> b \<and> b \<le> length f \<and> length bs = b - a then Ok (take a f @ bs @ drop b f) else Panic)"

definition set_at :: "nat \<Rightarrow> u8 \<Rightarrow> packet \<Rightarrow> ('e, packet) result" where
  "set_at i v f = (if i < length f then Ok (f[i := v]) else Panic)"

definition u16_to_be_bytes :: "u16 \<Rightarrow> u8 list" where
  "u16_to_be_bytes v = [ucast (drop_bit 8 v), ucast v]"

type_synonym octets4 = "u8 \<times> u8 \<times> u8 \<times> u8"

fun octet_list :: "octets4 \<Rightarrow> u8 list" where
  "octet_list (a, b, c, d) = [a, b, c, d]"

text \<open>\<open>s.parse::<Ipv6Addr>().unwrap().octets()\<close>.\<close>

definition ipv6_octets :: "string \<Rightarrow> ('e, u8 list) result" where
  "ipv6_octets s =
     (case parse_ipv6 s of
        None \<Rightarrow> Panic
      | Some a \<Rightarrow> Ok (map (\<lambda>i. ucast (drop_bit (120 - 8 * i) a)) [0..<16]))"

definition eth_ipv4 :: "u8 \<Rightarrow> octets4 \<Rightarrow> octets4 \<Rightarrow> u16 \<Rightarrow> u16 \<Rightarrow> ('e, packet) result" where
  "eth_ipv4 ip_proto src dst src_port dst_port =
     (let f = replicate (14 + 20 + 8) 0 in
      and_then (copy_into 12 14 (u16_to_be_bytes ETH_P_IPV4) f) (\<lambda>f.
      and_then (set_at 14 0x45 f) (\<lambda>f.
      and_then (set_at 23 ip_proto f) (\<lambda>f.
      and_then (copy_into 26 30 (octet_list src) f) (\<lambda>f.
      and_then (copy_into 30 34 (octet_list dst) f) (\<lambda>f.
      and_then (copy_into 34 36 (u16_to_be_bytes src_port) f) (\<lambda>f.
        copy_into 36 38 (u16_to_be_bytes dst_port) f)))))))"

definition eth_ipv4_fragment :: "u8 \<Rightarrow> octets4 \<Rightarrow> octets4 \<Rightarrow> u16 \<Rightarrow> ('e, packet) result" where
  "eth_ipv4_fragment ip_proto src dst units_of_8_bytes =
     and_then (eth_ipv4 ip_proto src dst 4000 80) (copy_into 20 22 (u16_to_be_bytes units_of_8_bytes))"

definition eth_ipv4_bare :: "octets4 \<Rightarrow> octets4 \<Rightarrow> ('e, packet) result" where
  "eth_ipv4_bare src dst =
     (let f = replicate (14 + 20) 0 in
      and_then (copy_into 12 14 (u16_to_be_bytes ETH_P_IPV4) f) (\<lambda>f.
      and_then (set_at 14 0x45 f) (\<lambda>f.
      and_then (copy_into 26 30 (octet_list src) f) (\<lambda>f.
        copy_into 30 34 (octet_list dst) f))))"

definition eth_ipv6 :: "u8 \<Rightarrow> string \<Rightarrow> string \<Rightarrow> u16 \<Rightarrow> u16 \<Rightarrow> ('e, packet) result" where
  "eth_ipv6 next_header src dst src_port dst_port =
     (let f = replicate (14 + 40 + 8) 0 in
      and_then (copy_into 12 14 (u16_to_be_bytes ETH_P_IPV6) f) (\<lambda>f.
      and_then (set_at 14 0x60 f) (\<lambda>f.
      and_then (set_at 20 next_header f) (\<lambda>f.
      and_then (set_at 21 64 f) (\<lambda>f.
      and_then (ipv6_octets src) (\<lambda>s.
      and_then (copy_into 22 38 s f) (\<lambda>f.
      and_then (ipv6_octets dst) (\<lambda>d.
      and_then (copy_into 38 54 d f) (\<lambda>f.
      and_then (copy_into 54 56 (u16_to_be_bytes src_port) f) (\<lambda>f.
        copy_into 56 58 (u16_to_be_bytes dst_port) f))))))))))"

definition eth_ipv6_bare :: "string \<Rightarrow> string \<Rightarrow> ('e, packet) result" where
  "eth_ipv6_bare src dst =
     (let f = replicate (14 + 40) 0 in
      and_then (copy_into 12 14 (u16_to_be_bytes ETH_P_IPV6) f) (\<lambda>f.
      and_then (set_at 14 0x60 f) (\<lambda>f.
      and_then (set_at 20 59 f) (\<lambda>f.
      and_then (set_at 21 64 f) (\<lambda>f.
      and_then (ipv6_octets src) (\<lambda>s.
      and_then (copy_into 22 38 s f) (\<lambda>f.
      and_then (ipv6_octets dst) (\<lambda>d.
        copy_into 38 54 d f))))))))"

section \<open>Cases\<close>

record test_case =
  case_filter :: string
  case_label :: string
  case_frame :: packet

fun case_of :: "string \<times> string \<times> ('e, packet) result \<Rightarrow> ('e, test_case) result" where
  "case_of (f, l, frame) =
     and_then frame (\<lambda>fr. Ok \<lparr>case_filter = f, case_label = l, case_frame = fr\<rparr>)"

fun collect_res :: "('e, 'a) result list \<Rightarrow> ('e, 'a list) result" where
  "collect_res [] = Ok []"
| "collect_res (r # rs) = and_then r (\<lambda>x. and_then (collect_res rs) (\<lambda>xs. Ok (x # xs)))"

definition case_table :: "(string \<times> string \<times> ('e, packet) result) list" where
  "case_table =
     [(''tcp port 80'', ''IPv4 dst port 80'', eth_ipv4 TCP (10, 0, 0, 1) (10, 0, 0, 2) 4000 80),
      (''tcp port 80'', ''IPv4 src port 80'', eth_ipv4 TCP (10, 0, 0, 1) (10, 0, 0, 2) 80 4000),
      (''tcp port 80'', ''IPv4, neither port is 80'',
       eth_ipv4 TCP (10, 0, 0, 1) (10, 0, 0, 2) 4000 4001),
      (''tcp port 80'', ''IPv4 non-first fragment must not match'',
       eth_ipv4_fragment TCP (10, 0, 0, 1) (10, 0, 0, 2) 1),
      (''tcp port 80'', ''IPv6 dst port 80 (the headline '' @ quoted ''level 2'' @ '' case)'',
       eth_ipv6 TCP ''2001:db8::1'' ''2001:db8::2'' 4000 80),
      (''tcp port 80'', ''IPv6, wrong next header (UDP, not TCP)'',
       eth_ipv6 UDP ''2001:db8::1'' ''2001:db8::2'' 4000 80),
      (''udp port 53'', ''IPv4 dst port 53'', eth_ipv4 UDP (10, 0, 0, 1) (8, 8, 8, 8) 4000 53),
      (''portrange 8000-8010'', ''IPv4, port inside the range'',
       eth_ipv4 TCP (10, 0, 0, 1) (10, 0, 0, 2) 4000 8004),
      (''portrange 8000-8010'', ''IPv4, port outside the range'',
       eth_ipv4 TCP (10, 0, 0, 1) (10, 0, 0, 2) 4000 8011),
      (''ip host 10.0.0.1'', ''IPv4 host, matches as src'',
       eth_ipv4_bare (10, 0, 0, 1) (10, 0, 0, 2)),
      (''net 10.0.0.0/8'', ''IPv4 net, inside /8'', eth_ipv4_bare (10, 250, 1, 2) (192, 168, 0, 1)),
      (''net 10.0.0.0/8'', ''IPv4 net, outside /8'', eth_ipv4_bare (11, 0, 0, 1) (192, 168, 0, 1)),
      (''ip6 host 2001:db8::1'', ''IPv6 host, matches as src'',
       eth_ipv6_bare ''2001:db8::1'' ''fe80::9''),
      (''ip6 net 2001:db8::/32'', ''IPv6 net, inside /32'',
       eth_ipv6_bare ''2001:db8:1234::1'' ''fe80::9''),
      (''ip6 net 2001:db8::/32'', ''IPv6 net, outside /32'',
       eth_ipv6_bare ''2001:db9::1'' ''fe80::9'')]"

definition build_cases :: "('e, test_case list) result" where
  "build_cases = collect_res (map case_of case_table)"

end
