(* ===== verification/FramesCorrect.thy ===== *)
theory FramesCorrect
  imports Frames Overflow Printing
begin

text \<open>
  What the frames of \<open>Frames\<close> hold, byte by byte and as header fields, and what compiled port and address
  filters decide on them. The frames are shorter than \<open>long_enough\<close> asks for, so this is about the
  evaluation of expressions itself.
\<close>


section \<open>The bytes of the frames\<close>

lemma u16_bytes:
  fixes v :: u16
  shows "u16_from_be_bytes (ucast (drop_bit 8 v)) (ucast v) = v"
proof -
  have "unat (ucast (drop_bit 8 v) :: u8) = unat v div 256 mod 256"
    by (simp add: unsigned_ucast_eq unat_drop_bit_eq drop_bit_eq_div [of _ "unat v"] take_bit_eq_mod)
  moreover have "unat (ucast v :: u8) = unat v mod 256"
    by (simp add: unsigned_ucast_eq take_bit_eq_mod)
  moreover have "unat v div 256 < 256"
    using u16_less [of v] by (simp add: less_mult_imp_div_less)
  moreover have "256 * (unat v div 256) + unat v mod 256 = unat v" by simp
  ultimately show ?thesis unfolding u16_from_be_bytes_def by simp
qed

lemma ethertype_bytes:
  "ucast (drop_bit 8 ETH_P_IPV4) = (8 :: u8)" "ucast ETH_P_IPV4 = (0 :: u8)"
  "ucast (drop_bit 8 ETH_P_IPV6) = (0x86 :: u8)" "ucast ETH_P_IPV6 = (0xdd :: u8)"
  by (code_simp; simp)+

lemmas frame_steps = copy_into_def set_at_def u16_to_be_bytes_def ethertype_bytes Let_def

lemma zeros_34: "replicate 34 (0 :: u8) =
  [0, 0, 0, 0, 0, 0, 0, 0, 0, 0, 0, 0, 0, 0, 0, 0, 0, 0, 0, 0, 0, 0, 0, 0, 0, 0, 0, 0, 0, 0, 0, 0, 0, 0]"
  by (simp add: numeral_eq_Suc)

lemma zeros_more:
  "replicate 42 (0 :: u8) = replicate 34 0 @ [0, 0, 0, 0, 0, 0, 0, 0]"
  "replicate 54 (0 :: u8) = replicate 34 0 @ [0, 0, 0, 0, 0, 0, 0, 0, 0, 0, 0, 0, 0, 0, 0, 0, 0, 0, 0, 0]"
  "replicate 62 (0 :: u8) = replicate 34 0 @
     [0, 0, 0, 0, 0, 0, 0, 0, 0, 0, 0, 0, 0, 0, 0, 0, 0, 0, 0, 0, 0, 0, 0, 0, 0, 0, 0, 0]"
  by (simp_all add: numeral_eq_Suc)

lemma eth_ipv4_bytes:
  "eth_ipv4 p (s0, s1, s2, s3) (d0, d1, d2, d3) sp dp =
   Ok ([0, 0, 0, 0, 0, 0, 0, 0, 0, 0, 0, 0, 8, 0, 0x45, 0, 0, 0, 0, 0, 0, 0, 0, p, 0, 0,
        s0, s1, s2, s3, d0, d1, d2, d3, ucast (drop_bit 8 sp), ucast sp, ucast (drop_bit 8 dp), ucast dp,
        0, 0, 0, 0])"
  by (simp add: eth_ipv4_def frame_steps zeros_more zeros_34)

lemma eth_ipv4_fragment_bytes:
  "eth_ipv4_fragment p (s0, s1, s2, s3) (d0, d1, d2, d3) units =
   Ok ([0, 0, 0, 0, 0, 0, 0, 0, 0, 0, 0, 0, 8, 0, 0x45, 0, 0, 0, 0, 0,
        ucast (drop_bit 8 units), ucast units, 0, p, 0, 0,
        s0, s1, s2, s3, d0, d1, d2, d3, ucast (drop_bit 8 (4000 :: u16)), ucast (4000 :: u16), 0, 80,
        0, 0, 0, 0])"
  by (simp add: eth_ipv4_fragment_def eth_ipv4_bytes frame_steps)

lemma eth_ipv4_bare_bytes:
  "eth_ipv4_bare (s0, s1, s2, s3) (d0, d1, d2, d3) =
   Ok ([0, 0, 0, 0, 0, 0, 0, 0, 0, 0, 0, 0, 8, 0, 0x45, 0, 0, 0, 0, 0, 0, 0, 0, 0, 0, 0,
        s0, s1, s2, s3, d0, d1, d2, d3])"
  by (simp add: eth_ipv4_bare_def frame_steps zeros_34)

definition octets16 :: "u128 \<Rightarrow> u8 list" where
  "octets16 a = map (\<lambda>i. ucast (drop_bit (120 - 8 * i) a)) [0..<16]"

lemma length_octets16 [simp]: "length (octets16 a) = 16"
  by (simp add: octets16_def)

lemma eth_ipv6_bytes:
  assumes "parse_ipv6 src = Some s" and "parse_ipv6 dst = Some d"
  shows "eth_ipv6 p src dst sp dp =
   Ok ([0, 0, 0, 0, 0, 0, 0, 0, 0, 0, 0, 0, 0x86, 0xdd, 0x60, 0, 0, 0, 0, 0, p, 64] @
       octets16 s @ octets16 d @
       [ucast (drop_bit 8 sp), ucast sp, ucast (drop_bit 8 dp), ucast dp, 0, 0, 0, 0])"
  by (simp add: eth_ipv6_def ipv6_octets_def assms frame_steps zeros_more zeros_34 octets16_def [symmetric])

lemma eth_ipv6_bare_bytes:
  assumes "parse_ipv6 src = Some s" and "parse_ipv6 dst = Some d"
  shows "eth_ipv6_bare src dst =
   Ok ([0, 0, 0, 0, 0, 0, 0, 0, 0, 0, 0, 0, 0x86, 0xdd, 0x60, 0, 0, 0, 0, 0, 59, 64] @
       octets16 s @ octets16 d)"
  by (simp add: eth_ipv6_bare_def ipv6_octets_def assms frame_steps zeros_more zeros_34 octets16_def [symmetric])


section \<open>What filters decide on them\<close>

lemmas read_steps = read_u8_def read_u16_def read_u32_def get_def get_range_def checked_add_def usize_limit_def

text \<open>The header fields of a frame of the first builder.\<close>

lemma eth_ipv4_fields:
  assumes "eth_ipv4 p (s0, s1, s2, s3) (d0, d1, d2, d3) sp dp = Ok f"
  shows "read_u16 f 12 = Some 0x800" "read_u8 f 14 = Some 0x45" "read_u16 f 20 = Some 0"
    "read_u8 f 23 = Some (ucast p)" "read_u16 f 34 = Some (ucast sp)" "read_u16 f 36 = Some (ucast dp)"
    "read_u32 f 26 = Some (u32_from_be_bytes s0 s1 s2 s3)"
    "read_u32 f 30 = Some (u32_from_be_bytes d0 d1 d2 d3)"
  using assms [symmetric]
  by (simp_all add: eth_ipv4_bytes read_steps u16_bytes, simp_all add: u16_from_be_bytes_def)


lemmas gate_steps = eval_gates_def eval_l3_def mk_ctx_def codegen_constants

lemma header_20:
  assumes "read_u8 f 14 = Some 0x45"
  shows "header_len (mk_ctx Ethernet) f = 20"
  using assms by (simp add: header_len_def mk_ctx_def)

definition port_at4 :: "dir_tag \<Rightarrow> nat" where
  "port_at4 dr = (case dr of Src \<Rightarrow> 34 | Dst \<Rightarrow> 36)"

definition port_at6 :: "dir_tag \<Rightarrow> nat" where
  "port_at6 dr = (case dr of Src \<Rightarrow> 54 | Dst \<Rightarrow> 56)"

lemma eval_port_v4:
  assumes "read_u16 f 12 = Some 0x800" and "read_u8 f 14 = Some 0x45" and "read_u16 f 20 = Some fr"
    and "read_u8 f 23 = Some pr" and "read_u16 f (port_at4 dr) = Some v"
    and "port_proto_num proto (Range 0 0) = Ok n"
  shows "eval_port (mk_ctx Ethernet) proto dr lo hi f =
    Some (pr = n \<and> fr AND FRAG_MASK = 0 \<and> in_range lo hi v)"
proof -
  have "eval_port6 (mk_ctx Ethernet) n dr lo hi f = Some False"
    using assms by (simp add: eval_port6_def gate_steps)
  moreover have "eval_port4_gates (mk_ctx Ethernet) n f = Some (pr = n \<and> fr AND FRAG_MASK = 0)"
    using assms by (simp add: eval_port4_gates_def gate_steps)
  moreover have "eval_port4_at (mk_ctx Ethernet) dr lo hi f 20 = Some (in_range lo hi v)"
    using assms by (cases dr) (simp_all add: eval_port4_at_def port_at4_def port_rel_def mk_ctx_def
      checked_add_def usize_limit_def codegen_constants)
  ultimately show ?thesis
    by (auto simp: eval_port_def eval_port4_def header_20 [OF assms(2)] assms(6))
qed

lemma eval_port_v6:
  assumes "read_u16 f 12 = Some 0x86dd" and "read_u8 f 20 = Some pr" and "read_u16 f (port_at6 dr) = Some v"
    and "port_proto_num proto (Range 0 0) = Ok n"
  shows "eval_port (mk_ctx Ethernet) proto dr lo hi f = Some (pr = n \<and> in_range lo hi v)"
proof -
  have "eval_port4 (mk_ctx Ethernet) n dr lo hi f = Some False"
    using assms by (simp add: eval_port4_def eval_port4_gates_def gate_steps)
  moreover have "eval_port6 (mk_ctx Ethernet) n dr lo hi f = Some (pr = n \<and> in_range lo hi v)"
    using assms by (cases dr) (simp_all add: eval_port6_def eval_port6_at_def port_at6_def port_rel_def
      gate_steps)
  ultimately show ?thesis by (simp add: eval_port_def assms(4))
qed


text \<open>The header fields of the other frames.\<close>

lemma eth_ipv4_fragment_fields:
  assumes "eth_ipv4_fragment p (s0, s1, s2, s3) (d0, d1, d2, d3) units = Ok f"
  shows "read_u16 f 12 = Some 0x800" "read_u8 f 14 = Some 0x45" "read_u16 f 20 = Some (ucast units)"
    "read_u8 f 23 = Some (ucast p)" "read_u16 f 34 = Some 4000" "read_u16 f 36 = Some 80"
  using assms [symmetric]
  by (simp_all add: eth_ipv4_fragment_bytes read_steps u16_bytes, simp_all add: u16_from_be_bytes_def)

lemma eth_ipv4_bare_fields:
  assumes "eth_ipv4_bare (s0, s1, s2, s3) (d0, d1, d2, d3) = Ok f"
  shows "read_u16 f 12 = Some 0x800"
    "read_u32 f 26 = Some (u32_from_be_bytes s0 s1 s2 s3)"
    "read_u32 f 30 = Some (u32_from_be_bytes d0 d1 d2 d3)"
  using assms [symmetric]
  by (simp_all add: eth_ipv4_bare_bytes read_steps, simp_all add: u16_from_be_bytes_def)

lemma octet_of_word:
  fixes a :: u128
  assumes "j \<le> 24"
  shows "v4_octet (ucast (drop_bit k a)) j = ucast (drop_bit (k + j) a)"
  unfolding v4_octet_def
  by (rule bit_word_eqI) (use assms in \<open>auto simp: bit_simps ac_simps\<close>)

definition be_octets :: "u32 \<Rightarrow> u8 list" where
  "be_octets w = [v4_octet w 24, v4_octet w 16, v4_octet w 8, v4_octet w 0]"

lemma octets16_words:
  "octets16 a = be_octets (word6 a 0) @ be_octets (word6 a 1) @ be_octets (word6 a 2) @
     be_octets (word6 a 3)"
proof -
  have "[0..<16] = [0, 1, 2, 3, 4, 5, 6, 7, 8, 9, 10, 11, 12, 13, 14, 15 :: nat]"
    by (simp add: upt_rec)
  then show ?thesis
    using octet_of_word [of _ 0 a]
    by (simp add: octets16_def be_octets_def word6_def octet_of_word)
qed

lemma read_be_octets: "n + 4 < usize_limit \<Longrightarrow> length l = n \<Longrightarrow> read_u32 (l @ be_octets w @ r) n = Some w"
  by (simp add: read_u32_def get_range_def checked_add_def be_octets_def v4_octets)

lemma read_octets16:
  assumes "i < 4" and "length l = n" and "n + 16 < usize_limit"
  shows "read_u32 (l @ octets16 a @ r) (n + 4 * i) = Some (word6 a i)"
proof -
  have len: "length (be_octets w) = 4" for w by (simp add: be_octets_def)
  let ?w = "\<lambda>i. be_octets (word6 a i)"
  consider "i = 0" | "i = 1" | "i = 2" | "i = 3" using assms(1) by linarith
  then show ?thesis
    using assms(2,3) read_be_octets [of n l] read_be_octets [of "n + 4" "l @ ?w 0"]
      read_be_octets [of "n + 8" "l @ ?w 0 @ ?w 1"] read_be_octets [of "n + 12" "l @ ?w 0 @ ?w 1 @ ?w 2"]
    by cases (simp_all add: octets16_words len)
qed

lemma eth_ipv6_fields:
  assumes "eth_ipv6 p src dst sp dp = Ok f" and "parse_ipv6 src = Some s" and "parse_ipv6 dst = Some d"
  shows "read_u16 f 12 = Some 0x86dd" "read_u8 f 20 = Some (ucast p)"
    "read_u16 f 54 = Some (ucast sp)" "read_u16 f 56 = Some (ucast dp)"
  using assms(1) [symmetric]
  by (simp_all add: eth_ipv6_bytes [OF assms(2,3)] read_steps u16_bytes nth_append, simp_all add: u16_from_be_bytes_def)

lemma eth_ipv6_bare_fields:
  assumes "eth_ipv6_bare src dst = Ok f" and "parse_ipv6 src = Some s" and "parse_ipv6 dst = Some d"
  shows "read_u16 f 12 = Some 0x86dd"
    and "i < 4 \<Longrightarrow> read_u32 f (22 + 4 * i) = Some (word6 s i)"
    and "i < 4 \<Longrightarrow> read_u32 f (38 + 4 * i) = Some (word6 d i)"
proof -
  define h where "h = [0, 0, 0, 0, 0, 0, 0, 0, 0, 0, 0, 0, 0x86, 0xdd, 0x60, 0, 0, 0, 0, 0, 59, 64 :: u8]"
  have f: "f = h @ octets16 s @ octets16 d" and h: "length h = 22"
    using assms(1) [symmetric] by (simp_all add: eth_ipv6_bare_bytes [OF assms(2,3)] h_def)
  show "read_u16 f 12 = Some 0x86dd"
    by (simp add: f h_def read_steps nth_append, simp add: u16_from_be_bytes_def)
  assume i: "i < 4"
  show "read_u32 f (22 + 4 * i) = Some (word6 s i)"
    using read_octets16 [OF i h] by (simp add: f usize_limit_def)
  show "read_u32 f (38 + 4 * i) = Some (word6 d i)"
    using read_octets16 [OF i, of "h @ octets16 s" 38 d "[]"] h by (simp add: f usize_limit_def)
qed

section \<open>Filters on the frames\<close>

definition addr_at4 :: "dir_tag \<Rightarrow> nat" where
  "addr_at4 dr = (case dr of Src \<Rightarrow> 26 | Dst \<Rightarrow> 30)"

definition addr_at6 :: "dir_tag \<Rightarrow> nat" where
  "addr_at6 dr = (case dr of Src \<Rightarrow> 22 | Dst \<Rightarrow> 38)"

fun prefix_len :: "addr_lit \<Rightarrow> u8 option \<Rightarrow> nat" where
  "prefix_len (V4 a) None = 32"
| "prefix_len (V6 a) None = 128"
| "prefix_len addr (Some n) = unat n"

lemma eval_addr_v4:
  assumes "read_u16 f 12 = Some 0x800" and "read_u32 f (addr_at4 dr) = Some w"
    and "prefix_len (V4 a) prefix \<le> 32"
  shows "eval_addr (mk_ctx Ethernet) CIp dr (V4 a) prefix f =
      Some (same_prefix 32 (prefix_len (V4 a) prefix) (unat w) (unat a))"
    and "eval_addr (mk_ctx Ethernet) CArp dr (V4 a) prefix f = Some False"
    and "eval_addr (mk_ctx Ethernet) CRarp dr (V4 a) prefix f = Some False"
proof -
  have "eval_addr_word (mk_ctx Ethernet) (ip_gates None) dr msk t f = Some (mask_target msk w = t)" for msk t
    using assms by (cases dr) (simp_all add: eval_addr_word_def addr_at4_def dir_offset_def ip_gates_def gate_steps)
  then show "eval_addr (mk_ctx Ethernet) CIp dr (V4 a) prefix f =
      Some (same_prefix 32 (prefix_len (V4 a) prefix) (unat w) (unat a))"
    using assms mask_of_prefix [of _ w a]
    by (cases prefix) (simp_all add: eval_addr_def gate_steps same_prefix_def mask_target_def ip_gates_def
        word_unat_eq_iff [of w a])
qed (use assms in \<open>simp_all add: eval_addr_def gate_steps arp_gates_def\<close>)

lemma eval_addr_v6:
  assumes "read_u16 f 12 = Some 0x86dd"
    and "\<And>i. i < 4 \<Longrightarrow> read_u32 f (addr_at6 dr + 4 * i) = Some (word6 w i)"
    and "prefix_len (V6 a) prefix \<le> 128"
  shows "eval_addr (mk_ctx Ethernet) CIp6 dr (V6 a) prefix f =
      Some (same_prefix 128 (prefix_len (V6 a) prefix) (unat w) (unat a))"
proof -
  let ?n = "prefix_len (V6 a) prefix"
  let ?m = "\<lambda>i. mask_of (min (?n - 32 * i) 32)"
  have "eval_addr6_word (mk_ctx Ethernet) (dir_offset ip6_gates dr) a ?n f i =
      Some (word6 w i AND ?m i = word6 a i AND ?m i)" if i: "i < 4" for i
  proof -
    consider "i = 0" | "i = 1" | "i = 2" | "i = 3" using i by linarith
    then have "unat (ip_base (mk_ctx Ethernet) + dir_offset ip6_gates dr + 4 * of_nat i) = addr_at6 dr + 4 * i"
      by cases (cases dr; simp add: dir_offset_def ip6_gates_def mk_ctx_def addr_at6_def codegen_constants)+
    then show ?thesis using assms(2) [OF i] by (simp add: eval_addr6_word_def Let_def flip: word6_def)
  qed
  then have "eval_addr6 (mk_ctx Ethernet) ip6_gates dr a ?n f =
      Some (\<forall>i < (?n + 31) div 32. word6 w i AND ?m i = word6 a i AND ?m i)"
    using assms(3) unfolding eval_addr6_def by (subst eval_addr6_words_all) auto
  moreover have "(case prefix of None \<Rightarrow> 128 | Some n \<Rightarrow> unat n) = ?n" by (cases prefix) simp_all
  ultimately show ?thesis
    using assms(1) word6_prefix [OF assms(3), of w a]
    by (cases prefix) (simp_all add: eval_addr_def gate_steps same_prefix_def)
qed


text \<open>A single primitive that is not refused compiles, and its program evaluates it.\<close>

lemma primitive_compiles:
  assumes "length src < max_source" and "lex src = Ok toks" and "parse toks = Ok (EPrimitive pr)"
    and "source_refusal lt (EPrimitive pr) = None" and "snaplen \<noteq> 0"
  obtains prog where "compile src lt snaplen = Ok prog"
    and "\<And>p. program_matches prog p \<longleftrightarrow> source_eval (mk_ctx lt) (EPrimitive pr) p = Some True"
proof -
  obtain x where x: "expand (EPrimitive pr) = Ok x" "leaves x \<le> 13"
    using expand_total expand_leaves [of "EPrimitive pr"] by fastforce
  obtain prog where prog: "compile src lt snaplen = Ok prog"
    using compile_few_leaves [OF assms(1-3) x assms(4)] by blast
  show thesis
    by (rule that [OF prog])
       (simp add: program_matches_def compile_run [OF assms(1-3) prog] verdict_def assms(5) split: option.split)
qed

lemma refusal_none:
  "source_refusal lt (EPrimitive pr) = None \<Longrightarrow> c \<in> set (resolutions pr) \<Longrightarrow> leaf_refusal lt c = None"
  by (auto simp: first_error_None)

lemma resolutions_ex:
  "(\<exists>c \<in> set (resolutions pr). P (cp_proto c) (cp_dir c)) \<longleftrightarrow>
     (\<exists>proto \<in> set (default_protos pr). \<exists>dr \<in> set (default_dirs pr). P proto dr)"
  by (auto simp: resolutions_def)

fun port_bounds :: "prim_type \<Rightarrow> (u16 \<times> u16) option" where
  "port_bounds (Port q) = Some (q, q)"
| "port_bounds (PortRange lo hi) = Some (lo, hi)"
| "port_bounds _ = None"

text \<open>The protocol and ports that a port primitive is meant to match.\<close>

fun port_of :: "dir_tag \<Rightarrow> 'a \<Rightarrow> 'a \<Rightarrow> 'a" where
  "port_of Src sp dp = sp"
| "port_of Dst sp dp = dp"

definition wants_ports :: "primitive \<Rightarrow> u8 \<Rightarrow> u16 \<Rightarrow> u16 \<Rightarrow> bool" where
  "wants_ports pr p sp dp \<longleftrightarrow>
     (\<exists>proto \<in> set (default_protos pr). port_proto_num proto (Range 0 0) = Ok (ucast p)) \<and>
     (case port_bounds (prim_ty pr) of
        None \<Rightarrow> False
      | Some (lo, hi) \<Rightarrow>
          \<exists>dr \<in> set (default_dirs pr). lo \<le> port_of dr sp dp \<and> port_of dr sp dp \<le> hi)"

lemma in_range_u16: "in_range lo hi (ucast v) \<longleftrightarrow> lo \<le> v \<and> v \<le> hi" for v :: u16
  using u16_less [of lo] u16_less [of hi] u16_less [of v]
  by (simp add: in_range_def word_le_nat_alt unsigned_ucast_eq take_bit_eq_mod)

lemma fragment_bits: "ucast v AND FRAG_MASK = 0 \<longleftrightarrow> v AND 0x1fff = 0" for v :: u16
proof -
  have "unat (ucast v AND FRAG_MASK :: u32) = unat (v AND 0x1fff)"
    using u16_less [of v]
    by (simp add: FRAG_MASK_def unsigned_and_eq unsigned_ucast_eq take_bit_eq_mod)
  then show ?thesis by (simp add: word_unat_eq_iff)
qed

lemma port_filter:
  assumes "source_refusal Ethernet (EPrimitive pr) = None" and "port_bounds (prim_ty pr) = Some (lo, hi)"
    and eval: "\<And>proto dr n. port_proto_num proto (Range 0 0) = Ok n \<Longrightarrow>
      eval_port (mk_ctx Ethernet) proto dr lo hi f = Some (u = n \<and> b \<and> in_range lo hi (v dr))"
  shows "source_eval (mk_ctx Ethernet) (EPrimitive pr) f =
    Some (b \<and> (\<exists>proto \<in> set (default_protos pr). port_proto_num proto (Range 0 0) = Ok u) \<and>
      (\<exists>dr \<in> set (default_dirs pr). in_range lo hi (v dr)))"
proof -
  have "eval_primitive (mk_ctx Ethernet) c f =
      Some (b \<and> port_proto_num (cp_proto c) (Range 0 0) = Ok u \<and> in_range lo hi (v (cp_dir c)))"
    if c: "c \<in> set (resolutions pr)" for c
  proof -
    have "port_refusal (cp_proto c) = None"
      using refusal_none [OF assms(1) c] resolutions_fields [OF c] assms(2)
      by (auto simp: leaf_refusal_def split: prim_type.splits)
    then obtain n where n: "port_proto_num (cp_proto c) (Range 0 0) = Ok n"
      by (cases "cp_proto c") (auto simp: port_refusal_def port_proto_num_def)
    have "eval_primitive (mk_ctx Ethernet) c f = eval_port (mk_ctx Ethernet) (cp_proto c) (cp_dir c) lo hi f"
      using resolutions_fields [OF c] assms(2) by (cases "prim_ty pr") (auto simp: eval_primitive_def)
    then show ?thesis using eval [OF n] n by auto
  qed
  then have "source_eval (mk_ctx Ethernet) (EPrimitive pr) f =
      Some (\<exists>c \<in> set (resolutions pr).
        b \<and> port_proto_num (cp_proto c) (Range 0 0) = Ok u \<and> in_range lo hi (v (cp_dir c)))"
    unfolding source_eval.simps by (rule any3_says)
  then show ?thesis
    unfolding resolutions_ex [of pr "\<lambda>proto dr. b \<and> port_proto_num proto (Range 0 0) = Ok u \<and> in_range lo hi (v dr)"]
    by auto
qed


text \<open>The port filter on the frames of the builders, one address for all of its arguments.\<close>

lemma port_filter_ipv4:
  assumes "eth_ipv4 p s d sp dp = Ok f" and "port_proto_num proto (Range 0 0) = Ok n"
  shows "eval_port (mk_ctx Ethernet) proto dr lo hi f =
    Some (ucast p = n \<and> True \<and> in_range lo hi (ucast (port_of dr sp dp)))"
proof -
  obtain s0 s1 s2 s3 d0 d1 d2 d3 where *: "s = (s0, s1, s2, s3)" "d = (d0, d1, d2, d3)"
    by (cases s; cases d) auto
  note fields = eth_ipv4_fields [OF assms(1) [unfolded *]]
  have "read_u16 f (port_at4 dr) = Some (ucast (port_of dr sp dp))"
    using fields by (cases dr) (simp_all add: port_at4_def)
  from eval_port_v4 [OF fields(1-4) this assms(2)] show ?thesis by simp
qed

lemma port_filter_fragment:
  assumes "eth_ipv4_fragment p s d units = Ok f" and "port_proto_num proto (Range 0 0) = Ok n"
  shows "eval_port (mk_ctx Ethernet) proto dr lo hi f =
    Some (ucast p = n \<and> units AND 0x1fff = 0 \<and> in_range lo hi (ucast (port_of dr 4000 80 :: u16)))"
proof -
  obtain s0 s1 s2 s3 d0 d1 d2 d3 where *: "s = (s0, s1, s2, s3)" "d = (d0, d1, d2, d3)"
    by (cases s; cases d) auto
  note fields = eth_ipv4_fragment_fields [OF assms(1) [unfolded *]]
  have "read_u16 f (port_at4 dr) = Some (ucast (port_of dr 4000 80 :: u16))"
    using fields by (cases dr) (simp_all add: port_at4_def)
  from eval_port_v4 [OF fields(1-4) this assms(2)] show ?thesis by (simp add: fragment_bits)
qed

lemma eth_ipv6_addresses:
  assumes "eth_ipv6 p src dst sp dp = Ok f"
  obtains s d where "parse_ipv6 src = Some s" and "parse_ipv6 dst = Some d"
  using assms
  by (cases "parse_ipv6 src"; cases "parse_ipv6 dst") (auto simp: eth_ipv6_def ipv6_octets_def Let_def)

lemma port_filter_ipv6:
  assumes "eth_ipv6 p src dst sp dp = Ok f" and "port_proto_num proto (Range 0 0) = Ok n"
  shows "eval_port (mk_ctx Ethernet) proto dr lo hi f =
    Some (ucast p = n \<and> True \<and> in_range lo hi (ucast (port_of dr sp dp)))"
proof -
  obtain s d where "parse_ipv6 src = Some s" "parse_ipv6 dst = Some d"
    by (rule eth_ipv6_addresses [OF assms(1)])
  note fields = eth_ipv6_fields [OF assms(1) this]
  have "read_u16 f (port_at6 dr) = Some (ucast (port_of dr sp dp))"
    using fields by (cases dr) (simp_all add: port_at6_def)
  from eval_port_v6 [OF fields(1,2) this assms(2)] show ?thesis by simp
qed

lemma port_frames:
  assumes src: "length src < max_source" "lex src = Ok toks" "parse toks = Ok (EPrimitive pr)"
    and refusal: "source_refusal Ethernet (EPrimitive pr) = None" and "snaplen \<noteq> 0"
    and bounds: "port_bounds (prim_ty pr) = Some (lo, hi)"
  shows "\<exists>prog. compile src Ethernet snaplen = Ok prog \<and>
    (\<forall>f. eth_ipv4 p s d sp dp = Ok f \<longrightarrow> program_matches prog f = wants_ports pr p sp dp) \<and>
    (\<forall>f. eth_ipv4_fragment p s d units = Ok f \<longrightarrow>
       program_matches prog f = (units AND 0x1fff = 0 \<and> wants_ports pr p 4000 80)) \<and>
    (\<forall>f. eth_ipv6 p s6 d6 sp dp = Ok f \<longrightarrow> program_matches prog f = wants_ports pr p sp dp)"
proof -
  obtain prog where prog: "compile src Ethernet snaplen = Ok prog"
    "\<And>p. program_matches prog p \<longleftrightarrow> source_eval (mk_ctx Ethernet) (EPrimitive pr) p = Some True"
    using primitive_compiles [OF src refusal assms(5)] by blast
  note filt = port_filter [OF refusal bounds] 
  show ?thesis
    by (rule exI [of _ prog])
       (simp add: prog wants_ports_def bounds in_range_u16
         filt [OF port_filter_ipv4] filt [OF port_filter_fragment] filt [OF port_filter_ipv6]
         del: source_eval.simps)
qed

end
