(* ===== verification/Cases.thy ===== *)
theory Cases
  imports FramesCorrect Examples
begin

text \<open>
  The table of cases of \<open>examples/kernel_diff.rs\<close>: its seven filters compile, and the compiled programs
  decide its fifteen frames as the labels say.
\<close>


section \<open>Addresses of the table\<close>

lemma show_decs: "show_dec 10 = ''10''" "show_dec 0 = ''0''" "show_dec (Suc 0) = ''1''" "show_dec 8 = ''8''"
  "show_dec 53 = ''53''" "show_dec 8000 = ''8000''" "show_dec 8010 = ''8010''" "show_dec 32 = ''32''"
  by (simp_all add: show_dec_def digits.simps [of 10] digit_char_def,
      simp_all add: char_of_def, simp_all add: numeral_eq_Suc bit_0)

lemma parse_table_ports: "parse_port ''53'' ofs = Ok 53" "parse_port ''8000'' ofs = Ok 8000"
  "parse_port ''8010'' ofs = Ok 8010"
  using parse_port_show [of 53 ofs] parse_port_show [of 8000 ofs] parse_port_show [of 8010 ofs]
  by (simp_all add: show_decs)

lemma parse_v4:
  "parse_addr_literal ''10.0.0.1'' ofs False = Ok (V4 0x0a000001, None)"
  "parse_addr_literal ''10.0.0.0/8'' ofs True = Ok (V4 0x0a000000, Some 8)"
  using parse_addr_dotted [of 10 0 0 1 ofs False] parse_addr_dotted_prefix [of 8 10 0 0 0 ofs]
  by (simp_all add: dotted_def show_decs u32_from_be_bytes_def)

lemma no_groups: "replicate 4 (0 :: nat) = [0, 0, 0, 0]" "replicate 5 (0 :: nat) = [0, 0, 0, 0, 0]"
  "replicate 6 (0 :: nat) = [0, 0, 0, 0, 0, 0]"
  by (simp_all add: numeral_eq_Suc)

lemmas ipv6_steps =
  parse_ipv6_def read_ipv6_addr_def read_groups.simps read_separator_def read_number_def read_ipv4_addr_def
  to_digit_def u128_of_groups_def Let_def

lemma parse_v6:
  "parse_ipv6 ''2001:db8::1'' = Some 0x20010db8000000000000000000000001"
  "parse_ipv6 ''2001:db8::2'' = Some 0x20010db8000000000000000000000002"
  "parse_ipv6 ''2001:db8:1234::1'' = Some 0x20010db8123400000000000000000001"
  "parse_ipv6 ''2001:db9::1'' = Some 0x20010db9000000000000000000000001"
  "parse_ipv6 ''2001:db8::'' = Some 0x20010db8000000000000000000000000"
  "parse_ipv6 ''fe80::9'' = Some 0xfe800000000000000000000000000009"
  by (simp_all add: ipv6_steps no_groups)


lemma parse_v6_literal:
  "parse_addr_literal ''2001:db8::1'' ofs False = Ok (V6 0x20010db8000000000000000000000001, None)"
  "parse_addr_literal ''2001:db8::/32'' ofs True = Ok (V6 0x20010db8000000000000000000000000, Some 32)"
  using parse_u8_show [of 32]
  by (simp_all add: parse_addr_literal_def parse_ipv6_literal_def split_prefix_def parse_v6 show_decs)

section \<open>The filters of the table\<close>

lemmas lex_steps = lex_def ascii_def lex_loop.simps is_whitespace_def is_word_char_code

abbreviation leaf :: "proto_tag option \<Rightarrow> prim_type \<Rightarrow> nat \<Rightarrow> primitive" where
  "leaf proto ty n \<equiv> \<lparr>prim_proto = proto, prim_dir = None, prim_ty = ty, prim_offset = Range 0 n\<rparr>"

text \<open>What a filter text parses to, and that nothing in it is refused on Ethernet.\<close>

definition parses_to :: "string \<Rightarrow> primitive \<Rightarrow> bool" where
  "parses_to f pr \<longleftrightarrow>
     length (ascii f) < max_source \<and> source_refusal Ethernet (EPrimitive pr) = None \<and>
     (\<exists>toks. lex (ascii f) = Ok toks \<and> parse toks = Ok (EPrimitive pr))"

lemma parses_toI:
  "lex (ascii f) = Ok toks \<Longrightarrow> parse toks = Ok (EPrimitive pr) \<Longrightarrow> length f < max_source \<Longrightarrow>
   source_refusal Ethernet (EPrimitive pr) = None \<Longrightarrow> parses_to f pr"
  by (auto simp: parses_to_def ascii_def)

lemmas refusal_steps =
  resolutions_def default_protos_def default_dirs_def leaf_refusal_def port_refusal_def address_refusal_def has_ethertype_def

lemmas primitive_steps =
  token_steps parser_simps parse_primitive_def try_parse_proto_def try_parse_dir_def try_keyword_def
  proto_keyword_def dir_keyword_def parse_type_def

lemma lex_tcp_filter:
  "lex (ascii ''tcp port 80'') = Ok [mk_token (Word ''tcp'') 0 3, mk_token (Word ''port'') 4 8, mk_token (Word ''80'') 9 11, mk_token Eof 11 11]"
  by (simp add: lex_steps, simp add: char_of_def, simp add: numeral_eq_Suc bit_0)

lemma lex_udp_filter:
  "lex (ascii ''udp port 53'') = Ok [mk_token (Word ''udp'') 0 3, mk_token (Word ''port'') 4 8, mk_token (Word ''53'') 9 11, mk_token Eof 11 11]"
  by (simp add: lex_steps, simp add: char_of_def, simp add: numeral_eq_Suc bit_0)

lemma lex_range_filter:
  "lex (ascii ''portrange 8000-8010'') = Ok [mk_token (Word ''portrange'') 0 9, mk_token (Word ''8000'') 10 14, mk_token Dash 14 15, mk_token (Word ''8010'') 15 19, mk_token Eof 19 19]"
  by (simp add: lex_steps, simp add: char_of_def, simp add: numeral_eq_Suc bit_0)

lemma lex_host_filter:
  "lex (ascii ''ip host 10.0.0.1'') = Ok [mk_token (Word ''ip'') 0 2, mk_token (Word ''host'') 3 7, mk_token (Word ''10.0.0.1'') 8 16, mk_token Eof 16 16]"
  by (simp add: lex_steps, simp add: char_of_def, simp add: numeral_eq_Suc bit_0)

lemma lex_net_filter:
  "lex (ascii ''net 10.0.0.0/8'') = Ok [mk_token (Word ''net'') 0 3, mk_token (Word ''10.0.0.0/8'') 4 14, mk_token Eof 14 14]"
  by (simp add: lex_steps, simp add: char_of_def, simp add: numeral_eq_Suc bit_0)

lemma lex_host6_filter:
  "lex (ascii ''ip6 host 2001:db8::1'') = Ok [mk_token (Word ''ip6'') 0 3, mk_token (Word ''host'') 4 8, mk_token (Word ''2001:db8::1'') 9 20, mk_token Eof 20 20]"
  by (simp add: lex_steps, simp add: char_of_def, simp add: numeral_eq_Suc bit_0)

lemma lex_net6_filter:
  "lex (ascii ''ip6 net 2001:db8::/32'') = Ok [mk_token (Word ''ip6'') 0 3, mk_token (Word ''net'') 4 7, mk_token (Word ''2001:db8::/32'') 8 21, mk_token Eof 21 21]"
  by (simp add: lex_steps, simp add: char_of_def, simp add: numeral_eq_Suc bit_0)

lemma parse_tcp_filter: "parse [mk_token (Word ''tcp'') 0 3, mk_token (Word ''port'') 4 8, mk_token (Word ''80'') 9 11, mk_token Eof 11 11] =
    Ok (EPrimitive (leaf (Some ProtoTcp) (Port 80) 11))"
  by (simp add: primitive_steps parse_port_80 numeral_eq_Suc)

lemma parse_udp_filter: "parse [mk_token (Word ''udp'') 0 3, mk_token (Word ''port'') 4 8, mk_token (Word ''53'') 9 11, mk_token Eof 11 11] =
    Ok (EPrimitive (leaf (Some ProtoUdp) (Port 53) 11))"
  by (simp add: primitive_steps parse_table_ports numeral_eq_Suc)

lemma parse_range_filter: "parse [mk_token (Word ''portrange'') 0 9, mk_token (Word ''8000'') 10 14, mk_token Dash 14 15, mk_token (Word ''8010'') 15 19, mk_token Eof 19 19] =
    Ok (EPrimitive (leaf None (PortRange 8000 8010) 19))"
  by (simp add: primitive_steps parse_table_ports parse_portrange_def expect_dash_def numeral_eq_Suc,
      simp add: take_bit_eq_mod)

lemma parse_host_filter: "parse [mk_token (Word ''ip'') 0 2, mk_token (Word ''host'') 3 7, mk_token (Word ''10.0.0.1'') 8 16, mk_token Eof 16 16] =
    Ok (EPrimitive (leaf (Some ProtoIp) (Host (V4 0x0a000001)) 16))"
  by (simp add: primitive_steps parse_v4 numeral_eq_Suc)

lemma parse_net_filter: "parse [mk_token (Word ''net'') 0 3, mk_token (Word ''10.0.0.0/8'') 4 14, mk_token Eof 14 14] =
    Ok (EPrimitive (leaf None (Net (V4 0x0a000000) (Some 8)) 14))"
  by (simp add: primitive_steps parse_v4 numeral_eq_Suc)

lemma parse_host6_filter: "parse [mk_token (Word ''ip6'') 0 3, mk_token (Word ''host'') 4 8, mk_token (Word ''2001:db8::1'') 9 20, mk_token Eof 20 20] =
    Ok (EPrimitive (leaf (Some ProtoIp6) (Host (V6 0x20010db8000000000000000000000001)) 20))"
  by (simp add: primitive_steps parse_v6_literal numeral_eq_Suc)

lemma parse_net6_filter: "parse [mk_token (Word ''ip6'') 0 3, mk_token (Word ''net'') 4 7, mk_token (Word ''2001:db8::/32'') 8 21, mk_token Eof 21 21] =
    Ok (EPrimitive (leaf (Some ProtoIp6) (Net (V6 0x20010db8000000000000000000000000) (Some 32)) 21))"
  by (simp add: primitive_steps parse_v6_literal numeral_eq_Suc)

lemma filters:
  "parses_to ''tcp port 80'' (leaf (Some ProtoTcp) (Port 80) 11)"
  "parses_to ''udp port 53'' (leaf (Some ProtoUdp) (Port 53) 11)"
  "parses_to ''portrange 8000-8010'' (leaf None (PortRange 8000 8010) 19)"
  "parses_to ''ip host 10.0.0.1'' (leaf (Some ProtoIp) (Host (V4 0x0a000001)) 16)"
  "parses_to ''net 10.0.0.0/8'' (leaf None (Net (V4 0x0a000000) (Some 8)) 14)"
  "parses_to ''ip6 host 2001:db8::1'' (leaf (Some ProtoIp6) (Host (V6 0x20010db8000000000000000000000001)) 20)"
  "parses_to ''ip6 net 2001:db8::/32'' (leaf (Some ProtoIp6) (Net (V6 0x20010db8000000000000000000000000) (Some 32)) 21)"
  by (rule parses_toI, rule lex_tcp_filter lex_udp_filter lex_range_filter lex_host_filter lex_net_filter
      lex_host6_filter lex_net6_filter, rule parse_tcp_filter parse_udp_filter parse_range_filter
      parse_host_filter parse_net_filter parse_host6_filter parse_net6_filter;
      simp add: max_source_def refusal_steps)+

section \<open>Verdicts\<close>

text \<open>What the compiled filter of a case decides on its frame.\<close>

definition our_verdict :: "test_case \<Rightarrow> bool res" where
  "our_verdict c =
     and_then (compile (ascii (case_filter c)) Ethernet KEEP_WHOLE_PACKET) (\<lambda>prog.
       Ok (program_matches prog (case_frame c)))"

definition ok_value :: "('e, 'a list) result \<Rightarrow> 'a list" where
  "ok_value r = (case r of Ok x \<Rightarrow> x | _ \<Rightarrow> [])"

abbreviation case_with :: "string \<Rightarrow> string \<Rightarrow> ('e, packet) result \<Rightarrow> test_case" where
  "case_with f l r \<equiv> \<lparr>case_filter = f, case_label = l, case_frame = ok_value r\<rparr>"

lemma kept: "KEEP_WHOLE_PACKET \<noteq> 0"
  by (simp add: KEEP_WHOLE_PACKET_def)

lemma verdict_eval:
  assumes "parses_to f pr" and "source_eval (mk_ctx Ethernet) (EPrimitive pr) frame = Some b"
  shows "our_verdict \<lparr>case_filter = f, case_label = l, case_frame = frame\<rparr> = Ok b"
proof -
  obtain toks where f: "length (ascii f) < max_source" "lex (ascii f) = Ok toks"
    "parse toks = Ok (EPrimitive pr)" "source_refusal Ethernet (EPrimitive pr) = None"
    using assms(1) by (auto simp: parses_to_def)
  obtain prog where "compile (ascii f) Ethernet KEEP_WHOLE_PACKET = Ok prog"
    "\<And>p. program_matches prog p \<longleftrightarrow> source_eval (mk_ctx Ethernet) (EPrimitive pr) p = Some True"
    using primitive_compiles [OF f kept] by blast
  with assms(2) show ?thesis by (simp add: our_verdict_def del: source_eval.simps)
qed

lemma frames_ok:
  "\<exists>f. eth_ipv4 p s d sp dp = Ok f" "\<exists>f. eth_ipv4_fragment p s d units = Ok f" "\<exists>f. eth_ipv4_bare s d = Ok f"
  by (cases s; cases d; simp add: eth_ipv4_bytes eth_ipv4_fragment_bytes eth_ipv4_bare_bytes)+

lemma frames_ok6:
  assumes "parse_ipv6 src = Some s" and "parse_ipv6 dst = Some d"
  shows "\<exists>f. eth_ipv6 p src dst sp dp = Ok f" and "\<exists>f. eth_ipv6_bare src dst = Ok f"
  using eth_ipv6_bytes [OF assms] eth_ipv6_bare_bytes [OF assms] by blast+

lemma port_verdicts:
  assumes "parses_to f pr" and bounds: "port_bounds (prim_ty pr) = Some (lo, hi)"
  shows "our_verdict (case_with f l (eth_ipv4 p s d sp dp :: ('e, packet) result)) = Ok (wants_ports pr p sp dp)"
    and "our_verdict (case_with f l (eth_ipv4_fragment p s d units :: ('e, packet) result)) =
      Ok (units AND 0x1fff = 0 \<and> wants_ports pr p 4000 80)"
    and "parse_ipv6 src = Some s6 \<Longrightarrow> parse_ipv6 dst = Some d6 \<Longrightarrow>
      our_verdict (case_with f l (eth_ipv6 p src dst sp dp :: ('e, packet) result)) = Ok (wants_ports pr p sp dp)"
proof -
  have refusal: "source_refusal Ethernet (EPrimitive pr) = None" using assms(1) by (simp add: parses_to_def)
  note filt = port_filter [OF refusal bounds]
  note wants = wants_ports_def bounds in_range_u16
  obtain fr where fr: "eth_ipv4 p s d sp dp = (Ok fr :: ('e, packet) result)" using frames_ok(1) by blast
  show "our_verdict (case_with f l (eth_ipv4 p s d sp dp :: ('e, packet) result)) = Ok (wants_ports pr p sp dp)"
    using verdict_eval [OF assms(1) filt [OF port_filter_ipv4 [OF fr]]] fr by (simp add: ok_value_def wants)
  obtain ff where ff: "eth_ipv4_fragment p s d units = (Ok ff :: ('e, packet) result)" using frames_ok(2) by blast
  show "our_verdict (case_with f l (eth_ipv4_fragment p s d units :: ('e, packet) result)) =
      Ok (units AND 0x1fff = 0 \<and> wants_ports pr p 4000 80)"
    using verdict_eval [OF assms(1) filt [OF port_filter_fragment [OF ff]]] ff by (simp add: ok_value_def wants)
  assume "parse_ipv6 src = Some s6" "parse_ipv6 dst = Some d6"
  then obtain f6 where f6: "eth_ipv6 p src dst sp dp = (Ok f6 :: ('e, packet) result)" using frames_ok6(1) by blast
  show "our_verdict (case_with f l (eth_ipv6 p src dst sp dp :: ('e, packet) result)) = Ok (wants_ports pr p sp dp)"
    using verdict_eval [OF assms(1) filt [OF port_filter_ipv6 [OF f6]]] f6 by (simp add: ok_value_def wants)
qed


text \<open>Address filters.\<close>

lemma address_verdict_v4:
  assumes "parses_to f pr" and "prim_proto pr \<in> {None, Some ProtoIp}"
    and "prim_dir pr = None" and "prim_ty pr = Net (V4 a) (Some n) \<or> prim_ty pr = Host (V4 a) \<and> n = 32"
    and "unat n \<le> 32"
  shows "our_verdict (case_with f l (eth_ipv4_bare (s0, s1, s2, s3) (d0, d1, d2, d3) :: ('e, packet) result)) =
    Ok (same_prefix 32 (unat n) (unat (u32_from_be_bytes s0 s1 s2 s3)) (unat a) \<or>
      same_prefix 32 (unat n) (unat (u32_from_be_bytes d0 d1 d2 d3)) (unat a))"
proof -
  obtain fr where fr: "eth_ipv4_bare (s0, s1, s2, s3) (d0, d1, d2, d3) = (Ok fr :: ('e, packet) result)"
    using frames_ok(3) by blast
  note fields = eth_ipv4_bare_fields [OF fr]
  have "source_eval (mk_ctx Ethernet) (EPrimitive pr) fr =
    Some (same_prefix 32 (unat n) (unat (u32_from_be_bytes s0 s1 s2 s3)) (unat a) \<or>
      same_prefix 32 (unat n) (unat (u32_from_be_bytes d0 d1 d2 d3)) (unat a))"
    using assms(2-5) fields eval_addr_v4 [OF fields(1)]
    by (auto simp: resolutions_def default_protos_def default_dirs_def eval_primitive_def addr_at4_def)
  from verdict_eval [OF assms(1) this] show ?thesis by (simp add: fr ok_value_def)
qed

lemma address_verdict_v6:
  assumes "parses_to f pr" and "prim_proto pr \<in> {None, Some ProtoIp6}"
    and "prim_dir pr = None" and "prim_ty pr = Net (V6 a) (Some n) \<or> prim_ty pr = Host (V6 a) \<and> n = 128"
    and "unat n \<le> 128" and "parse_ipv6 src = Some s" and "parse_ipv6 dst = Some d"
  shows "our_verdict (case_with f l (eth_ipv6_bare src dst :: ('e, packet) result)) =
    Ok (same_prefix 128 (unat n) (unat s) (unat a) \<or> same_prefix 128 (unat n) (unat d) (unat a))"
proof -
  obtain fr where fr: "eth_ipv6_bare src dst = (Ok fr :: ('e, packet) result)"
    using frames_ok6(2) [OF assms(6,7)] by blast
  note fields = eth_ipv6_bare_fields [OF fr assms(6,7)]
  have "source_eval (mk_ctx Ethernet) (EPrimitive pr) fr =
    Some (same_prefix 128 (unat n) (unat s) (unat a) \<or> same_prefix 128 (unat n) (unat d) (unat a))"
    using assms(2-5) fields eval_addr_v6 [OF fields(1), of Src s] eval_addr_v6 [OF fields(1), of Dst d]
    by (auto simp: resolutions_def default_protos_def default_dirs_def eval_primitive_def addr_at6_def)
  from verdict_eval [OF assms(1) this] show ?thesis by (simp add: fr ok_value_def)
qed


section \<open>The table\<close>

lemma collect_cases:
  "\<forall>c \<in> set t. is_ok (snd (snd c)) \<Longrightarrow>
   collect_res (map case_of t) = Ok (map (\<lambda>(f, l, r). case_with f l r) t)"
proof (induction t)
  case (Cons c t)
  obtain f l r where c: "c = (f, l, r)" by (cases c)
  with Cons.prems obtain x where "r = Ok x" by (cases r) auto
  with c Cons show ?case by (simp add: ok_value_def)
qed simp

lemma frames_are_ok:
  "is_ok (eth_ipv4 p s d sp dp)" "is_ok (eth_ipv4_fragment p s d units)" "is_ok (eth_ipv4_bare s d)"
  "parse_ipv6 src = Some s6 \<Longrightarrow> parse_ipv6 dst = Some d6 \<Longrightarrow> is_ok (eth_ipv6 p src dst sp dp)"
  "parse_ipv6 src = Some s6 \<Longrightarrow> parse_ipv6 dst = Some d6 \<Longrightarrow> is_ok (eth_ipv6_bare src dst)"
  using frames_ok frames_ok6 by (metis is_ok.simps(1))+

lemma build_cases_Ok:
  "(build_cases :: ('e, test_case list) result) =
     Ok (map (\<lambda>(f, l, r). case_with f l r) (case_table :: (string \<times> string \<times> ('e, packet) result) list))"
  unfolding build_cases_def
  by (rule collect_cases) (simp add: case_table_def frames_are_ok parse_v6)

lemmas wants_steps =
  wants_ports_def default_protos_def default_dirs_def port_proto_num_def TCP_def UDP_def codegen_constants

lemmas table_rules =
  filters [THEN port_verdicts(1)] filters [THEN port_verdicts(2)] filters [THEN port_verdicts(3)]
  filters [THEN address_verdict_v4] filters [THEN address_verdict_v6]

definition labelled :: "bool list" where
  "labelled =
     [True, True, False, False, True, False, True, True, False, True, True, False, True, True, False]"

lemma table_verdicts:
  "map (\<lambda>(f, l, r). our_verdict (case_with f l r)) (case_table :: (string \<times> string \<times> ('e, packet) result) list) =
     map Ok labelled"
  unfolding case_table_def labelled_def
  by (simp add: table_rules parse_v6 wants_steps same_prefix_def u32_from_be_bytes_def)

end
