(* ===== verification/KernelDiff.thy ===== *)
theory KernelDiff
  imports Host Frames Dump
begin

text \<open>
  \<open>examples/kernel_diff.rs\<close>: a differential test that attaches a compiled program and the one
  \<open>tcpdump -ddd\<close> prints to two raw sockets, sends a frame, and compares which socket received it.
\<close>

section \<open>Errors\<close>

datatype box_error =
    CompileFailed compile_error | IoFailed io_error | NotUtf8 nat utf8_error | NotInt int_error
  | Message string

text \<open>\<open>{e}\<close>: the \<open>Display\<close> text of the boxed error.\<close>

definition show_c_int :: "c_int \<Rightarrow> string" where
  "show_c_int n = (if sint n < 0 then ''-'' @ show_dec (nat (- sint n)) else show_dec (nat (sint n)))"

fun show_box_error :: "('s, 'x) host_scheme \<Rightarrow> box_error \<Rightarrow> string" where
  "show_box_error c (CompileFailed e) = show_compile_error e"
| "show_box_error c (IoFailed (InvalidInput m)) = m"
| "show_box_error c (IoFailed (OsError n)) =
     c_strerror c n @ '' (os error '' @ show_c_int n @ '')''"
| "show_box_error c (NotUtf8 i (Some n)) =
     ''invalid utf-8 sequence of '' @ show_dec n @ '' bytes from index '' @ show_dec i"
| "show_box_error c (NotUtf8 i None) = ''incomplete utf-8 byte sequence from index '' @ show_dec i"
| "show_box_error c (NotInt e) = show_int_error e"
| "show_box_error c (Message m) = m"

section \<open>Reading \<open>tcpdump -ddd\<close>\<close>

definition read_uint :: "nat \<Rightarrow> rstr \<Rightarrow> (box_error, nat) result" where
  "read_uint limit s = map_err NotInt (parse_int limit s)"

definition parse_ddd_line :: "rstr \<Rightarrow> (box_error, insn) result" where
  "parse_ddd_line line =
     (case split_whitespace line of
        [code, jt, jf, k] \<Rightarrow>
          and_then (read_uint (2 ^ 16 - 1) code) (\<lambda>code.
          and_then (read_uint (2 ^ 8 - 1) jt) (\<lambda>jt.
          and_then (read_uint (2 ^ 8 - 1) jf) (\<lambda>jf.
          and_then (read_uint (2 ^ 32 - 1) k) (\<lambda>k.
            Ok \<lparr>i_code = of_nat code, i_jt = of_nat jt, i_jf = of_nat jf, i_k = of_nat k\<rparr>))))
      | _ \<Rightarrow> Err (Message (''unexpected tcpdump -ddd line: '' @ quoted (bytes_of line))))"

fun parse_ddd_lines :: "rstr list \<Rightarrow> (box_error, insn list) result" where
  "parse_ddd_lines [] = Ok []"
| "parse_ddd_lines (line # lines) =
     and_then (parse_ddd_line line) (\<lambda>i.
     and_then (parse_ddd_lines lines) (\<lambda>is. Ok (i # is)))"

text \<open>\<open>Vec::with_capacity(count)\<close> of 8-byte instructions panics from \<open>2 ^ 63\<close> bytes on.\<close>

definition parse_ddd :: "rstr \<Rightarrow> (box_error, insn list) result" where
  "parse_ddd text =
     (case str_lines text of
        [] \<Rightarrow> Err (Message ''empty tcpdump -ddd output'')
      | first # lines \<Rightarrow>
          and_then (read_uint (usize_limit - 1) (trim first)) (\<lambda>count.
          if 2 ^ 63 \<le> 8 * count then Panic
          else
            and_then (parse_ddd_lines lines) (\<lambda>insns.
            if length insns \<noteq> count then
              Err (Message (''tcpdump -ddd said '' @ show_dec count @ '' instructions but printed '' @
                show_dec (length insns)))
            else Ok insns)))"

definition tcpdump_compile ::
    "('s, 'x) host_scheme \<Rightarrow> string \<Rightarrow> ('s, box_error, insn list \<times> rstr) io" where
  "tcpdump_compile c fltr =
     io_then (with_err IoFailed
       (operation (run_command c ''tcpdump'' [''-ddd'', ''-y'', ''EN10MB'', fltr]))) (\<lambda>out.
     if \<not> status_success out then
       pure (Err (Message (''tcpdump rejected '' @ quoted fltr @ '': '' @
         bytes_of (from_utf8_lossy (map unat (stderr_bytes out))))))
     else
       pure
         (and_then (map_err (\<lambda>(i, e). NotUtf8 i e) (from_utf8 (map unat (stdout_bytes out)))) (\<lambda>text.
          and_then (parse_ddd text) (\<lambda>insns. Ok (insns, text)))))"

section \<open>Attaching raw instructions\<close>

definition attach_raw ::
    "('s, 'x) libc_scheme \<Rightarrow> c_int \<Rightarrow> insn list \<Rightarrow> 's \<Rightarrow> (io_error, unit) result \<times> 's" where
  "attach_raw c sock_fd insns s =
     (case u16_try_from (length insns) of
        None \<Rightarrow> (Err (InvalidInput ''too many instructions''), s)
      | Some len \<Rightarrow>
          (let fprog = \<lparr>fprog_len = len, fprog_filter = insns\<rparr>;
               ((rv, errno), s') =
                 c_setsockopt c sock_fd (c_SOL_SOCKET c) (c_SO_ATTACH_FILTER c) fprog
                   (c_sizeof_fprog c) s
           in (if rv = 0 then Ok () else Err (OsError errno), s')))"

section \<open>Sockets\<close>

definition if_nametoindex :: "('s, 'x) host_scheme \<Rightarrow> string \<Rightarrow> ('s, io_error, u32) io" where
  "if_nametoindex c name =
     (if CHR 0x00 \<in> set name then pure Panic
      else
        io_then (call (c_if_nametoindex c name)) (\<lambda>(index, errno).
        if index = 0 then pure (Err (OsError errno)) else pure (Ok index)))"

definition htons_c_int :: "('s, 'x) host_scheme \<Rightarrow> c_int \<Rightarrow> c_int" where
  "htons_c_int c proto = ucast (c_htons c (ucast proto))"

definition link_addr :: "('s, 'x) host_scheme \<Rightarrow> u32 \<Rightarrow> sockaddr_ll" where
  "link_addr c ifindex =
     \<lparr>sll_family = ucast (c_AF_PACKET c), sll_protocol = c_htons c (ucast (c_ETH_P_ALL c)),
      sll_ifindex = ucast ifindex, sll_hatype = 0, sll_pkttype = 0, sll_halen = 0,
      sll_addr = replicate 8 0\<rparr>"

definition raw_socket_on :: "('s, 'x) host_scheme \<Rightarrow> u32 \<Rightarrow> ('s, io_error, c_int) io" where
  "raw_socket_on c ifindex =
     io_then (call (c_socket c (c_AF_PACKET c) (c_SOCK_RAW c) (htons_c_int c (c_ETH_P_ALL c))))
       (\<lambda>(fd, errno).
     if fd <s 0 then pure (Err (OsError errno))
     else
       io_then (call (c_bind c fd (link_addr c ifindex) (c_sizeof_sockaddr_ll c))) (\<lambda>(ret, errno).
       if ret \<noteq> 0 then
         io_then (call (c_close c fd)) (\<lambda>_. pure (Err (OsError errno)))
       else pure (Ok fd)))"

text \<open>A \<open>Duration\<close> is a number of milliseconds.\<close>

definition RECV_TIMEOUT :: nat where "RECV_TIMEOUT = 200"

definition set_recv_timeout :: "('s, 'x) host_scheme \<Rightarrow> c_int \<Rightarrow> nat \<Rightarrow> ('s, io_error, unit) io" where
  "set_recv_timeout c fd timeout =
     (let tv = \<lparr>tv_sec = of_nat (timeout div 1000), tv_usec = of_nat (timeout mod 1000 * 1000)\<rparr>
      in io_then (call (c_setsockopt_timeval c fd (c_SOL_SOCKET c) (c_SO_RCVTIMEO c) tv
           (c_sizeof_timeval c))) (\<lambda>(ret, errno).
         if ret = 0 then pure (Ok ()) else pure (Err (OsError errno))))"

definition send_on :: "('s, 'x) host_scheme \<Rightarrow> c_int \<Rightarrow> u32 \<Rightarrow> packet \<Rightarrow> ('s, io_error, unit) io" where
  "send_on c fd ifindex frame =
     io_then (call (c_sendto c fd frame (length frame) 0 (link_addr c ifindex)
       (c_sizeof_sockaddr_ll c))) (\<lambda>(ret, errno).
     if ret <s 0 then pure (Err (OsError errno)) else pure (Ok ()))"

text \<open>\<open>io::Error::kind\<close>, as far as \<open>recv_one\<close> tells its values apart.\<close>

datatype error_kind = WouldBlock | TimedOut | OtherKind

definition error_kind_of :: "('s, 'x) host_scheme \<Rightarrow> c_int \<Rightarrow> error_kind" where
  "error_kind_of c errno =
     (if errno = c_ETIMEDOUT c then TimedOut else if errno = c_EAGAIN c then WouldBlock else OtherKind)"

definition recv_one :: "('s, 'x) host_scheme \<Rightarrow> c_int \<Rightarrow> ('s, io_error, bool) io" where
  "recv_one c fd =
     io_then (call (c_recv c fd 256 0)) (\<lambda>(ret, errno).
     if 0 \<le>s ret then pure (Ok True)
     else if error_kind_of c errno \<in> {WouldBlock, TimedOut} then pure (Ok False)
     else pure (Err (OsError errno)))"

section \<open>One case\<close>

function chunks :: "nat \<Rightarrow> 'a list \<Rightarrow> 'a list list" where
  "chunks n xs = (if xs = [] \<or> n = 0 then [] else take n xs # chunks n (drop n xs))"
  by pat_completeness auto
termination
  by (relation "measure (\<lambda>(n, xs). length xs)") auto

declare chunks.simps [simp del]

definition hex_dump :: "packet \<Rightarrow> string" where
  "hex_dump bytes =
     join_with (CHR 0x0A # ''       '')
       (map (\<lambda>chunk. join_with '' '' (map (\<lambda>b. pad_left CHR ''0'' 2 (show_hex (unat b))) chunk))
         (chunks 16 bytes))"

definition accepted_text :: "bool \<Rightarrow> string" where
  "accepted_text accepted =
     (if accepted then ''ACCEPTED (frame received)'' else ''REJECTED (timed out)'')"

text \<open>
  \<open>run_case\<close>. Its second half is \<open>exchange\<close>: the sockets, the two filters, the frame, and what the two
  sockets received.
\<close>

definition exchange ::
    "('s, 'x) host_scheme \<Rightarrow> program \<Rightarrow> insn list \<Rightarrow> packet \<Rightarrow> ('s, box_error, bool) io" where
  "exchange c ours theirs frame =
     io_then (with_err IoFailed (if_nametoindex c ''lo'')) (\<lambda>ifindex.
     io_then (with_err IoFailed (raw_socket_on c ifindex)) (\<lambda>sock_a.
     io_then (with_err IoFailed (raw_socket_on c ifindex)) (\<lambda>sock_b.
     io_then (with_err IoFailed (raw_socket_on c ifindex)) (\<lambda>sock_tx.
     io_then (with_err IoFailed (operation (attach c sock_a ours))) (\<lambda>_.
     io_then (with_err IoFailed (operation (attach_raw c sock_b theirs))) (\<lambda>_.
     io_then (with_err IoFailed (set_recv_timeout c sock_a RECV_TIMEOUT)) (\<lambda>_.
     io_then (with_err IoFailed (set_recv_timeout c sock_b RECV_TIMEOUT)) (\<lambda>_.
     io_then (println (''  3. inject '' @ show_dec (length frame) @ '' byte(s) on fd '' @
       show_c_int sock_tx @ '':'')) (\<lambda>_.
     io_then (println (''       '' @ hex_dump frame)) (\<lambda>_.
     io_then (with_err IoFailed (send_on c sock_tx ifindex frame)) (\<lambda>_.
     io_then (println (''     `lo` loops the frame back to every raw socket bound to it, cbpf-rs'' @
       CHR 0x27 # ''s and'')) (\<lambda>_.
     io_then (println (''     tcpdump'' @ CHR 0x27 # ''s included - now waiting up to '' @
       show_dec RECV_TIMEOUT @ ''ms on each:'')) (\<lambda>_.
     io_then (with_err IoFailed (recv_one c sock_a)) (\<lambda>accepted_by_ours.
     io_then (println (''       fd '' @ show_c_int sock_a @ '' (cbpf-rs) ... '' @
       accepted_text accepted_by_ours)) (\<lambda>_.
     io_then (with_err IoFailed (recv_one c sock_b)) (\<lambda>accepted_by_theirs.
     io_then (println (''       fd '' @ show_c_int sock_b @ '' (tcpdump) ... '' @
       accepted_text accepted_by_theirs)) (\<lambda>_.
     io_then (for_each [sock_a, sock_b, sock_tx] (\<lambda>fd.
       io_then (call (c_close c fd)) (\<lambda>_. pure (Ok ())))) (\<lambda>_.
       pure (Ok (accepted_by_ours = accepted_by_theirs))))))))))))))))))))"

definition run_case :: "('s, 'x) host_scheme \<Rightarrow> test_case \<Rightarrow> ('s, box_error, bool) io" where
  "run_case c kase =
     io_then (print ''  1. compile with cbpf-rs ... '') (\<lambda>_.
     io_then (pure (map_err CompileFailed
       (compile (ascii (case_filter kase)) Ethernet KEEP_WHOLE_PACKET))) (\<lambda>ours.
     io_then (println (''ok, '' @ show_dec (length (instructions ours)) @ '' instruction(s):'')) (\<lambda>_.
     io_then (for_each (str_lines (ascii (display ours))) (\<lambda>line.
       println (''       '' @ bytes_of line))) (\<lambda>_.
     io_then (print (''  2. compile with `tcpdump -ddd -y EN10MB '' @ quoted (case_filter kase) @
       ''` ... '')) (\<lambda>_.
     io_then (tcpdump_compile c (case_filter kase)) (\<lambda>(theirs, their_raw).
     io_then (println (''ok, '' @ show_dec (length theirs) @ '' instruction(s):'')) (\<lambda>_.
     io_then (println (''       (code, jt, jf, k) - the raw `struct sock_filter` tcpdump printed:''))
       (\<lambda>_.
     io_then (for_each (str_lines their_raw) (\<lambda>line. println (''         '' @ bytes_of line))) (\<lambda>_.
       exchange c ours theirs (case_frame kase))))))))))"

section \<open>All cases\<close>

datatype exit_code = SUCCESS | FAILURE

text \<open>\<open>match run_case(case)\<close>: the error becomes a value.\<close>

definition attempt :: "('s, 'e, 'a) io \<Rightarrow> ('s, 'f, ('e, 'a) result) io" where
  "attempt m w =
     (case m w of
        (Ok x, w') \<Rightarrow> (Ok (Ok x), w')
      | (Err e, w') \<Rightarrow> (Ok (Err e), w')
      | (Panic, w') \<Rightarrow> (Panic, w')
      | (Diverge, w') \<Rightarrow> (Diverge, w'))"

definition rule_line :: "rchar \<Rightarrow> string" where
  "rule_line ch = bytes_of (replicate 78 ch)"

text \<open>The loop over the cases, from number \<open>i\<close> on, with the two counters.\<close>

fun run_cases ::
    "('s, 'x) host_scheme \<Rightarrow> nat \<Rightarrow> nat \<Rightarrow> test_case list \<Rightarrow> nat \<Rightarrow> nat \<Rightarrow>
     ('s, box_error, nat \<times> nat) io" where
  "run_cases c n_cases i [] disagreements infra_errors = pure (Ok (disagreements, infra_errors))"
| "run_cases c n_cases i (kase # cases) disagreements infra_errors =
     io_then (println (rule_line 0x2500)) (\<lambda>_.
     io_then (println (''['' @ show_dec (i + 1) @ ''/'' @ show_dec n_cases @ ''] '' @ case_filter kase @
       bytes_of [0x20, 0x2014, 0x20] @ case_label kase)) (\<lambda>_.
     io_then (println (rule_line 0x2500)) (\<lambda>_.
     io_then (attempt (run_case c kase)) (\<lambda>r.
     (case r of
        Ok True \<Rightarrow>
          io_then (println (''  => AGREE: both sockets made the same call'' @ [CHR 0x0A])) (\<lambda>_.
          run_cases c n_cases (i + 1) cases disagreements infra_errors)
      | Ok False \<Rightarrow>
          io_then (println (''  => DISAGREE: cbpf-rs and the kernel-attached libpcap bytecode differ'' @
            [CHR 0x0A])) (\<lambda>_.
          run_cases c n_cases (i + 1) cases (disagreements + 1) infra_errors)
      | Err e \<Rightarrow>
          io_then (println (''  => ERROR: could not run this case: '' @ show_box_error c e @
            [CHR 0x0A])) (\<lambda>_.
          run_cases c n_cases (i + 1) cases disagreements (infra_errors + 1))
      | Panic \<Rightarrow> pure Panic
      | Diverge \<Rightarrow> pure Diverge)))))"

definition diff_main :: "('s, 'x) host_scheme \<Rightarrow> ('s, box_error, exit_code) io" where
  "diff_main c =
     io_then (attempt (operation (run_command c ''tcpdump'' [''--version'']))) (\<lambda>version.
     case version of
       Ok version \<Rightarrow>
         let version_line =
           (case str_lines (from_utf8_lossy (map unat (stderr_bytes version))) of
              [] \<Rightarrow> ascii ''(unknown version)''
            | line # _ \<Rightarrow> line) in
         io_then (println (''using '' @ bytes_of version_line @ [CHR 0x0A])) (\<lambda>_.
         io_then (pure build_cases) (\<lambda>cases.
         let n_cases = length cases in
         io_then (run_cases c n_cases 0 cases 0 0) (\<lambda>(disagreements, infra_errors).
         io_then (println (rule_line 0x2550)) (\<lambda>_.
         io_then (println (show_dec n_cases @ '' case(s), '' @ show_dec disagreements @
           '' disagreement(s), '' @ show_dec infra_errors @ '' infrastructure error(s)'')) (\<lambda>_.
         io_then
           (if 0 < infra_errors then
              eprintln (CHR 0x0A # ''Some cases couldn'' @ CHR 0x27 # ''t run at all - are you root?'' @
                '' AF_PACKET/SOCK_RAW needs CAP_NET_RAW.'')
            else pure (Ok ())) (\<lambda>_.
         if 0 < disagreements \<or> 0 < infra_errors then pure (Ok FAILURE) else pure (Ok SUCCESS)))))))
     | _ \<Rightarrow>
         io_then (eprintln (''tcpdump not found on PATH; this tool needs it for libpcap'' @
           CHR 0x27 # ''s real compiled bytecode.'')) (\<lambda>_. pure (Ok FAILURE)))"

text \<open>The \<open>main\<close> of a build without the feature or for another system.\<close>

definition unsupported_main :: "('s, box_error, exit_code) io" where
  "unsupported_main =
     io_then (eprintln (''kernel_diff needs Linux and `--features attach` '' @
       ''(it talks to a real AF_PACKET socket).'')) (\<lambda>_. pure (Ok FAILURE))"

end
