(* ===== verification/KernelDiffCorrect.thy ===== *)
theory KernelDiffCorrect
  imports KernelDiff Cases Validated
begin

text \<open>
  The test program of \<open>KernelDiff\<close>: reading back the listings of \<open>tcpdump -ddd\<close>; a specification of the
  socket calls on a loopback interface; and what the program does on such a system.
\<close>

section \<open>The output of \<open>tcpdump -ddd\<close>\<close>

text \<open>The text that \<open>tcpdump -ddd\<close> documents: a count, then four decimal numbers per instruction.\<close>

definition ddd_line :: "insn \<Rightarrow> string" where
  "ddd_line i =
     show_dec (unat (i_code i)) @ '' '' @ show_dec (unat (i_jt i)) @ '' '' @ show_dec (unat (i_jf i)) @
     '' '' @ show_dec (unat (i_k i))"

definition show_ddd :: "insn list \<Rightarrow> rstr" where
  "show_ddd insns =
     concat (map (\<lambda>l. ascii l @ [0x0A]) (show_dec (length insns) # map ddd_line insns))"

lemma read_uint_show: "n \<le> limit \<Longrightarrow> read_uint limit (ascii (show_dec n)) = Ok n"
  by (simp add: read_uint_def parse_int_show)

lemma ascii_append: "ascii (s @ t) = ascii s @ ascii t"
  by (simp add: ascii_def)

lemma ascii_cons: "ascii (c # s) = of_char c # ascii s"
  by (simp add: ascii_def)

lemma ddd_words:
  "split_whitespace (ascii (ddd_line i)) =
     map (\<lambda>n. ascii (show_dec n)) [unat (i_code i), unat (i_jt i), unat (i_jf i), unat (i_k i)]"
  by (simp add: ddd_line_def ascii_append ascii_cons words_cons words_last show_dec_word is_whitespace_def)

lemma parse_ddd_line_show: "parse_ddd_line (ascii (ddd_line i)) = Ok i"
  using u16_less [of "i_code i"] u8_less [of "i_jt i"] u8_less [of "i_jf i"] u32_less [of "i_k i"]
  by (cases i) (simp add: parse_ddd_line_def ddd_words read_uint_show)


lemma ascii_show_no_break: "c \<in> set (ascii (show_dec n)) \<Longrightarrow> c \<noteq> 0x0A \<and> c \<noteq> 0x0D"
  using show_dec_codes by fastforce

lemma ddd_line_no_break: "c \<in> set (ascii (ddd_line i)) \<Longrightarrow> c \<noteq> 0x0A \<and> c \<noteq> 0x0D"
  using ascii_show_no_break by (auto simp: ddd_line_def ascii_append) (auto simp: ascii_def)

lemma ddd_lines:
  "str_lines (show_ddd insns) = ascii (show_dec (length insns)) # map (\<lambda>i. ascii (ddd_line i)) insns"
proof -
  have "show_ddd insns = concat (map (\<lambda>l. l @ [0x0A])
      (ascii (show_dec (length insns)) # map (\<lambda>i. ascii (ddd_line i)) insns))"
    by (simp add: show_ddd_def comp_def)
  then show ?thesis
    using ascii_show_no_break ddd_line_no_break by (simp only:, intro lines_unlines) auto
qed

lemma parse_ddd_lines_show: "parse_ddd_lines (map (\<lambda>i. ascii (ddd_line i)) insns) = Ok insns"
  by (induction insns) (simp_all add: parse_ddd_line_show)

lemma parse_ddd_show: "length insns < 2 ^ 60 \<Longrightarrow> parse_ddd (show_ddd insns) = Ok insns"
  by (simp add: parse_ddd_def ddd_lines trim_word show_dec_word read_uint_show usize_limit_def
      parse_ddd_lines_show)

lemma show_ddd_scalars: "c \<in> set (show_ddd insns) \<Longrightarrow> is_scalar c"
proof -
  have "of_char x < (0xD800 :: nat)" for x using nat_of_char_less_256 [of x] by linarith
  moreover assume "c \<in> set (show_ddd insns)"
  then have "c = 0x0A \<or> (\<exists>x. c = of_char x)" by (auto simp: show_ddd_def ascii_def split: if_splits)
  ultimately show "is_scalar c" by (auto simp: is_scalar_def)
qed

lemma tcpdump_compile_show:
  assumes "run_command c ''tcpdump'' [''-ddd'', ''-y'', ''EN10MB'', fltr] (system w) = (Ok out, s')"
    and "status_success out" and "map unat (stdout_bytes out) = utf8 (show_ddd insns)"
    and "length insns < 2 ^ 60"
  shows "tcpdump_compile c fltr w = (Ok (insns, show_ddd insns), w\<lparr>system := s'\<rparr>)"
  using assms
  by (simp add: tcpdump_compile_def io_then_def with_err_def operation_def pure_def
      from_utf8_utf8 show_ddd_scalars parse_ddd_show)


section \<open>A loopback interface\<close>

text \<open>
  What the documentation of packet sockets says of the calls, on an interface that nothing else sends
  on. A view of the system gives for each open descriptor the interface the socket is bound to, its
  filter, whether a receive timeout is set and whether a frame waits. \<open>filt\<close> is the kernel's own
  interpreter of filters and \<open>good\<close> its check of a filter when it is attached.
\<close>

record sock =
  sock_ifindex :: "c_int option"
  sock_filter :: "insn list option"
  sock_timeout :: bool
  sock_waiting :: bool

definition fresh_sock :: sock where
  "fresh_sock =
     \<lparr>sock_ifindex = None, sock_filter = None, sock_timeout = False, sock_waiting = False\<rparr>"

definition passes :: "(insn list \<Rightarrow> packet \<Rightarrow> u32) \<Rightarrow> sock \<Rightarrow> packet \<Rightarrow> bool" where
  "passes filt k frame \<longleftrightarrow>
     (case sock_filter k of None \<Rightarrow> True | Some insns \<Rightarrow> filt insns frame \<noteq> 0)"

definition deliver ::
    "(insn list \<Rightarrow> packet \<Rightarrow> u32) \<Rightarrow> c_int \<Rightarrow> packet \<Rightarrow> sock \<Rightarrow> sock" where
  "deliver filt ifindex frame k =
     (if sock_ifindex k = Some ifindex \<and> passes filt k frame then k\<lparr>sock_waiting := True\<rparr> else k)"

type_synonym sockets = "c_int \<Rightarrow> sock option"

definition names_loopback :: "('s, 'x) host_scheme \<Rightarrow> ('s \<Rightarrow> sockets) \<Rightarrow> u32 \<Rightarrow> bool" where
  "names_loopback c view lo \<longleftrightarrow>
     lo \<noteq> 0 \<and> (\<forall>s. \<exists>e s'. c_if_nametoindex c ''lo'' s = ((lo, e), s') \<and> view s' = view s)"

definition opens_sockets :: "('s, 'x) host_scheme \<Rightarrow> ('s \<Rightarrow> sockets) \<Rightarrow> bool" where
  "opens_sockets c view \<longleftrightarrow>
     (\<forall>s a b proto. dom (view s) \<subseteq> {a, b} \<longrightarrow>
        (\<exists>fd e s'. c_socket c (c_AF_PACKET c) (c_SOCK_RAW c) proto s = ((fd, e), s') \<and>
           0 \<le>s fd \<and> view s fd = None \<and> view s' = (view s)(fd \<mapsto> fresh_sock))) \<and>
     (\<forall>s fd k addr. view s fd = Some k \<longrightarrow>
        (\<exists>e s'. c_bind c fd addr (c_sizeof_sockaddr_ll c) s = ((0, e), s') \<and>
           view s' = (view s)(fd \<mapsto> k\<lparr>sock_ifindex := Some (sll_ifindex addr)\<rparr>))) \<and>
     (\<forall>s fd. \<exists>v s'. c_close c fd s = (v, s') \<and> view s' = (view s)(fd := None))"

definition sets_options :: "('s, 'x) host_scheme \<Rightarrow> ('s \<Rightarrow> sockets) \<Rightarrow> (insn list \<Rightarrow> bool) \<Rightarrow> bool" where
  "sets_options c view good \<longleftrightarrow>
     (\<forall>s fd k fprog. view s fd = Some k \<longrightarrow> good (fprog_insns fprog) \<longrightarrow>
        (\<exists>e s'. c_setsockopt c fd (c_SOL_SOCKET c) (c_SO_ATTACH_FILTER c) fprog (c_sizeof_fprog c) s =
             ((0, e), s') \<and>
           view s' = (view s)(fd \<mapsto> k\<lparr>sock_filter := Some (fprog_insns fprog)\<rparr>))) \<and>
     (\<forall>s fd k tv. view s fd = Some k \<longrightarrow> 0 < unat (tv_sec tv) + unat (tv_usec tv) \<longrightarrow>
        (\<exists>e s'. c_setsockopt_timeval c fd (c_SOL_SOCKET c) (c_SO_RCVTIMEO c) tv (c_sizeof_timeval c) s =
             ((0, e), s') \<and>
           view s' = (view s)(fd \<mapsto> k\<lparr>sock_timeout := True\<rparr>)))"

definition moves_frames ::
    "('s, 'x) host_scheme \<Rightarrow> ('s \<Rightarrow> sockets) \<Rightarrow> (insn list \<Rightarrow> packet \<Rightarrow> u32) \<Rightarrow> bool" where
  "moves_frames c view filt \<longleftrightarrow>
     (\<forall>s fd k frame addr. view s fd = Some k \<longrightarrow>
        (\<exists>n e s'. c_sendto c fd frame (length frame) 0 addr (c_sizeof_sockaddr_ll c) s = ((n, e), s') \<and>
           0 \<le>s n \<and> view s' = (\<lambda>fd. map_option (deliver filt (sll_ifindex addr) frame) (view s fd)))) \<and>
     (\<forall>s fd k size. view s fd = Some k \<longrightarrow> sock_waiting k \<longrightarrow>
        (\<exists>n e s'. c_recv c fd size 0 s = ((n, e), s') \<and> 0 \<le>s n \<and>
           view s' = (view s)(fd \<mapsto> k\<lparr>sock_waiting := False\<rparr>))) \<and>
     (\<forall>s fd k size. view s fd = Some k \<longrightarrow> \<not> sock_waiting k \<longrightarrow> sock_timeout k \<longrightarrow>
        (\<exists>n s'. c_recv c fd size 0 s = ((n, c_EAGAIN c), s') \<and> n <s 0 \<and> view s' = view s))"

section \<open>The socket operations on such an interface\<close>

abbreviation sees :: "('s \<Rightarrow> sockets) \<Rightarrow> sockets \<Rightarrow> 's \<Rightarrow> bool" where
  "sees view V \<equiv> (\<lambda>s. view s = V)"

lemmas io_steps = io_then_def call_def operation_def pure_def

lemma find_loopback:
  fixes view :: "'s \<Rightarrow> sockets"
  assumes "names_loopback c view lo"
  shows "achieves (sees view V) (if_nametoindex c ''lo'') (\<lambda>x s. x = lo \<and> view s = V)"
  unfolding achieves_def
proof (intro allI impI)
  fix w :: "'s world"
  assume "view (system w) = V"
  moreover obtain e s' where "c_if_nametoindex c ''lo'' (system w) = ((lo, e), s')" "view s' = view (system w)"
    using assms unfolding names_loopback_def by blast
  ultimately show "\<exists>x w'. if_nametoindex c ''lo'' w = (Ok x, w') \<and> x = lo \<and> view (system w') = V"
    using assms by (simp add: if_nametoindex_def io_steps names_loopback_def)
qed

lemma open_socket:
  fixes view :: "'s \<Rightarrow> sockets"
  assumes "opens_sockets c view" and "dom V \<subseteq> {a, b}"
  shows "achieves (sees view V) (raw_socket_on c lo)
    (\<lambda>fd s. V fd = None \<and> view s = V(fd \<mapsto> fresh_sock\<lparr>sock_ifindex := Some lo\<rparr>))"
  unfolding achieves_def
proof (intro allI impI)
  fix w :: "'s world"
  assume V: "view (system w) = V"
  let ?k = "fresh_sock\<lparr>sock_ifindex := Some (sll_ifindex (link_addr c lo))\<rparr>"
  from V assms obtain fd e s1 where
    socket: "c_socket c (c_AF_PACKET c) (c_SOCK_RAW c) (htons_c_int c (c_ETH_P_ALL c)) (system w) = ((fd, e), s1)"
    and fd: "0 \<le>s fd" "V fd = None" and s1: "view s1 = V(fd \<mapsto> fresh_sock)"
    unfolding opens_sockets_def by metis
  from s1 have "view s1 fd = Some fresh_sock" by simp
  with assms(1) obtain e' s2 where
    "c_bind c fd (link_addr c lo) (c_sizeof_sockaddr_ll c) s1 = ((0, e'), s2)" "view s2 = (view s1)(fd \<mapsto> ?k)"
    unfolding opens_sockets_def by metis
  with socket fd s1 show "\<exists>fd w'. raw_socket_on c lo w = (Ok fd, w') \<and>
      V fd = None \<and> view (system w') = V(fd \<mapsto> fresh_sock\<lparr>sock_ifindex := Some lo\<rparr>)"
    by (intro exI [of _ fd] exI [of _ "w\<lparr>system := s2\<rparr>"])
       (simp add: raw_socket_on_def io_steps link_addr_def word_sless_alt word_sle_eq)
qed

lemma close_socket:
  assumes "opens_sockets c view"
  shows "achieves (sees view V) (call (c_close c fd)) (\<lambda>_. sees view (V(fd := None)))"
proof (rule achieves_call)
  fix s assume "view s = V"
  moreover obtain v s' where "c_close c fd s = (v, s')" "view s' = (view s)(fd := None)"
    using assms unfolding opens_sockets_def by metis
  ultimately show "\<exists>x s'. c_close c fd s = (x, s') \<and> view s' = V(fd := None)" by auto
qed

lemma attach_socket:
  assumes "sets_options c view good" and "V fd = Some k" and "good (instructions prog)"
    and "length (instructions prog) < 2 ^ 16"
  shows "achieves (sees view V) (operation (attach c fd prog))
    (\<lambda>_. sees view (V(fd \<mapsto> k\<lparr>sock_filter := Some (instructions prog)\<rparr>)))"
proof (rule achieves_operation)
  fix s assume V: "view s = V"
  obtain fprog where fprog: "fprog_insns fprog = instructions prog"
    and attach: "attach c fd prog s =
      (case filter_call c fd fprog s of
         ((rv, errno), s') \<Rightarrow> (if rv = 0 then Ok () else Err (OsError errno), s'))"
    using assms(4) by (rule attach_fits)
  have "view s fd = Some k" "good (fprog_insns fprog)" using V assms fprog by simp_all
  with assms(1) obtain e s' where "filter_call c fd fprog s = ((0, e), s')"
    "view s' = (view s)(fd \<mapsto> k\<lparr>sock_filter := Some (fprog_insns fprog)\<rparr>)"
    unfolding sets_options_def filter_call_def by metis
  with V fprog attach show "\<exists>x s'. attach c fd prog s = (Ok x, s') \<and>
      view s' = V(fd \<mapsto> k\<lparr>sock_filter := Some (instructions prog)\<rparr>)" by simp
qed

text \<open>\<open>attach_raw\<close> is \<open>attach\<close> but for the message of its error.\<close>

lemma instructions_from [simp]: "instructions (from_validated insns) = insns"
  by (simp add: instructions_def from_validated_def)

lemma attach_raw_attach:
  "length insns < 2 ^ 16 \<Longrightarrow> attach_raw c fd insns = attach c fd (from_validated insns)"
  by (rule ext) (simp add: attach_raw_def attach_def u16_try_from_def)

lemma attach_raw_socket:
  assumes "sets_options c view good" and "V fd = Some k" and "good insns" and "length insns < 2 ^ 16"
  shows "achieves (sees view V) (operation (attach_raw c fd insns))
    (\<lambda>_. sees view (V(fd \<mapsto> k\<lparr>sock_filter := Some insns\<rparr>)))"
  using attach_socket [of c view good V fd k "from_validated insns"] assms by (simp add: attach_raw_attach)

lemma timeout_socket:
  fixes view :: "'s \<Rightarrow> sockets"
  assumes "sets_options c view good" and "V fd = Some k"
  shows "achieves (sees view V) (set_recv_timeout c fd RECV_TIMEOUT)
    (\<lambda>_. sees view (V(fd \<mapsto> k\<lparr>sock_timeout := True\<rparr>)))"
  unfolding achieves_def
proof (intro allI impI)
  fix w :: "'s world"
  assume V: "view (system w) = V"
  let ?tv = "\<lparr>tv_sec = 0, tv_usec = 200000\<rparr>"
  have "view (system w) fd = Some k" "0 < unat (tv_sec ?tv) + unat (tv_usec ?tv)" using V assms(2) by simp_all
  with assms(1) obtain e s' where
    "c_setsockopt_timeval c fd (c_SOL_SOCKET c) (c_SO_RCVTIMEO c) ?tv (c_sizeof_timeval c) (system w) = ((0, e), s')"
    "view s' = (view (system w))(fd \<mapsto> k\<lparr>sock_timeout := True\<rparr>)"
    unfolding sets_options_def by metis
  with V show "\<exists>x w'. set_recv_timeout c fd RECV_TIMEOUT w = (Ok x, w') \<and>
      view (system w') = V(fd \<mapsto> k\<lparr>sock_timeout := True\<rparr>)"
    by (simp add: set_recv_timeout_def RECV_TIMEOUT_def io_steps)
qed

lemma send_frame:
  fixes view :: "'s \<Rightarrow> sockets"
  assumes "moves_frames c view filt" and "V fd = Some k"
  shows "achieves (sees view V) (send_on c fd lo frame)
    (\<lambda>_. sees view (\<lambda>fd. map_option (deliver filt lo frame) (V fd)))"
  unfolding achieves_def
proof (intro allI impI)
  fix w :: "'s world"
  assume V: "view (system w) = V"
  have "view (system w) fd = Some k" using V assms(2) by simp
  with assms(1) obtain n e s' where
    "c_sendto c fd frame (length frame) 0 (link_addr c lo) (c_sizeof_sockaddr_ll c) (system w) = ((n, e), s')"
    "0 \<le>s n"
    "view s' = (\<lambda>fd. map_option (deliver filt (sll_ifindex (link_addr c lo)) frame) (view (system w) fd))"
    unfolding moves_frames_def by metis
  with V show "\<exists>x w'. send_on c fd lo frame w = (Ok x, w') \<and>
      view (system w') = (\<lambda>fd. map_option (deliver filt lo frame) (V fd))"
    by (simp add: send_on_def io_steps link_addr_def word_sless_alt word_sle_eq)
qed

lemma receive_frame:
  fixes view :: "'s \<Rightarrow> sockets"
  assumes "moves_frames c view filt" and "V fd = Some k" and "sock_timeout k"
  shows "achieves (sees view V) (recv_one c fd)
    (\<lambda>r s. r = sock_waiting k \<and> view s = V(fd \<mapsto> k\<lparr>sock_waiting := False\<rparr>))"
  unfolding achieves_def
proof (intro allI impI)
  fix w :: "'s world"
  assume V: "view (system w) = V"
  then have fd: "view (system w) fd = Some k" using assms(2) by simp
  show "\<exists>r w'. recv_one c fd w = (Ok r, w') \<and>
      r = sock_waiting k \<and> view (system w') = V(fd \<mapsto> k\<lparr>sock_waiting := False\<rparr>)"
  proof (cases "sock_waiting k")
    case True
    with fd assms(1) obtain n e s' where "c_recv c fd 256 0 (system w) = ((n, e), s')" "0 \<le>s n"
      "view s' = (view (system w))(fd \<mapsto> k\<lparr>sock_waiting := False\<rparr>)"
      unfolding moves_frames_def by metis
    with V True show ?thesis by (intro exI [of _ True]) (simp add: recv_one_def io_steps)
  next
    case False
    with fd assms(1,3) obtain n s' where "c_recv c fd 256 0 (system w) = ((n, c_EAGAIN c), s')" "n <s 0"
      "view s' = view (system w)"
      unfolding moves_frames_def by metis
    moreover have "k\<lparr>sock_waiting := False\<rparr> = k" using False by simp
    then have "V(fd \<mapsto> k\<lparr>sock_waiting := False\<rparr>) = V" using assms(2) by auto
    ultimately show ?thesis
      using V False by (intro exI [of _ False]) (simp add: recv_one_def io_steps error_kind_of_def word_sless_alt word_sle_eq)
  qed
qed

section \<open>One case\<close>

definition runs_tcpdump ::
    "('s, 'x) host_scheme \<Rightarrow> ('s \<Rightarrow> sockets) \<Rightarrow> (string \<Rightarrow> insn list) \<Rightarrow> string \<Rightarrow> bool" where
  "runs_tcpdump c view theirs fltr \<longleftrightarrow>
     length (theirs fltr) < 2 ^ 16 \<and>
     (\<forall>s. \<exists>out s'. run_command c ''tcpdump'' [''-ddd'', ''-y'', ''EN10MB'', fltr] s = (Ok out, s') \<and>
        status_success out \<and> map unat (stdout_bytes out) = utf8 (show_ddd (theirs fltr)) \<and>
        view s' = view s)"

lemma run_tcpdump:
  fixes view :: "'s \<Rightarrow> sockets"
  assumes "runs_tcpdump c view theirs fltr"
  shows "achieves (sees view V) (tcpdump_compile c fltr)
    (\<lambda>r s. r = (theirs fltr, show_ddd (theirs fltr)) \<and> view s = V)"
  unfolding achieves_def
proof (intro allI impI)
  fix w :: "'s world"
  assume "view (system w) = V"
  moreover obtain out s' where
    "run_command c ''tcpdump'' [''-ddd'', ''-y'', ''EN10MB'', fltr] (system w) = (Ok out, s')"
    "status_success out" "map unat (stdout_bytes out) = utf8 (show_ddd (theirs fltr))"
    "view s' = view (system w)"
    using assms unfolding runs_tcpdump_def by blast
  moreover from assms have "length (theirs fltr) < 2 ^ 60" by (simp add: runs_tcpdump_def)
  ultimately show "\<exists>r w'. tcpdump_compile c fltr w = (Ok r, w') \<and>
      r = (theirs fltr, show_ddd (theirs fltr)) \<and> view (system w') = V"
    by (auto simp: tcpdump_compile_show)
qed

text \<open>The sockets when a case has sent its frame.\<close>

lemma then_print:
  "achieves P (f ()) Q \<Longrightarrow> achieves P (io_then (print t) f) Q"
  "achieves P (f ()) Q \<Longrightarrow> achieves P (io_then (println t) f) Q"
  "achieves P (f ()) Q \<Longrightarrow> achieves P (io_then (for_each ls (\<lambda>l. println (g l))) f) Q"
  by (rule achieves_then, rule achieves_print, simp)
     (rule achieves_then, rule achieves_println, simp,
      rule achieves_then, rule achieves_for_each, rule achieves_println, simp)

lemma then_open:
  assumes "opens_sockets c view" and "dom V \<subseteq> {a, b}"
    and "\<And>fd. V fd = None \<Longrightarrow>
      achieves (sees view (V(fd \<mapsto> fresh_sock\<lparr>sock_ifindex := Some lo\<rparr>))) (f fd) Q"
  shows "achieves (sees view V) (io_then (with_err g (raw_socket_on c lo)) f) Q"
  by (rule achieves_then [OF achieves_with_err [OF open_socket [OF assms(1,2)]]])
     (rule achieves_given, rule assms(3))

lemma then_unit:
  assumes "achieves P m (\<lambda>_. R)" and "achieves R (f ()) Q"
  shows "achieves P (io_then (with_err g m) f) Q"
  by (rule achieves_then [OF achieves_with_err [OF assms(1)]]) (simp add: assms(2))

lemma then_receive:
  assumes "moves_frames c view filt" and "V fd = Some k" and "sock_timeout k"
    and "achieves (sees view (V(fd \<mapsto> k\<lparr>sock_waiting := False\<rparr>))) (f (sock_waiting k)) Q"
  shows "achieves (sees view V) (io_then (with_err g (recv_one c fd)) f) Q"
  by (rule achieves_then_eq [where x = "sock_waiting k"], rule achieves_with_err,
      rule receive_frame [where k = k], (rule assms)+)

lemma close_all:
  assumes "opens_sockets c view"
  shows "achieves (sees view V) (for_each fds (\<lambda>fd. io_then (call (c_close c fd)) (\<lambda>_. pure (Ok ()))))
    (\<lambda>_. sees view (\<lambda>fd. if fd \<in> set fds then None else V fd))"
proof (induction fds arbitrary: V)
  case Nil
  show ?case by (simp add: achieves_def pure_def)
next
  case (Cons fd fds)
  have first: "achieves (sees view V) (io_then (call (c_close c fd)) (\<lambda>_. pure (Ok ())))
      (\<lambda>_. sees view (V(fd := None)))"
    by (rule achieves_then [OF close_socket [OF assms]]) (simp add: achieves_def pure_def)
  have "(\<lambda>x. if x \<in> set fds then None else (V(fd := None)) x) =
      (\<lambda>x. if x \<in> set (fd # fds) then None else V x)" by auto
  with Cons.IH [of "V(fd := None)"] show ?case
    unfolding for_each.simps by (intro achieves_then [OF first]) (simp only:)
qed

lemma exchange_agrees:
  fixes view :: "'s \<Rightarrow> sockets"
  assumes host: "names_loopback c view lo" "opens_sockets c view" "sets_options c view good"
      "moves_frames c view filt"
    and theirs: "good theirs" "length theirs < 2 ^ 16"
    and ours: "good (instructions ours)" "length (instructions ours) < 2 ^ 16"
  shows "achieves (sees view Map.empty) (exchange c ours theirs frame)
    (\<lambda>r s. r = ((filt (instructions ours) frame \<noteq> 0) \<longleftrightarrow> (filt theirs frame \<noteq> 0)) \<and> view s = Map.empty)"
proof -
  let ?k = "fresh_sock\<lparr>sock_ifindex := Some lo\<rparr>"
  let ?ours = "filt (instructions ours) frame \<noteq> 0"
  let ?theirs = "filt theirs frame \<noteq> 0"
  let ?a = "?k\<lparr>sock_filter := Some (instructions ours)\<rparr>"
  let ?b = "?k\<lparr>sock_filter := Some theirs\<rparr>"
  show ?thesis
    unfolding exchange_def
    apply (rule achieves_then_eq, rule achieves_with_err, rule find_loopback [OF host(1)])
    apply (rule then_open [OF host(2), of Map.empty 0 0], simp)
    subgoal for a
      apply (rule then_open [OF host(2), of "[a \<mapsto> ?k]" a a], simp)
      subgoal for b
        apply (rule then_open [OF host(2), of "[a \<mapsto> ?k, b \<mapsto> ?k]" a b], simp)
        subgoal for t
          apply (rule then_unit, rule attach_socket [OF host(3) _ ours, where k = ?k], simp split: if_splits)
          apply (rule then_unit, rule attach_raw_socket [OF host(3) _ theirs, where k = ?k], simp split: if_splits)
          apply (rule then_unit, rule timeout_socket [OF host(3), where k = ?a], simp split: if_splits)
          apply (rule then_unit, rule timeout_socket [OF host(3), where k = ?b], simp split: if_splits)
          apply (intro then_print)
          apply (rule then_unit, rule send_frame [OF host(4), where k = ?k], simp split: if_splits)
          apply (intro then_print)
          apply (rule then_receive [OF host(4), where k = "?a\<lparr>sock_timeout := True, sock_waiting := ?ours\<rparr>"])
            apply (simp add: deliver_def passes_def fresh_sock_def split: if_splits)
           apply simp
          apply (rule then_print)
          apply (rule then_receive [OF host(4), where k = "?b\<lparr>sock_timeout := True, sock_waiting := ?theirs\<rparr>"])
            apply (simp add: deliver_def passes_def fresh_sock_def split: if_splits)
           apply simp
          apply (rule then_print)
          apply (rule achieves_then, rule close_all [OF host(2)])
          apply (auto simp: achieves_def pure_def)
          done
        done
      done
    done
qed

lemma run_case_agrees:
  fixes view :: "'s \<Rightarrow> sockets"
  assumes host: "names_loopback c view lo" "opens_sockets c view" "sets_options c view good"
      "moves_frames c view filt"
    and theirs: "runs_tcpdump c view theirs (case_filter kase)" "good (theirs (case_filter kase))"
    and ours: "compile (ascii (case_filter kase)) Ethernet KEEP_WHOLE_PACKET = Ok ours"
      "good (instructions ours)" "length (instructions ours) < 2 ^ 16"
  shows "achieves (sees view Map.empty) (run_case c kase)
    (\<lambda>r s. r = ((filt (instructions ours) (case_frame kase) \<noteq> 0) \<longleftrightarrow>
        (filt (theirs (case_filter kase)) (case_frame kase) \<noteq> 0)) \<and>
      view s = Map.empty)"
proof -
  have "length (theirs (case_filter kase)) < 2 ^ 16" using theirs(1) by (simp add: runs_tcpdump_def)
  note exchange = exchange_agrees [OF host theirs(2) this ours(2,3)]
  show ?thesis
    unfolding run_case_def ours(1) map_err.simps
    apply (intro then_print)
    apply (rule achieves_then_eq, rule achieves_pure)
    apply (intro then_print)
    apply (rule achieves_then_eq, rule run_tcpdump [OF theirs(1)])
    unfolding prod.case
    apply (intro then_print)
    apply (rule exchange)
    done
qed

section \<open>A case that fails\<close>

text \<open>
  When a call after the first socket fails, here \<open>setsockopt\<close> for the filter, the error is returned and the
  sockets stay open.
\<close>

lemma fails_open:
  assumes "opens_sockets c view" and "dom V \<subseteq> {a, b}"
    and "\<And>fd. V fd = None \<Longrightarrow>
      fails (sees view (V(fd \<mapsto> fresh_sock\<lparr>sock_ifindex := Some lo\<rparr>))) (f fd) Q"
  shows "fails (sees view V) (io_then (with_err g (raw_socket_on c lo)) f) Q"
  by (rule fails_later [OF achieves_with_err [OF open_socket [OF assms(1,2)]]])
     (rule fails_given, rule assms(3))

definition refuses_filters :: "('s, 'x) host_scheme \<Rightarrow> ('s \<Rightarrow> sockets) \<Rightarrow> bool" where
  "refuses_filters c view \<longleftrightarrow>
     (\<forall>s fd fprog. \<exists>e s'. c_setsockopt c fd (c_SOL_SOCKET c) (c_SO_ATTACH_FILTER c) fprog (c_sizeof_fprog c) s =
        ((-1, e), s') \<and> view s' = view s)"

lemma attach_refused:
  assumes "refuses_filters c view"
  shows "fails (sees view V) (operation (attach c fd prog)) (sees view V)"
proof (rule fails_operation)
  fix s assume V: "view s = V"
  show "\<exists>e s'. attach c fd prog s = (Err e, s') \<and> view s' = V"
  proof (cases "length (instructions prog) < 2 ^ 16")
    case True
    then obtain fprog where attach: "attach c fd prog s = (case filter_call c fd fprog s of
         ((rv, errno), s') \<Rightarrow> (if rv = 0 then Ok () else Err (OsError errno), s'))"
      by (rule attach_fits)
    obtain n s' where "filter_call c fd fprog s = ((-1, n), s')" "view s' = view s"
      using assms unfolding refuses_filters_def filter_call_def by blast
    with attach V show ?thesis by simp
  next
    case False
    with V show ?thesis using attach_too_long [of prog c fd s] by simp
  qed
qed

lemma exchange_leaks:
  assumes host: "names_loopback c view lo" "opens_sockets c view" "refuses_filters c view"
  shows "fails (sees view Map.empty) (exchange c ours theirs frame) (\<lambda>s. card (dom (view s)) = 3)"
  unfolding exchange_def
  apply (rule fails_later_eq, rule achieves_with_err, rule find_loopback [OF host(1)])
  apply (rule fails_open [OF host(2), of Map.empty 0 0], simp)
  subgoal for a
    apply (rule fails_open [OF host(2), of _ a a], simp)
    subgoal for b
      apply (rule fails_open [OF host(2), of _ a b], simp)
      subgoal for t
        apply (rule fails_now, rule fails_with_err)
        using attach_refused [OF host(3)] unfolding fails_def
        by (fastforce split: if_splits)
      done
    done
  done

lemma run_case_leaks:
  assumes host: "names_loopback c view lo" "opens_sockets c view" "refuses_filters c view"
    and "runs_tcpdump c view theirs (case_filter kase)"
    and "compile (ascii (case_filter kase)) Ethernet KEEP_WHOLE_PACKET = Ok ours"
  shows "fails (sees view Map.empty) (run_case c kase) (\<lambda>s. card (dom (view s)) = 3)"
  unfolding run_case_def assms(5) map_err.simps
  apply (intro fails_print)
  apply (rule fails_later_eq, rule achieves_pure)
  apply (intro fails_print)
  apply (rule fails_later_eq, rule run_tcpdump [OF assms(4)])
  unfolding prod.case
  apply (intro fails_print)
  apply (rule exchange_leaks [OF host])
  done

section \<open>Compiled programs\<close>

lemma compile_length:
  assumes "length src < max_source" and "lex src = Ok toks" and "parse toks = Ok e"
    and "compile src lt snaplen = Ok prog"
  shows "length (instructions prog) \<le> 246 * expr_leaves e + 3"
proof -
  obtain x ir insns where x: "expand e = Ok x" and ir: "generate x lt snaplen = Ok ir"
    and insns: "assemble ir = Ok insns" and prog: "prog = from_validated insns"
    using assms(2-4) by (auto simp: compile_def)
  have small: "small_program ir"
    by (rule backend.small(1) [OF ir front_leaves(3) [OF assms(1) front_eq [OF assms(2,3)] x]])
  obtain offsets where "assembled (prog_stream ir) offsets insns"
    using assemble_assembled [OF generate_wf_program [OF ir] small insns] by blast
  then have "length insns = length (reals (prog_stream ir))" by (simp add: assembled_def)
  then show ?thesis
    using generate_size [OF ir] expand_leaves [OF x] by (simp add: prog)
qed

text \<open>
  A kernel with \<open>BPF_MAXINSNS\<close> 4096 that accepts every valid program of that size, and runs it as the
  interpreter does.
\<close>

definition runs_valid :: "(insn list \<Rightarrow> bool) \<Rightarrow> (insn list \<Rightarrow> packet \<Rightarrow> u32) \<Rightarrow> bool" where
  "runs_valid good filt \<longleftrightarrow>
     (\<forall>insns. valid_program insns \<longrightarrow> length insns \<le> 4096 \<longrightarrow> good insns \<and> filt insns = run insns)"

lemma case_compiles:
  assumes "parses_to f pr" and "runs_valid good filt"
  obtains ours where "compile (ascii f) Ethernet KEEP_WHOLE_PACKET = Ok ours"
    and "good (instructions ours)" and "length (instructions ours) < 2 ^ 16"
    and "\<And>l frame. our_verdict \<lparr>case_filter = f, case_label = l, case_frame = frame\<rparr> =
      Ok (filt (instructions ours) frame \<noteq> 0)"
proof -
  obtain toks where f: "length (ascii f) < max_source" "lex (ascii f) = Ok toks"
    "parse toks = Ok (EPrimitive pr)" "source_refusal Ethernet (EPrimitive pr) = None"
    using assms(1) by (auto simp: parses_to_def)
  obtain ours where ours: "compile (ascii f) Ethernet KEEP_WHOLE_PACKET = Ok ours"
    using primitive_compiles [OF f kept] by blast
  have valid: "valid_program (instructions ours)"
    using compile_valid [OF f(1) ours] by (simp add: instructions_def)
  have len: "length (instructions ours) \<le> 249"
    using compile_length [OF f(1-3) ours] by simp
  show thesis
  proof (rule that [OF ours])
    show "good (instructions ours)" "length (instructions ours) < 2 ^ 16"
      using assms(2) valid len by (simp_all add: runs_valid_def)
    have "filt (instructions ours) = run (instructions ours)"
      using assms(2) valid len by (simp add: runs_valid_def)
    then show "our_verdict \<lparr>case_filter = f, case_label = l, case_frame = frame\<rparr> =
        Ok (filt (instructions ours) frame \<noteq> 0)" for l frame
      using ours by (simp add: our_verdict_def program_matches_def program_run_def instructions_def)
  qed
qed

section \<open>The whole run\<close>

lemma achieves_attempt:
  "achieves P m Q \<Longrightarrow> (\<And>x s. Q x s \<Longrightarrow> R (Ok x) s) \<Longrightarrow> achieves P (attempt m) R"
  unfolding achieves_def attempt_def by fastforce

lemma run_cases_counts:
  assumes "\<And>k. k \<in> set cases \<Longrightarrow> achieves P (run_case c k) (\<lambda>r s. r = agree k \<and> P s)"
  shows "achieves P (run_cases c n i cases ds es)
    (\<lambda>x s. x = (ds + length (filter (\<lambda>k. \<not> agree k) cases), es) \<and> P s)"
  using assms
proof (induction cases arbitrary: i ds)
  case Nil
  show ?case using achieves_pure by simp
next
  case (Cons k cases)
  have run: "achieves P (attempt (run_case c k)) (\<lambda>r s. r = Ok (agree k) \<and> P s)"
    by (rule achieves_attempt [OF Cons.prems]) simp_all
  have IH: "achieves P (run_cases c n (i + 1) cases ds' es)
      (\<lambda>x s. x = (ds' + length (filter (\<lambda>k. \<not> agree k) cases), es) \<and> P s)" for ds'
    using Cons by simp
  show ?case
    unfolding run_cases.simps
    by (intro then_print, rule achieves_then_eq [OF run])
       (use IH [of ds] IH [of "ds + 1"] in \<open>cases "agree k"; simp; intro then_print; simp\<close>)
qed

definition runs_version :: "('s, 'x) host_scheme \<Rightarrow> ('s \<Rightarrow> sockets) \<Rightarrow> bool" where
  "runs_version c view \<longleftrightarrow>
     (\<forall>s. \<exists>out s'. run_command c ''tcpdump'' [''--version''] s = (Ok out, s') \<and> view s' = view s)"


lemma table_filter: "(f, l, r) \<in> set case_table \<Longrightarrow> \<exists>pr. parses_to f pr"
  using filters by (auto simp: case_table_def)

lemma summary:
  "achieves P
     (io_then (if 0 < (0 :: nat) then eprintln t else pure (Ok ())) (\<lambda>_.
        if 0 < (ds :: nat) \<or> 0 < (0 :: nat) then pure (Ok FAILURE) else pure (Ok SUCCESS)))
     (\<lambda>x s. x = (if ds = 0 then SUCCESS else FAILURE) \<and> P s)"
  by (simp add: achieves_def io_then_def pure_def)

lemma diff_main_exit:
  fixes view :: "'s \<Rightarrow> sockets"
  assumes host: "names_loopback c view lo" "opens_sockets c view" "sets_options c view good"
      "moves_frames c view filt"
    and kernel: "runs_valid good filt"
    and version: "runs_version c view"
    and tcpdump: "\<And>f. f \<in> fst ` set (case_table :: (string \<times> string \<times> (box_error, packet) result) list) \<Longrightarrow>
      runs_tcpdump c view theirs f \<and> good (theirs f)"
  shows "achieves (sees view Map.empty) (diff_main c)
    (\<lambda>x s. x = (if map (\<lambda>(f, l, r). filt (theirs f) (ok_value r) \<noteq> 0)
            (case_table :: (string \<times> string \<times> (box_error, packet) result) list) = labelled
          then SUCCESS else FAILURE) \<and> view s = Map.empty)"
proof -
  let ?t = "case_table :: (string \<times> string \<times> (box_error, packet) result) list"
  let ?cases = "map (\<lambda>(f, l, r). case_with f l r) ?t"
  let ?agree = "\<lambda>k. our_verdict k = Ok (filt (theirs (case_filter k)) (case_frame k) \<noteq> 0)"
  let ?theirs = "map (\<lambda>(f, l, r). filt (theirs f) (ok_value r) \<noteq> 0) ?t"
  have runs: "achieves (sees view Map.empty) (run_case c k) (\<lambda>r s. r = ?agree k \<and> view s = Map.empty)"
    if k_in: "k \<in> set ?cases" for k
  proof -
    obtain f l r where k: "k = case_with f l r" and t: "(f, l, r) \<in> set ?t" using k_in by auto
    obtain pr where "parses_to f pr" using table_filter [OF t] by blast
    then obtain ours where ours: "compile (ascii f) Ethernet KEEP_WHOLE_PACKET = Ok ours"
      "good (instructions ours)" "length (instructions ours) < 2 ^ 16"
      and verdict: "our_verdict k = Ok (filt (instructions ours) (case_frame k) \<noteq> 0)"
      unfolding k by (rule case_compiles [OF _ kernel]) simp
    have "f \<in> fst ` set ?t" using t by force
    from tcpdump [OF this] have theirs: "runs_tcpdump c view theirs f" "good (theirs f)" by simp_all
    have "achieves (sees view Map.empty) (run_case c k)
        (\<lambda>r s. r = ((filt (instructions ours) (case_frame k) \<noteq> 0) \<longleftrightarrow>
          (filt (theirs (case_filter k)) (case_frame k) \<noteq> 0)) \<and> view s = Map.empty)"
      using run_case_agrees [OF host, of theirs k ours] theirs ours by (simp add: k)
    then show ?thesis by (simp add: verdict)
  qed
  have a: "map our_verdict ?cases = map Ok labelled"
    using table_verdicts [where 'e = box_error] by (simp add: comp_def case_prod_unfold)
  have b: "(\<forall>k \<in> set ?cases. ?agree k) \<longleftrightarrow> map our_verdict ?cases = map Ok ?theirs"
    by (auto simp: case_prod_unfold)
  have all: "(\<forall>k \<in> set ?cases. ?agree k) \<longleftrightarrow> ?theirs = labelled"
    unfolding b a by (subst inj_map_eq_map) (auto simp: inj_def)
  let ?ds = "length (filter (\<lambda>k. \<not> ?agree k) ?cases)"
  have count: "?ds = 0 \<longleftrightarrow> ?theirs = labelled"
    using all by (simp only: length_0_conv filter_empty_conv not_not)
  have loop: "achieves (sees view Map.empty) (run_cases c n 0 ?cases 0 0)
      (\<lambda>x s. x = (?ds, 0) \<and> view s = Map.empty)" for n
    using run_cases_counts [where cases = ?cases and agree = ?agree and i = 0 and ds = 0 and es = 0,
        OF runs] by simp
  have first: "achieves (sees view Map.empty) (attempt (operation (run_command c ''tcpdump'' [''--version''])))
      (\<lambda>r s. is_ok r \<and> view s = Map.empty)"
    using version unfolding runs_version_def
    by (intro achieves_attempt [OF achieves_operation, where Q = "\<lambda>_. sees view Map.empty"]) (metis, simp)
  show ?thesis
    unfolding diff_main_def
    apply (rule achieves_then [OF first], rule achieves_given)
    subgoal premises ok for r
    proof -
      obtain v where r: "r = Ok v" using ok by (cases r) simp_all
      show ?thesis
        unfolding r result.case build_cases_Ok Let_def
        apply (intro then_print)
        apply (rule achieves_then_eq, rule achieves_pure)
        apply (rule achieves_then_eq, rule loop)
        unfolding prod.case
        apply (intro then_print)
        apply (rule summary [where ds = ?ds, unfolded count])
        done
    qed
    done
qed

end
