(* ===== verification/DiffExample.thy ===== *)
theory DiffExample
  imports KernelDiffCorrect
begin

text \<open>A concrete system that satisfies the specification of the socket calls, for the root theory.\<close>

section \<open>An example of such a host\<close>

text \<open>
  A system whose state is the view itself, with room for three sockets, and whose \<open>tcpdump\<close> prints
  what a function \<open>theirs\<close> says.
\<close>

definition on_sock :: "sockets \<Rightarrow> c_int \<Rightarrow> (sock \<Rightarrow> sock) \<Rightarrow> (c_int \<times> c_int) \<times> sockets" where
  "on_sock V fd f = (case V fd of None \<Rightarrow> ((-1, 9), V) | Some k \<Rightarrow> ((0, 0), V(fd \<mapsto> f k)))"

definition example_host :: "(string \<Rightarrow> insn list) \<Rightarrow> sockets host" where
  "example_host theirs =
     \<lparr>c_SOL_SOCKET = 1, c_SO_ATTACH_FILTER = 26, c_sizeof_fprog = 16,
      c_setsockopt = (\<lambda>fd level name fprog size V.
        on_sock V fd (\<lambda>k. k\<lparr>sock_filter := Some (fprog_insns fprog)\<rparr>)),
      c_AF_PACKET = 17, c_SOCK_RAW = 3, c_ETH_P_ALL = 3, c_SO_RCVTIMEO = 20, c_EAGAIN = 11,
      c_ETIMEDOUT = 110, c_sizeof_timeval = 16, c_sizeof_sockaddr_ll = 20,
      c_htons = (\<lambda>v. push_bit 8 v OR drop_bit 8 v),
      c_strerror = (\<lambda>e. ''error''),
      c_if_nametoindex = (\<lambda>name V. ((1, 0), V)),
      c_socket = (\<lambda>domain ty proto V.
        let fd = (if V 3 = None then 3 else if V 4 = None then 4 else 5)
        in ((fd, 0), V(fd \<mapsto> fresh_sock))),
      c_bind = (\<lambda>fd addr size V. on_sock V fd (\<lambda>k. k\<lparr>sock_ifindex := Some (sll_ifindex addr)\<rparr>)),
      c_setsockopt_timeval = (\<lambda>fd level name tv size V.
        on_sock V fd (\<lambda>k. k\<lparr>sock_timeout := True\<rparr>)),
      c_sendto = (\<lambda>fd frame len flags addr size V.
        ((1, 0), \<lambda>fd. map_option (deliver run (sll_ifindex addr) frame) (V fd))),
      c_recv = (\<lambda>fd size flags V.
        case V fd of
          None \<Rightarrow> ((-1, 9), V)
        | Some k \<Rightarrow>
            if sock_waiting k then ((0, 0), V(fd \<mapsto> k\<lparr>sock_waiting := False\<rparr>)) else ((-1, 11), V)),
      c_close = (\<lambda>fd V. (0, V(fd := None))),
      run_command = (\<lambda>prog args V.
        (Ok \<lparr>status_success = True, stdout_bytes = map of_nat (show_ddd (theirs (last args))),
             stderr_bytes = []\<rparr>, V))\<rparr>"

lemma utf8_ascii: "(\<And>c. c \<in> set s \<Longrightarrow> c < 128) \<Longrightarrow> utf8 s = s"
  by (induction s) (simp_all add: utf8_def encode_utf8_def)

lemma show_ddd_ascii: "c \<in> set (show_ddd insns) \<Longrightarrow> c < 128"
  using show_dec_codes
  by (fastforce simp: show_ddd_def ddd_line_def ascii_append ascii_cons split: if_splits)

lemma ddd_bytes: "map unat (map of_nat (show_ddd insns) :: u8 list) = utf8 (show_ddd insns)"
proof -
  have "c \<in> set (show_ddd insns) \<Longrightarrow> unat (of_nat c :: u8) = c" for c
    using show_ddd_ascii [of c insns] by (simp add: unat_of_nat_u8)
  then show ?thesis by (simp add: utf8_ascii [OF show_ddd_ascii] map_idI)
qed

lemma example_names: "names_loopback (example_host theirs) id 1"
  by (simp add: names_loopback_def example_host_def)

lemma example_opens: "opens_sockets (example_host theirs) id"
  unfolding opens_sockets_def
proof (intro conjI allI impI)
  fix V :: sockets and a b proto
  assume V: "dom (id V) \<subseteq> {a, b}"
  let ?fd = "if V 3 = None then 3 else if V 4 = None then 4 else 5 :: c_int"
  have "V ?fd = None"
  proof (rule ccontr)
    assume "V ?fd \<noteq> None"
    then have "3 \<in> dom V" "4 \<in> dom V" "5 \<in> dom V" by (auto split: if_splits)
    then have "3 \<in> {a, b}" "4 \<in> {a, b}" "5 \<in> {a, b}" using V by auto
    then show False by auto
  qed
  then show "\<exists>fd e s'. c_socket (example_host theirs) (c_AF_PACKET (example_host theirs))
        (c_SOCK_RAW (example_host theirs)) proto V = ((fd, e), s') \<and>
      0 \<le>s fd \<and> id V fd = None \<and> id s' = (id V)(fd \<mapsto> fresh_sock)"
    by (simp add: example_host_def Let_def word_sle_eq)
qed (simp_all add: example_host_def on_sock_def)

lemma example_sets: "sets_options (example_host theirs) id (\<lambda>insns. True)"
  by (simp add: sets_options_def example_host_def on_sock_def)

lemma example_moves: "moves_frames (example_host theirs) id run"
  by (simp add: moves_frames_def example_host_def word_sle_eq word_sless_alt)

text \<open>The compiler in the place of \<open>tcpdump\<close>.\<close>

definition compiled :: "string \<Rightarrow> insn list" where
  "compiled f =
     (case compile (ascii f) Ethernet KEEP_WHOLE_PACKET of Ok prog \<Rightarrow> instructions prog | _ \<Rightarrow> [])"

lemma runs_valid_run: "runs_valid (\<lambda>insns. True) run"
  by (simp add: runs_valid_def)

lemma compiled_case:
  assumes "(f, l, r) \<in> set case_table"
  shows "length (compiled f) < 2 ^ 16"
    and "our_verdict \<lparr>case_filter = f, case_label = l', case_frame = frame\<rparr> =
      Ok (run (compiled f) frame \<noteq> 0)"
proof -
  obtain pr where pr: "parses_to f pr" using table_filter [OF assms] by blast
  show "length (compiled f) < 2 ^ 16"
    by (rule case_compiles [OF pr runs_valid_run]) (simp add: compiled_def)
  show "our_verdict \<lparr>case_filter = f, case_label = l', case_frame = frame\<rparr> =
      Ok (run (compiled f) frame \<noteq> 0)"
    by (rule case_compiles [OF pr runs_valid_run]) (simp add: compiled_def)
qed

lemma example_runs:
  "(f, l, r) \<in> set case_table \<Longrightarrow> runs_tcpdump (example_host compiled) id compiled f"
  using compiled_case(1) [of f l r]
  by (simp add: runs_tcpdump_def example_host_def ddd_bytes del: map_map)

lemma compiled_verdicts:
  "map (\<lambda>(f, l, r). run (compiled f) (ok_value r) \<noteq> 0)
     (case_table :: (string \<times> string \<times> ('e, packet) result) list) = labelled"
proof -
  let ?t = "case_table :: (string \<times> string \<times> ('e, packet) result) list"
  have "our_verdict (case_with f l r) = Ok (run (compiled f) (ok_value r) \<noteq> 0)"
    if "(f, l, r) \<in> set ?t" for f l r
    using compiled_case(2) that by blast
  then have "map (\<lambda>(f, l, r). our_verdict (case_with f l r)) ?t =
      map (\<lambda>(f, l, r). Ok (run (compiled f) (ok_value r) \<noteq> 0)) ?t"
    by (intro map_cong) auto
  also have "\<dots> = map Ok (map (\<lambda>(f, l, r). run (compiled f) (ok_value r) \<noteq> 0) ?t)"
    by (simp add: case_prod_unfold)
  finally show ?thesis
    unfolding table_verdicts by (subst (asm) inj_map_eq_map) (auto simp: inj_def)
qed

lemma example_version: "runs_version (example_host theirs) id"
  by (simp add: runs_version_def example_host_def)

text \<open>A system that refuses every filter (\<open>EPERM\<close>).\<close>

definition refusing_host :: "sockets host" where
  "refusing_host = (example_host compiled)\<lparr>c_setsockopt := (\<lambda>fd level name fprog size V. ((-1, 1), V))\<rparr>"

lemma refusing_names: "names_loopback refusing_host id 1"
  using example_names [of compiled] by (simp add: names_loopback_def refusing_host_def)

lemma refusing_opens: "opens_sockets refusing_host id"
  using example_opens [of compiled] by (simp add: opens_sockets_def refusing_host_def)

lemma refusing_refuses: "refuses_filters refusing_host id"
  by (simp add: refuses_filters_def refusing_host_def)

lemma refusing_runs: "(f, l, r) \<in> set case_table \<Longrightarrow> runs_tcpdump refusing_host id compiled f"
  using example_runs [of f l r] by (simp add: runs_tcpdump_def refusing_host_def)

lemma tcp_in_table:
  "(''tcp port 80'', ''IPv4 dst port 80'', eth_ipv4 TCP (10, 0, 0, 1) (10, 0, 0, 2) 4000 80) \<in> set case_table"
  by (simp add: case_table_def)

end
