(* ===== verification/PortChain.thy ===== *)
theory PortChain
  imports Overflow Printing RustText
begin

text \<open>
  Sources that are a chain of \<open>port\<close> primitives joined by \<open>or\<close>: how they are read, and that four are
  already too many.
\<close>

section \<open>The text of a chain\<close>

definition bare_port :: "u16 \<Rightarrow> primitive" where
  "bare_port n = \<lparr>prim_proto = None, prim_dir = None, prim_ty = Port n, prim_offset = Range 0 0\<rparr>"

definition port_text :: "u16 \<Rightarrow> string" where
  "port_text n = ''port '' @ show_dec (unat n)"

definition port_chain :: "u16 list \<Rightarrow> string" where
  "port_chain ns = join_with '' or '' (map port_text ns)"

text \<open>Its tags: a primitive, and a connective with a primitive for every further one.\<close>

definition or_tail :: "u16 list \<Rightarrow> token_tag list" where
  "or_tail ns = concat (map (\<lambda>n. Word ''or'' # primitive_tags (bare_port n)) ns)"

lemma port_tags: "primitive_tags (bare_port n) = [Word ''port'', Word (show_dec (unat n))]"
  by (simp add: primitive_tags_def bare_port_def)

lemma or_tail_simps [simp]:
  "or_tail [] = []"
  "or_tail (n # ns) = Word ''or'' # primitive_tags (bare_port n) @ or_tail ns"
  "or_tail (ns @ ms) = or_tail ns @ or_tail ms"
  by (simp_all add: or_tail_def)

lemma length_or_tail: "length (or_tail ns) = 3 * length ns"
  by (induction ns) (simp_all add: port_tags)

lemma chain_text: "CHR '' '' # port_chain (n # ns) = tags_text (primitive_tags (bare_port n) @ or_tail ns)"
proof (induction ns arbitrary: n)
  case Nil
  then show ?case by (simp add: port_chain_def port_text_def port_tags tags_text_def)
next
  case (Cons m ns)
  then show ?case by (simp add: port_chain_def port_text_def port_tags tags_text_def)
qed

section \<open>Reading a chain\<close>

lemma printable_chain: "t \<in> set (primitive_tags (bare_port n) @ or_tail ns) \<Longrightarrow> printable t"
  by (induction ns) (auto simp: port_tags)

lemma lex_chain:
  "\<exists>ts. lex (ascii (port_chain (n # ns))) = Ok ts \<and>
     map tok_tag ts = primitive_tags (bare_port n) @ or_tail ns @ [Eof]"
proof -
  let ?tags = "Word (show_dec (unat n)) # or_tail ns"
  have all: "primitive_tags (bare_port n) @ or_tail ns = Word ''port'' # ?tags"
    by (simp add: port_tags)
  obtain ts where ts: "tokenizes 4 (ascii (tags_text ?tags)) ts" "map tok_tag ts = ?tags @ [Eof]"
    using tokenizes_text [of ?tags 4] printable_chain [of _ n ns] all by auto
  have source: "ascii (port_chain (n # ns)) = ascii ''port'' @ ascii (tags_text ?tags)"
  proof -
    have "CHR '' '' # port_chain (n # ns) = CHR '' '' # ''port'' @ tags_text ?tags"
      unfolding chain_text all by (simp add: tags_text_def)
    then show ?thesis by (simp add: ascii_def)
  qed
  have "tokenizes 0 (ascii ''port'' @ ascii (tags_text ?tags)) (mk_token (Word ''port'') 0 4 # ts)"
  proof (rule tokenizes_here)
    show "spells (Word ''port'') (ascii ''port'')"
      using printable_keywords(3) by (simp add: printable_def)
    show "maximal (ascii ''port'') (ascii (tags_text ?tags))"
      by (simp add: maximal_def tags_text_def ascii_def is_word_char_code)
    show "4 = 0 + str_len (ascii ''port'')" by (simp add: ascii_def len_utf8_def)
    show "tokenizes 4 (ascii (tags_text ?tags)) ts" by (rule ts(1))
  qed
  then have "lex (ascii (port_chain (n # ns))) = Ok (mk_token (Word ''port'') 0 4 # ts)"
    by (simp add: source lex_tokenizes)
  then show ?thesis using ts(2) all by (intro exI conjI) (assumption, simp add: mk_token_def)
qed

lemma port_derived:
  assumes "at toks i (primitive_tags (bare_port n))"
  shows "\<exists>e. and_expr toks i e (i + 2) \<and> bare_ports e \<and> expr_leaves e = 1"
proof -
  obtain e where "atom toks i e (i + 2)" "erase e = erase (EPrimitive (bare_port n))"
    using derives_primitive [OF assms, unfolded derives_def port_tags] by (auto simp: bare_port_def)
  moreover from this obtain p where "e = EPrimitive p" "p\<lparr>prim_offset := Range 0 0\<rparr> = bare_port n"
    by (cases e) (auto simp: bare_port_def)
  moreover from this(2) have "bare_ports (EPrimitive p)" by (cases p) (simp add: bare_port_def)
  ultimately show ?thesis by (intro exI [of _ e]) (simp add: and_single not_none)
qed

lemma chain_derived:
  "at toks i (primitive_tags (bare_port n) @ or_tail ns) \<Longrightarrow>
     \<exists>e. or_expr toks i e (i + 2 + length (or_tail ns)) \<and> bare_ports e \<and> expr_leaves e = Suc (length ns)"
proof (induction ns rule: rev_induct)
  case Nil
  then show ?case using port_derived [of toks i n] or_single by fastforce
next
  case (snoc m ns)
  let ?j = "i + 2 + length (or_tail ns)"
  have at: "at toks i (primitive_tags (bare_port n) @ or_tail ns)" "?j < length toks"
      "tok_tag (toks ! ?j) = Word ''or''" "at toks (Suc ?j) (primitive_tags (bare_port m))"
    using snoc.prems by (auto simp: at_append port_tags)
  obtain l where l: "or_expr toks i l ?j" "bare_ports l" "expr_leaves l = Suc (length ns)"
    using snoc.IH [OF at(1)] by blast
  obtain r where r: "and_expr toks (Suc ?j) r (Suc ?j + 2)" "bare_ports r" "expr_leaves r = 1"
    using port_derived [OF at(4)] by blast
  have "or_expr toks i (EOr l r (join_offset l r)) (Suc ?j + 2)"
    using l(1) at(2,3) r(1) by (intro or_chain) (simp_all add: tag_word_def)
  then show ?case
    using l(2,3) r(2,3) by (intro exI [of _ "EOr l r (join_offset l r)"]) (simp add: port_tags)
qed

lemma parse_chain:
  "\<exists>ts e. lex (ascii (port_chain (n # ns))) = Ok ts \<and> parse ts = Ok e \<and> bare_ports e \<and>
     expr_leaves e = Suc (length ns)"
proof -
  let ?tags = "primitive_tags (bare_port n) @ or_tail ns"
  obtain ts where ts: "lex (ascii (port_chain (n # ns))) = Ok ts" "map tok_tag ts = ?tags @ [Eof]"
    using lex_chain by auto
  then have eof: "ends_in_eof ts"
    using lex_yields [of "ascii (port_chain (n # ns))"] by (auto simp: yields_def)
  have "at ts 0 ?tags" using ts(2) by (intro at_tail) simp_all
  moreover have "length ts - 1 = 0 + 2 + length (or_tail ns)"
    using arg_cong [OF ts(2), of length] by (simp add: port_tags)
  ultimately obtain e where "or_expr ts 0 e (length ts - 1)" "bare_ports e" "expr_leaves e = Suc (length ns)"
    using chain_derived by metis
  then show ?thesis using ts(1) parse_grammar [OF eof] by blast
qed

lemma port_chain_overflows:
  assumes "4 \<le> length ns" and "length (port_chain ns) < max_source"
  shows "\<exists>ofs idx d. compile (ascii (port_chain ns)) lt snaplen =
    Err (new_error ofs (JumpDisplacementOverflow idx d))"
proof (cases ns)
  case (Cons m ms)
  obtain ts e where e: "lex (ascii (port_chain ns)) = Ok ts" "parse ts = Ok e" "bare_ports e"
      "expr_leaves e = length ns"
    using parse_chain [of m ms] Cons by auto
  show ?thesis
    by (rule compile_bare_ports_overflow [OF _ e(1-3)]) (use assms e(4) in \<open>simp_all add: ascii_def\<close>)
qed (use assms in simp)

text \<open>A chain of up to a quarter of a million primitives stays below the bound on sources.\<close>

lemma length_digits: "n < 10 ^ k \<Longrightarrow> 0 < k \<Longrightarrow> length (digits 10 n) \<le> k"
proof (induction k arbitrary: n)
  case (Suc k)
  show ?case
  proof (cases "n < 10")
    case False
    then have "0 < k" using Suc.prems(1) by (cases k) simp_all
    moreover have "n div 10 < 10 ^ k" using Suc.prems(1) by (simp add: less_mult_imp_div_less)
    ultimately show ?thesis using Suc.IH [of "n div 10"] by (simp add: digits.simps)
  qed (simp add: digits.simps)
qed simp

lemma length_port_chain: "length (port_chain ns) \<le> 14 * length ns"
proof -
  have ten: "length (port_text n) \<le> 10" for n
    using length_digits [of "unat n" 5] u16_less [of n] by (simp add: port_text_def show_dec_def)
  show ?thesis unfolding port_chain_def
  proof (induction ns rule: induct_list012)
    case (3 m n ns)
    then show ?case using ten [of m] by simp
  qed (simp_all add: order_trans [OF ten])
qed

end
