(* ===== verification/TestKit.thy ===== *)
theory TestKit
  imports Program RustText
begin

text \<open>
  What the repository's own tests use: assertions, \<open>unwrap\<close>, loops over cases and the formats of the
  strings they compare with; and the equations by which the simplifier runs a closed test. A test is
  a value: \<open>Ok ()\<close> when it succeeds, \<open>Panic\<close> when an assertion or an \<open>unwrap\<close> in it fails.
\<close>

section \<open>Tests as values\<close>

type_synonym test = "(unit, unit) result"

abbreviation succeeds :: "test \<Rightarrow> bool" where
  "succeeds t \<equiv> t = Ok ()"

definition assert_that :: "bool \<Rightarrow> test" where
  "assert_that b = (if b then Ok () else Panic)"

definition assert_eq :: "'a \<Rightarrow> 'a \<Rightarrow> test" where
  "assert_eq a b = assert_that (a = b)"

text \<open>\<open>Result::unwrap\<close> and \<open>Result::unwrap_err\<close>; what can be thrown away no longer matters.\<close>

fun unwrap :: "('e, 'a) result \<Rightarrow> (unit, 'a) result" where
  "unwrap (Ok x) = Ok x"
| "unwrap (Err e) = Panic"
| "unwrap Panic = Panic"
| "unwrap Diverge = Diverge"

fun unwrap_err :: "('e, 'a) result \<Rightarrow> (unit, 'e) result" where
  "unwrap_err (Ok x) = Panic"
| "unwrap_err (Err e) = Ok e"
| "unwrap_err Panic = Panic"
| "unwrap_err Diverge = Diverge"

text \<open>\<open>xs[i]\<close>, and an \<open>Option\<close> that must be there (\<open>unwrap\<close>, \<open>expect\<close>).\<close>

fun some :: "'a option \<Rightarrow> (unit, 'a) result" where
  "some (Some x) = Ok x"
| "some None = Panic"

definition item :: "'a list \<Rightarrow> nat \<Rightarrow> (unit, 'a) result" where
  "item xs i = some (get xs i)"

text \<open>Statements in sequence, and a \<open>for\<close> loop.\<close>

fun in_order :: "test list \<Rightarrow> test" where
  "in_order [] = Ok ()"
| "in_order (t # ts) = and_then t (\<lambda>_. in_order ts)"

fun each :: "'a list \<Rightarrow> ('a \<Rightarrow> test) \<Rightarrow> test" where
  "each [] f = Ok ()"
| "each (x # xs) f = and_then (f x) (\<lambda>_. each xs f)"

text \<open>Two tests that are rendered and compared.\<close>

definition assert_ok :: "(unit, 'a) result \<Rightarrow> 'a \<Rightarrow> test" where
  "assert_ok r x = and_then r (\<lambda>y. assert_eq y x)"

section \<open>Formats\<close>

text \<open>\<open>{:#x}\<close>, \<open>{:02x?}\<close> of six bytes, and \<open>{:?}\<close> of an optional prefix length.\<close>

definition show_0x :: "nat \<Rightarrow> string" where
  "show_0x n = ''0x'' @ show_hex n"

definition show_hex2 :: "u8 \<Rightarrow> string" where
  "show_hex2 b = pad_left CHR ''0'' 2 (show_hex (unat b))"

fun debug_mac :: "mac_addr \<Rightarrow> string" where
  "debug_mac (MacAddr a b c d e f) =
     ''['' @ show_hex2 a @ '', '' @ show_hex2 b @ '', '' @ show_hex2 c @ '', '' @ show_hex2 d @
     '', '' @ show_hex2 e @ '', '' @ show_hex2 f @ '']''"

fun debug_pfx :: "u8 option \<Rightarrow> string" where
  "debug_pfx None = ''None''"
| "debug_pfx (Some n) = ''Some('' @ show_dec (unat n) @ '')''"

text \<open>A text literal of several lines, each with its newline.\<close>

definition text_lines :: "string list \<Rightarrow> string" where
  "text_lines ls = concat (map (\<lambda>l. l @ [CHR 0x0A]) ls)"

text \<open>Lines with a newline between them.\<close>

abbreviation join_lines :: "string list \<Rightarrow> string" where
  "join_lines \<equiv> join_with [CHR 0x0A]"

section \<open>Looking into a string\<close>

text \<open>\<open>str::starts_with\<close>, \<open>str::contains\<close> and \<open>str::matches(..).count()\<close> (occurrences do not overlap).\<close>

definition starts_with :: "string \<Rightarrow> string \<Rightarrow> bool" where
  "starts_with s pat \<longleftrightarrow> strip_prefix pat s \<noteq> None"

fun contains :: "string \<Rightarrow> string \<Rightarrow> bool" where
  "contains [] pat = (pat = [])"
| "contains (c # cs) pat = (starts_with (c # cs) pat \<or> contains cs pat)"

lemma strip_prefix_length: "strip_prefix p s = Some t \<Longrightarrow> length s = length p + length t"
  by (induction p s rule: strip_prefix.induct) (auto split: if_splits)

function count_matches :: "string \<Rightarrow> string \<Rightarrow> nat" where
  "count_matches pat [] = 0"
| "count_matches pat (c # cs) =
     (case strip_prefix pat (c # cs) of
        Some rest \<Rightarrow> if pat = [] then 0 else count_matches pat rest + 1
      | None \<Rightarrow> count_matches pat cs)"
  by pat_completeness auto
termination
  by (relation "measure (\<lambda>(pat, s). length s)") (auto dest!: strip_prefix_length)

declare count_matches.simps [simp del]

text \<open>A pattern without a newline is looked for line by line.\<close>

abbreviation within_line :: "string \<Rightarrow> bool" where
  "within_line pat \<equiv> pat \<noteq> [] \<and> CHR 0x0A \<notin> set pat"

lemma strip_prefix_line:
  "CHR 0x0A \<notin> set pat \<Longrightarrow>
     strip_prefix pat (a @ CHR 0x0A # b) = map_option (\<lambda>r. r @ CHR 0x0A # b) (strip_prefix pat a)"
  by (induction pat a rule: strip_prefix.induct) auto

lemma strip_prefix_text_lines:
  "strip_prefix pat (text_lines (l # ls)) = strip_prefix pat (l @ CHR 0x0A # text_lines ls)"
  by (simp add: text_lines_def)

lemma contains_line:
  "within_line pat \<Longrightarrow>
     contains (a @ CHR 0x0A # b) pat \<longleftrightarrow> contains a pat \<or> contains b pat"
proof (induction a)
  case Nil
  then show ?case by (cases pat) (auto simp: starts_with_def)
next
  case (Cons c a)
  then show ?case using strip_prefix_line [of pat "c # a" b] by (simp add: starts_with_def)
qed

lemma contains_text_lines:
  "within_line pat \<Longrightarrow> contains (text_lines ls) pat \<longleftrightarrow> list_ex (\<lambda>l. contains l pat) ls"
  by (induction ls) (simp_all add: text_lines_def contains_line)

lemma count_matches_line:
  "within_line pat \<Longrightarrow>
     count_matches pat (a @ CHR 0x0A # b) = count_matches pat a + count_matches pat b"
proof (induction pat a rule: count_matches.induct)
  case (1 pat)
  then show ?case by (cases pat) (auto simp: count_matches.simps)
next
  case (2 pat c cs)
  then show ?case
    using strip_prefix_line [of pat "c # cs" b]
    by (cases "strip_prefix pat (c # cs)") (simp_all add: count_matches.simps)
qed

lemma count_matches_text_lines:
  "within_line pat \<Longrightarrow>
     count_matches pat (text_lines ls) = sum_list (map (count_matches pat) ls)"
  by (induction ls) (simp_all add: text_lines_def count_matches_line count_matches.simps)

section \<open>Patterns of error tags\<close>

text \<open>The patterns of the tests' \<open>matches!\<close> calls.\<close>

fun is_invalid_ipv6 :: "error_tag \<Rightarrow> bool" where
  "is_invalid_ipv6 (InvalidIPv6Literal _) = True"
| "is_invalid_ipv6 _ = False"

fun is_invalid_ipv4 :: "error_tag \<Rightarrow> bool" where
  "is_invalid_ipv4 (InvalidIPv4Literal _) = True"
| "is_invalid_ipv4 _ = False"

fun is_invalid_mac :: "error_tag \<Rightarrow> bool" where
  "is_invalid_mac (InvalidMacLiteral _) = True"
| "is_invalid_mac _ = False"

fun is_invalid_ethertype :: "error_tag \<Rightarrow> bool" where
  "is_invalid_ethertype (InvalidEtherType _) = True"
| "is_invalid_ethertype _ = False"

fun is_unexpected_token :: "error_tag \<Rightarrow> bool" where
  "is_unexpected_token (UnexpectedToken _ _) = True"
| "is_unexpected_token _ = False"

fun expects_host :: "error_tag \<Rightarrow> bool" where
  "expects_host (UnexpectedToken expected _) = contains expected ''host''"
| "expects_host _ = False"

fun is_jump_overflow :: "error_tag \<Rightarrow> bool" where
  "is_jump_overflow (JumpDisplacementOverflow _ _) = True"
| "is_jump_overflow _ = False"

fun is_invalid_combination :: "error_tag \<Rightarrow> bool" where
  "is_invalid_combination (InvalidPrimitiveCombination _) = True"
| "is_invalid_combination _ = False"

section \<open>Running a test\<close>

named_theorems run \<open>equations by which the simplifier runs the model on closed terms\<close>

text \<open>The continuation of a step is left alone until the step has a value.\<close>

lemma and_then_weak: "m = m' \<Longrightarrow> and_then m f = and_then m' f"
  by simp

lemma passes_step [run]:
  "assert_that True = Ok ()" "assert_that False = Panic"
  "assert_eq a a = Ok ()"
  by (simp_all add: assert_that_def assert_eq_def)

declare strip_prefix_text_lines [run] contains_text_lines [run] count_matches_text_lines [run]
declare count_matches.simps [run] starts_with_def [run]
declare assert_eq_def [run] assert_ok_def [run] item_def [run] get_def [run]

lemmas [run] = show_0x_def show_hex2_def show_dec_def show_hex_def pad_left_def

lemma digit_chars [run]:
  "digit_char 0 = CHR ''0''" "digit_char 1 = CHR ''1''" "digit_char (Suc 0) = CHR ''1''"
  "digit_char 2 = CHR ''2''"
  "digit_char 3 = CHR ''3''" "digit_char 4 = CHR ''4''" "digit_char 5 = CHR ''5''"
  "digit_char 6 = CHR ''6''" "digit_char 7 = CHR ''7''" "digit_char 8 = CHR ''8''"
  "digit_char 9 = CHR ''9''" "digit_char 10 = CHR ''a''" "digit_char 11 = CHR ''b''"
  "digit_char 12 = CHR ''c''" "digit_char 13 = CHR ''d''" "digit_char 14 = CHR ''e''"
  "digit_char 15 = CHR ''f''"
  by (simp_all add: digit_char_def char_of_eq_iff)

lemma Suc_Suc_0 [run]: "Suc (Suc 0) = 2"
  by simp

lemma digits_10 [run]:
  "digits 10 0 = ''0''"
  "digits 10 (Suc 0) = ''1''"
  "digits 10 (numeral k) =
     (if (numeral k :: nat) < 10 then [digit_char (numeral k)]
      else digits 10 (numeral k div 10) @ [digit_char (numeral k mod 10)])"
  by (simp_all add: digits.simps digit_chars)

lemma digits_16 [run]:
  "digits 16 0 = ''0''"
  "digits 16 (Suc 0) = ''1''"
  "digits 16 (numeral k) =
     (if (numeral k :: nat) < 16 then [digit_char (numeral k)]
      else digits 16 (numeral k div 16) @ [digit_char (numeral k mod 16)])"
  by (simp_all add: digits.simps digit_chars)

section \<open>Running the tokenizer\<close>

text \<open>
  On ASCII text the tokenizer can run on characters instead of code points, and byte positions are
  character positions.
\<close>

definition blank_char :: "char \<Rightarrow> bool" where
  "blank_char c \<longleftrightarrow> is_whitespace (of_char c)"

definition word_char :: "char \<Rightarrow> bool" where
  "word_char c \<longleftrightarrow> is_word_char (of_char c)"

function ascii_lex :: "nat \<Rightarrow> nat \<Rightarrow> string \<Rightarrow> token list res" where
  "ascii_lex eof_at start [] = Ok [mk_token Eof eof_at eof_at]"
| "ascii_lex eof_at start (c # cs) =
     (if blank_char c then ascii_lex eof_at (start + 1) cs
      else if c = CHR ''('' then push_token (mk_token LParen start (start + 1)) (ascii_lex eof_at (start + 1) cs)
      else if c = CHR '')'' then push_token (mk_token RParen start (start + 1)) (ascii_lex eof_at (start + 1) cs)
      else if c = CHR ''-'' then push_token (mk_token Dash start (start + 1)) (ascii_lex eof_at (start + 1) cs)
      else if c = CHR ''!'' then
        push_token (mk_token (Word ''not'') start (start + 1)) (ascii_lex eof_at (start + 1) cs)
      else if c = CHR ''&'' \<or> c = CHR ''|'' then
        (case cs of
           [] \<Rightarrow> Err (new_error (Range start (start + 1)) (UnexpectedChar (of_char c)))
         | next # cs' \<Rightarrow>
             if next = c then
               push_token (mk_token (Word (if c = CHR ''&'' then ''and'' else ''or'')) start (start + 2))
                 (ascii_lex eof_at (start + 2) cs')
             else Err (new_error (Range start (start + 1)) (UnexpectedChar (of_char c))))
      else if word_char c then
        push_token
          (mk_token (Word (c # takeWhile word_char cs)) start (start + 1 + length (takeWhile word_char cs)))
          (ascii_lex eof_at (start + 1 + length (takeWhile word_char cs)) (dropWhile word_char cs))
      else Err (new_error (Range start (start + 1)) (UnexpectedChar (of_char c))))"
  by pat_completeness auto
termination
  by (relation "measure (\<lambda>(eof_at, start, cs). length cs)") (auto simp: length_dropWhile_le less_Suc_eq_le)

declare ascii_lex.simps [simp del]

abbreviation is_ascii :: "string \<Rightarrow> bool" where
  "is_ascii s \<equiv> list_all (\<lambda>c. (of_char c :: nat) < 128) s"

lemma scan_word_ascii:
  "is_ascii s \<Longrightarrow> scan_word e (ascii s) =
     (e + length (takeWhile word_char s), ascii (takeWhile word_char s), ascii (dropWhile word_char s))"
  by (induction s arbitrary: e) (simp_all add: ascii_def word_char_def len_utf8_def)

lemma of_char_eq: "of_char c = (of_char d :: nat) \<longleftrightarrow> c = d"
  by simp

lemma is_ascii_dropWhile: "is_ascii s \<Longrightarrow> is_ascii (dropWhile P s)"
  by (induction s) auto

lemma lex_loop_ascii:
  "is_ascii s \<Longrightarrow> lex_loop eof_at start (ascii s) = ascii_lex eof_at start s"
proof (induction s arbitrary: start rule: measure_induct_rule [of length])
  case (less s)
  show ?case
  proof (cases s)
    case Nil
    then show ?thesis by (simp add: ascii_def ascii_lex.simps)
  next
    case (Cons c cs)
    have len: "len_utf8 (of_char c) = 1" and tl: "is_ascii cs"
      using less.prems Cons by (simp_all add: len_utf8_def)
    have word: "map char_of (of_char c # ascii w) = c # w" for w
      by (simp add: ascii_def comp_def)
    have here: "lex_loop eof_at i (ascii cs) = ascii_lex eof_at i cs" for i
      using less.IH [of cs] tl Cons by simp
    have past: "lex_loop eof_at i (ascii (dropWhile word_char cs)) = ascii_lex eof_at i (dropWhile word_char cs)" for i
      using less.IH [of "dropWhile word_char cs"] is_ascii_dropWhile [OF tl] Cons
      by (simp add: length_dropWhile_le less_Suc_eq_le)
    have next_one: "(case ascii cs of [] \<Rightarrow> e | n # r \<Rightarrow> if n = of_char c then push_token t (lex_loop eof_at i r) else e') =
       (case cs of [] \<Rightarrow> e | n # r \<Rightarrow> if n = c then push_token t (ascii_lex eof_at i r) else e')" for e e' t i
      using less.IH [of "tl cs"] tl Cons by (cases cs) (auto simp: ascii_def)
    have "ascii s = of_char c # ascii cs" by (simp add: Cons ascii_def)
    then show ?thesis
      by (simp only: Cons lex_loop.simps(2) ascii_lex.simps(2) of_char_eq blank_char_def [symmetric] word_char_def [symmetric]
        scan_word_ascii [OF tl] prod.case word len here past next_one)
  qed
qed

lemma str_len_ascii: "is_ascii s \<Longrightarrow> str_len (ascii s) = length s"
  by (induction s) (simp_all add: ascii_def len_utf8_def)

lemma lex_ascii [run]: "is_ascii s \<Longrightarrow> lex (ascii s) = ascii_lex (length s) 0 s"
  by (simp add: lex_def lex_loop_ascii str_len_ascii)

lemma token_fields [run]:
  "tok_tag (mk_token t i j) = t" "tok_offset (mk_token t i j) = Range i j"
  by (simp_all add: mk_token_def)

declare ascii_lex.simps [run] push_token_def [run] blank_char_def [run] word_char_def [run]
  is_whitespace_def [run] is_word_char_def [run] is_ascii_alphanumeric_def [run]

section \<open>Running the parser\<close>

text \<open>The functions of the grammar with a numeral for the fuel.\<close>

lemma parser_numeral [run]:
  "parse_or (numeral k) toks pos =
     and_then (parse_and (pred_numeral k) toks pos) (\<lambda>(lhs, pos). parse_or_loop (pred_numeral k) toks lhs pos)"
  "parse_or_loop (numeral k) toks lhs pos =
     and_then (word_at toks pos) (\<lambda>w.
       if w = Some ''or'' then
         and_then (advance toks pos) (\<lambda>pos.
         and_then (parse_and (pred_numeral k) toks pos) (\<lambda>(rhs, pos).
           parse_or_loop (pred_numeral k) toks (EOr lhs rhs (join_offset lhs rhs)) pos))
       else Ok (lhs, pos))"
  "parse_and (numeral k) toks pos =
     and_then (parse_unary (pred_numeral k) toks pos) (\<lambda>(lhs, pos). parse_and_loop (pred_numeral k) toks lhs pos)"
  "parse_and_loop (numeral k) toks lhs pos =
     and_then (word_at toks pos) (\<lambda>w.
       if w = Some ''and'' then
         and_then (advance toks pos) (\<lambda>pos.
         and_then (parse_unary (pred_numeral k) toks pos) (\<lambda>(rhs, pos).
           parse_and_loop (pred_numeral k) toks (EAnd lhs rhs (join_offset lhs rhs)) pos))
       else Ok (lhs, pos))"
  "parse_unary (numeral k) toks pos =
     and_then (word_at toks pos) (\<lambda>w.
       if w = Some ''not'' then
         and_then (peek toks pos) (\<lambda>t.
         and_then (advance toks pos) (\<lambda>pos.
         and_then (parse_unary (pred_numeral k) toks pos) (\<lambda>(inner, pos).
           Ok (ENot inner
                 (Range (off_start (tok_offset t)) (off_end (offset_from_expr inner))), pos))))
       else parse_primary (pred_numeral k) toks pos)"
  "parse_primary (numeral k) toks pos =
     and_then (peek toks pos) (\<lambda>t.
       case tok_tag t of
         LParen \<Rightarrow>
           and_then (advance toks pos) (\<lambda>pos.
           and_then (parse_or (pred_numeral k) toks pos) (\<lambda>(inner, pos).
           and_then (peek toks pos) (\<lambda>t.
             if tok_tag t = RParen then and_then (advance toks pos) (\<lambda>pos. Ok (inner, pos))
             else Err (new_error (tok_offset t) UnbalancedParens))))
       | RParen \<Rightarrow> Err (new_error (tok_offset t) UnbalancedParens)
       | Word w \<Rightarrow> parse_leaf toks pos w
       | Eof \<Rightarrow> Err (new_error (tok_offset t) (UnexpectedEof ''an expression''))
       | Dash \<Rightarrow> Err (new_error (tok_offset t) (UnexpectedToken ''an expression'' (token_text t))))"
  by (simp_all only: numeral_eq_Suc parse_or.simps parse_or_loop.simps parse_and.simps parse_and_loop.simps parse_unary.simps parse_primary.simps)

lemmas [run] =
  parse_def parse_fuel_def peek_def word_at_def tag_word_def parse_leaf_def expect_word_def
  expect_dash_def advance_def prev_end_def expect_eof_def token_text_def join_offset_def
  parse_ether_primitive_def parse_ether_kind_def finish_ether_def parse_mac_operand_def
  try_consume_word_def parse_primitive_def try_parse_proto_def try_parse_dir_def try_keyword_def
  proto_keyword_def dir_keyword_def parse_type_def parse_portrange_def

lemmas [run] =
  parse_mac_literal_def parse_ethertype_def parse_port_def parse_addr_literal_def
  parse_ipv6_literal_def split_prefix_def parse_ipv4_octets_def parse_u8_def parse_u16_def
  u8_from_hex_def u16_from_hex_def from_str_radix_def to_digit_def to_lowercase_def
  to_ascii_lower_def u32_from_be_bytes_def new_error_def

lemmas [run] =
  parse_ipv6_def read_ipv6_addr_def read_groups.simps read_separator_def read_number_def
  read_ipv4_addr_def u128_of_groups_def

lemma replicate_numeral_run [run]: "replicate (numeral k) x = x # replicate (pred_numeral k) x"
  by (simp add: numeral_eq_Suc)

section \<open>Running the later stages\<close>

declare expand_primitive_def [run] primitive_leaves_def [run] default_dirs_def [run]
  default_protos_def [run] mk_leaf_def [run]

lemmas [run] =
  generate_def new_label_def emit_def place_def finish_def new_builder_def mk_branch_def swapped_def
  mk_ctx_def codegen_constants compile_primitive_def compile_dir_pair_def differs_only_in_dir_def
  gate_ldh_eq_def gate_ldb_eq_def gate_ip_version_def emit_l3_gate_def
  emit_ethertype_and_proto_gates_def emit_not_fragment_gate_def ip_gates_def arp_gates_def
  ensure_ethertype_available_def full_prefix_def dir_offset_def emit_addr_terminal_def
  emit_addr6_word_def emit_addr6_terminal_def ip6_gates_def compile_addr6_def mask_target_def
  compile_addr_def compile_addr_pair_def

lemmas [run] =
  port_proto_num_def emit_port_compare_def port_rel_def emit_port_terminal_def
  emit_port6_terminal_def compile_port4_def compile_port4_pair_def compile_port6_def
  compile_port6_pair_def compile_port_def compile_port_pair_def emit_mac_eq_def
  compile_ether_host_def compile_ether_proto_def compile_ether_multicast_def compile_ether_def
  u16_from_be_bytes_def Let_def upt_rec [of _ "numeral _"]

text \<open>The mask as a numeral.\<close>

lemma netmask_run [run]:
  "netmask n =
     (if n = 0 then Ok 0
      else if 32 < unat n then Panic
      else Ok (of_nat (4294967296 - 2 ^ (32 - unat n))))"
proof -
  have "of_nat (4294967296 - 2 ^ k) = (push_bit k (- 1) :: u32)" if "k < 32" for k
  proof -
    have "(2 :: nat) ^ k \<le> 2 ^ 32" using that by (intro power_increasing) auto
    then show ?thesis by (simp add: of_nat_diff push_bit_eq_mult)
  qed
  then show ?thesis by (simp add: netmask_def unat_gt_0)
qed

text \<open>The fields of closed records and the fixed parts of a run.\<close>

lemmas run_congs = and_then_weak let_weak_cong

end
