(* ===== verification/LexerTests.thy ===== *)
theory LexerTests
  imports TestKit
begin

text \<open>The unit tests of \<open>src/lexer.rs\<close> (\<open>mod tests\<close>).\<close>

definition words :: "string \<Rightarrow> (unit, token_tag list) result" where
  "words src = and_then (unwrap (lex (ascii src))) (\<lambda>ts. Ok (map tok_tag ts))"

definition keywords_separated :: test where
  "keywords_separated =
     assert_ok (words ''tcp port 80'') [Word ''tcp'', Word ''port'', Word ''80'', Eof]"

definition lex_token_separated :: test where
  "lex_token_separated =
     and_then (unwrap (lex (ascii ''tcp port 80''))) (\<lambda>tokens.
     in_order
       [and_then (item tokens 0) (\<lambda>t. assert_eq (Word ''tcp'') (tok_tag t)),
        and_then (item tokens 1) (\<lambda>t. assert_eq (Word ''port'') (tok_tag t)),
        and_then (item tokens 2) (\<lambda>t. assert_eq (Word ''80'') (tok_tag t))])"

definition portrange_splits_on_dash :: test where
  "portrange_splits_on_dash =
     assert_ok (words ''portrange 8000-8008'')
       [Word ''portrange'', Word ''8000'', Dash, Word ''8008'', Eof]"

definition cidr :: test where
  "cidr = assert_ok (words ''1.2.3.0/24'') [Word ''1.2.3.0/24'', Eof]"

definition symbolic_connectives :: test where
  "symbolic_connectives =
     assert_ok (words ''tcp && !udp || arp'')
       [Word ''tcp'', Word ''and'', Word ''not'', Word ''udp'', Word ''or'', Word ''arp'', Eof]"

definition offsets_cover_the_source_text :: test where
  "offsets_cover_the_source_text =
     and_then (unwrap (lex (ascii ''  tcp  port''))) (\<lambda>tokens.
     in_order
       [and_then (item tokens 0) (\<lambda>t. assert_eq (tok_offset t) (Range 2 5)),
        and_then (item tokens 1) (\<lambda>t. assert_eq (tok_offset t) (Range 7 11))])"

definition single_ampersand_is_an_error :: test where
  "single_ampersand_is_an_error =
     and_then (unwrap_err (lex (ascii ''tcp & udp''))) (\<lambda>err.
     in_order
       [assert_eq (err_tag err) (UnexpectedChar (of_char CHR ''&'')),
        assert_eq (err_offset err) (Range 4 5)])"

definition parens_are_tokenized :: test where
  "parens_are_tokenized = assert_ok (words ''(tcp)'') [LParen, Word ''tcp'', RParen, Eof]"

section \<open>They pass\<close>

lemmas lexer_tests_run = words_def

definition lexer_tests :: "test list" where
  "lexer_tests =
     [keywords_separated, lex_token_separated, portrange_splits_on_dash, cidr,
     symbolic_connectives, offsets_cover_the_source_text, single_ampersand_is_an_error,
     parens_are_tokenized]"

lemma lexer_suite:
  "succeeds keywords_separated" "succeeds lex_token_separated" "succeeds portrange_splits_on_dash"
  "succeeds cidr" "succeeds symbolic_connectives" "succeeds offsets_cover_the_source_text"
  "succeeds single_ampersand_is_an_error" "succeeds parens_are_tokenized"
  by (simp_all add: keywords_separated_def lex_token_separated_def portrange_splits_on_dash_def cidr_def
      symbolic_connectives_def offsets_cover_the_source_text_def single_ampersand_is_an_error_def
      parens_are_tokenized_def
      lexer_tests_run run cong: run_congs)

lemma lexer_tests_pass: "list_all succeeds lexer_tests"
  by (simp add: lexer_tests_def lexer_suite)

end
