(* ===== verification/ParserTests.thy ===== *)
theory ParserTests
  imports TestKit
begin

text \<open>The unit tests of \<open>src/parser.rs\<close> (\<open>mod tests\<close>).\<close>

section \<open>Rendering a tree\<close>

fun show_proto_tag :: "proto_tag option \<Rightarrow> string" where
  "show_proto_tag (Some ProtoIp) = ''ip''"
| "show_proto_tag (Some ProtoIp6) = ''ip6''"
| "show_proto_tag (Some ProtoArp) = ''arp''"
| "show_proto_tag (Some ProtoTcp) = ''tcp''"
| "show_proto_tag (Some ProtoUdp) = ''udp''"
| "show_proto_tag (Some ProtoIcmp) = ''icmp''"
| "show_proto_tag None = ''*''"

fun show_dir_tag :: "dir_tag option \<Rightarrow> string" where
  "show_dir_tag (Some Src) = ''src''"
| "show_dir_tag (Some Dst) = ''dst''"
| "show_dir_tag None = ''*''"

fun show_prim_type :: "prim_type \<Rightarrow> string" where
  "show_prim_type (Host (V4 a)) = ''host='' @ show_0x (unat a)"
| "show_prim_type (Host (V6 a)) = ''host6='' @ show_0x (unat a)"
| "show_prim_type (Net (V4 a) pfx) = ''net='' @ show_0x (unat a) @ ''/'' @ debug_pfx pfx"
| "show_prim_type (Net (V6 a) pfx) = ''net6='' @ show_0x (unat a) @ ''/'' @ debug_pfx pfx"
| "show_prim_type (Port p) = ''port='' @ show_dec (unat p)"
| "show_prim_type (PortRange lo hi) =
     ''portrange='' @ show_dec (unat lo) @ ''-'' @ show_dec (unat hi)"

fun show_ether_kind :: "ether_kind \<Rightarrow> string" where
  "show_ether_kind (EtherHost m d) = ''ether&'' @ show_dir_tag d @ '' host='' @ debug_mac m"
| "show_ether_kind (EtherProto et) = ''ether proto='' @ show_0x (unat et)"
| "show_ether_kind EtherBroadcast = ''ether broadcast''"
| "show_ether_kind EtherMulticast = ''ether multicast''"

fun render_expr :: "expr \<Rightarrow> string" where
  "render_expr (EPrimitive p) =
     show_proto_tag (prim_proto p) @ ''&'' @ show_dir_tag (prim_dir p) @ '' '' @
     show_prim_type (prim_ty p)"
| "render_expr (EEther e) = show_ether_kind (ether_kind e)"
| "render_expr (ENot inner ofs) = ''!'' @ render_expr inner"
| "render_expr (EAnd l r ofs) = ''('' @ render_expr l @ '' & '' @ render_expr r @ '')''"
| "render_expr (EOr l r ofs) = ''('' @ render_expr l @ '' | '' @ render_expr r @ '')''"

definition render :: "string \<Rightarrow> (unit, string) result" where
  "render src =
     and_then (unwrap (lex (ascii src))) (\<lambda>tokens.
     and_then (unwrap (parse tokens)) (\<lambda>expr. Ok (render_expr expr)))"

definition parse_err :: "string \<Rightarrow> (unit, compile_error) result" where
  "parse_err src = and_then (unwrap (lex (ascii src))) (\<lambda>tokens. unwrap_err (parse tokens))"

definition assert_tag :: "string \<Rightarrow> (error_tag \<Rightarrow> bool) \<Rightarrow> test" where
  "assert_tag src matches = and_then (parse_err src) (\<lambda>err. assert_that (matches (err_tag err)))"

section \<open>Accepted sources\<close>

definition proto_and_type_only :: test where
  "proto_and_type_only = assert_ok (render ''tcp port 80'') ''tcp&* port=80''"

definition full_primitive :: test where
  "full_primitive = assert_ok (render ''ip src host 1.2.3.4'') ''ip&src host=0x1020304''"

definition precedence_not_and_or :: test where
  "precedence_not_and_or =
     assert_ok (render ''tcp port 80 or udp port 53 and not icmp port 1'')
       ''(tcp&* port=80 | (udp&* port=53 & !icmp&* port=1))''"

definition parens_override_precedence :: test where
  "parens_override_precedence =
     assert_ok (render ''(tcp port 80 or udp port 53) and not icmp port 1'')
       ''((tcp&* port=80 | udp&* port=53) & !icmp&* port=1)''"

definition portrange_parses :: test where
  "portrange_parses = assert_ok (render ''portrange 8000-8008'') ''*&* portrange=8000-8008''"

definition cidr_net :: test where
  "cidr_net = assert_ok (render ''net 10.0.0.0/8'') ''*&* net=0xa000000/Some(8)''"

definition ipv6_host_keeps_its_value :: test where
  "ipv6_host_keeps_its_value =
     in_order
       [assert_ok (render ''ip6 host ::1'') ''ip6&* host6=0x1'',
        assert_ok (render ''host 2001:db8::1'') ''*&* host6=0x20010db8000000000000000000000001'']"

definition ipv6_compressed_and_mapped_forms :: test where
  "ipv6_compressed_and_mapped_forms =
     in_order
       [assert_ok (render ''host 1:2::3'') ''*&* host6=0x10002000000000000000000000003'',
        assert_ok (render ''host fe80::'') ''*&* host6=0xfe800000000000000000000000000000'',
        assert_ok (render ''host ::ffff:1.2.3.4'') ''*&* host6=0xffff01020304'',
        assert_ok (render ''host 1:2:3:4:5:6:7:8'')
          ''*&* host6=0x10002000300040005000600070008'']"

definition ipv6_net_prefix_lengths :: test where
  "ipv6_net_prefix_lengths =
     in_order
       [assert_ok (render ''net 2001:db8::/32'')
          ''*&* net6=0x20010db8000000000000000000000000/Some(32)'',
        assert_ok (render ''net ::/0'') ''*&* net6=0x0/Some(0)'',
        assert_ok (render ''net ::1/128'') ''*&* net6=0x1/Some(128)'',
        assert_ok (render ''net ::1'') ''*&* net6=0x1/None'']"

definition ether_host_bidirectional :: test where
  "ether_host_bidirectional =
     assert_ok (render ''ether host aa:bb:cc:dd:ee:ff'')
       ''ether&* host=[aa, bb, cc, dd, ee, ff]''"

definition ether_src_dst_with_and_without_host_keyword :: test where
  "ether_src_dst_with_and_without_host_keyword =
     in_order
       [each [''ether src aa:bb:cc:dd:ee:ff'', ''ether src host aa:bb:cc:dd:ee:ff'']
          (\<lambda>src. assert_ok (render src) ''ether&src host=[aa, bb, cc, dd, ee, ff]''),
        each [''ether dst aa:bb:cc:dd:ee:ff'', ''ether dst host aa:bb:cc:dd:ee:ff'']
          (\<lambda>src. assert_ok (render src) ''ether&dst host=[aa, bb, cc, dd, ee, ff]'')]"

definition ether_proto_by_name_and_number :: test where
  "ether_proto_by_name_and_number =
     in_order
       [assert_ok (render ''ether proto ip'') ''ether proto=0x800'',
        assert_ok (render ''ether proto ip6'') ''ether proto=0x86dd'',
        assert_ok (render ''ether proto ipv6'') ''ether proto=0x86dd'',
        assert_ok (render ''ether proto arp'') ''ether proto=0x806'',
        assert_ok (render ''ether proto rarp'') ''ether proto=0x8035'',
        assert_ok (render ''ether proto 0x8100'') ''ether proto=0x8100'',
        assert_ok (render ''ether proto 34525'') ''ether proto=0x86dd'']"

definition broadcast_and_multicast_bare_and_ether_prefixed_are_identical :: test where
  "broadcast_and_multicast_bare_and_ether_prefixed_are_identical =
     in_order
       [assert_ok (render ''broadcast'') ''ether broadcast'',
        assert_ok (render ''ether broadcast'') ''ether broadcast'',
        assert_ok (render ''multicast'') ''ether multicast'',
        assert_ok (render ''ether multicast'') ''ether multicast'']"

definition ether_composes_with_and_or_not :: test where
  "ether_composes_with_and_or_not =
     assert_ok (render ''ether host aa:bb:cc:dd:ee:ff and not broadcast'')
       ''(ether&* host=[aa, bb, cc, dd, ee, ff] & !ether broadcast)''"

section \<open>Rejected sources\<close>

definition invalid_ipv6_literals_are_errors :: test where
  "invalid_ipv6_literals_are_errors =
     each
       [''host 2001:db8:::1'', ''host 1::2::3'', ''host 12345::1'', ''host 1:2:3:4:5:6:7:8:9'',
        ''host ::g'', ''host :'']
       (\<lambda>src. assert_tag src is_invalid_ipv6)"

definition ipv6_prefix_must_be_at_most_128_and_only_on_net :: test where
  "ipv6_prefix_must_be_at_most_128_and_only_on_net =
     each [''net ::1/129'', ''net ::1/x'', ''host ::1/64'']
       (\<lambda>src. assert_tag src is_invalid_ipv6)"

definition portrange_lo_gt_hi_is_an_error :: test where
  "portrange_lo_gt_hi_is_an_error =
     and_then (parse_err ''portrange 90-80'') (\<lambda>err. assert_eq (err_tag err) (InvalidPortRange 90 80))"

definition unbalanced_parens_is_an_error :: test where
  "unbalanced_parens_is_an_error =
     in_order
       [and_then (parse_err ''(tcp port 80'') (\<lambda>err. assert_eq (err_tag err) UnbalancedParens),
        assert_tag ''tcp port 80)'' is_unexpected_token]"

definition empty_expression_is_an_error :: test where
  "empty_expression_is_an_error =
     and_then (parse_err '''') (\<lambda>err. assert_eq (err_tag err) EmptyExpression)"

definition space_empty_expression_is_an_error :: test where
  "space_empty_expression_is_an_error =
     and_then (parse_err ''   '') (\<lambda>err. assert_eq (err_tag err) EmptyExpression)"

definition host_rejects_explicit_prefix :: test where
  "host_rejects_explicit_prefix = assert_tag ''host 1.2.3.4/24'' is_invalid_ipv4"

definition rarp_and_sctp_are_not_directly_typable :: test where
  "rarp_and_sctp_are_not_directly_typable =
     in_order
       [assert_tag ''rarp host 1.2.3.4'' (\<lambda>tag. tag = UnknownKeyword ''rarp''),
        assert_tag ''sctp port 80'' (\<lambda>tag. tag = UnknownKeyword ''sctp'')]"

definition missing_type_qualifier_is_an_error :: test where
  "missing_type_qualifier_is_an_error = assert_tag ''tcp and udp'' expects_host"

definition invalid_mac_literal_is_an_error :: test where
  "invalid_mac_literal_is_an_error =
     each
       [''ether host aa:bb:cc:dd:ee'', ''ether host aa:bb:cc:dd:ee:ff:00'',
        ''ether host aa:bb:cc:dd:ee:gg'', ''ether host aabbccddeeff'']
       (\<lambda>src. assert_tag src is_invalid_mac)"

definition invalid_ether_proto_is_an_error :: test where
  "invalid_ether_proto_is_an_error =
     each [''ether proto vlan'', ''ether proto 99999'', ''ether proto notanumber'']
       (\<lambda>src. assert_tag src is_invalid_ethertype)"

definition ether_requires_a_known_qualifier :: test where
  "ether_requires_a_known_qualifier = assert_tag ''ether foo'' is_unexpected_token"

section \<open>They pass\<close>

lemmas parser_tests_run = render_def parse_err_def assert_tag_def

definition parser_tests :: "test list" where
  "parser_tests =
     [proto_and_type_only, full_primitive, precedence_not_and_or, parens_override_precedence,
     portrange_parses, cidr_net, ipv6_host_keeps_its_value, ipv6_compressed_and_mapped_forms,
     ipv6_net_prefix_lengths, ether_host_bidirectional,
     ether_src_dst_with_and_without_host_keyword, ether_proto_by_name_and_number,
     broadcast_and_multicast_bare_and_ether_prefixed_are_identical,
     ether_composes_with_and_or_not, invalid_ipv6_literals_are_errors,
     ipv6_prefix_must_be_at_most_128_and_only_on_net, portrange_lo_gt_hi_is_an_error,
     unbalanced_parens_is_an_error, empty_expression_is_an_error,
     space_empty_expression_is_an_error, host_rejects_explicit_prefix,
     rarp_and_sctp_are_not_directly_typable, missing_type_qualifier_is_an_error,
     invalid_mac_literal_is_an_error, invalid_ether_proto_is_an_error,
     ether_requires_a_known_qualifier]"

lemma plain_sources_pass:
  "succeeds proto_and_type_only" "succeeds full_primitive" "succeeds portrange_parses" "succeeds cidr_net"
  by (simp_all add: proto_and_type_only_def full_primitive_def portrange_parses_def cidr_net_def
      parser_tests_run run cong: run_congs)

lemma connectives_pass:
  "succeeds precedence_not_and_or" "succeeds parens_override_precedence"
  "succeeds ether_composes_with_and_or_not"
  by (simp_all add: precedence_not_and_or_def parens_override_precedence_def ether_composes_with_and_or_not_def
      parser_tests_run run cong: run_congs)

lemma ipv6_values_pass:
  "succeeds ipv6_host_keeps_its_value" "succeeds ipv6_compressed_and_mapped_forms"
  by (simp_all add: ipv6_host_keeps_its_value_def ipv6_compressed_and_mapped_forms_def
      parser_tests_run run cong: run_congs)

lemma ipv6_prefixes_pass:
  "succeeds ipv6_net_prefix_lengths"
  by (simp_all add: ipv6_net_prefix_lengths_def
      parser_tests_run run cong: run_congs)

lemma ether_hosts_pass:
  "succeeds ether_host_bidirectional" "succeeds ether_src_dst_with_and_without_host_keyword"
  by (simp_all add: ether_host_bidirectional_def ether_src_dst_with_and_without_host_keyword_def
      parser_tests_run run cong: run_congs)

lemma ether_names_pass:
  "succeeds ether_proto_by_name_and_number"
  "succeeds broadcast_and_multicast_bare_and_ether_prefixed_are_identical"
  by (simp_all add: ether_proto_by_name_and_number_def
      broadcast_and_multicast_bare_and_ether_prefixed_are_identical_def
      parser_tests_run run cong: run_congs)

lemma bad_ipv6_pass:
  "succeeds invalid_ipv6_literals_are_errors"
  "succeeds ipv6_prefix_must_be_at_most_128_and_only_on_net"
  by (simp_all add: invalid_ipv6_literals_are_errors_def ipv6_prefix_must_be_at_most_128_and_only_on_net_def
      parser_tests_run run cong: run_congs)

lemma bad_literals_pass:
  "succeeds host_rejects_explicit_prefix" "succeeds invalid_mac_literal_is_an_error"
  "succeeds invalid_ether_proto_is_an_error"
  by (simp_all add: host_rejects_explicit_prefix_def invalid_mac_literal_is_an_error_def
      invalid_ether_proto_is_an_error_def
      parser_tests_run run cong: run_congs)

lemma bad_shapes_pass:
  "succeeds portrange_lo_gt_hi_is_an_error" "succeeds unbalanced_parens_is_an_error"
  "succeeds empty_expression_is_an_error" "succeeds space_empty_expression_is_an_error"
  by (simp_all add: portrange_lo_gt_hi_is_an_error_def unbalanced_parens_is_an_error_def
      empty_expression_is_an_error_def space_empty_expression_is_an_error_def
      parser_tests_run run cong: run_congs)

lemma bad_words_pass:
  "succeeds rarp_and_sctp_are_not_directly_typable" "succeeds missing_type_qualifier_is_an_error"
  "succeeds ether_requires_a_known_qualifier"
  by (simp_all add: rarp_and_sctp_are_not_directly_typable_def missing_type_qualifier_is_an_error_def
      ether_requires_a_known_qualifier_def
      type_expected_def quoted_def parser_tests_run run cong: run_congs)

lemma parser_tests_pass: "list_all succeeds parser_tests"
  by (simp add: parser_tests_def plain_sources_pass connectives_pass ipv6_values_pass ipv6_prefixes_pass ether_hosts_pass
      ether_names_pass bad_ipv6_pass bad_literals_pass bad_shapes_pass bad_words_pass)

end
