(* ===== verification/DesugarTests.thy ===== *)
theory DesugarTests
  imports ParserTests
begin

text \<open>
  The unit tests of \<open>src/desugar.rs\<close> (\<open>mod tests\<close>). The types and the \<open>ether\<close> primitives are rendered
  as in the tests of the parser.
\<close>

fun show_compiled_proto :: "compiled_proto \<Rightarrow> string" where
  "show_compiled_proto CIp = ''ip''"
| "show_compiled_proto CIp6 = ''ip6''"
| "show_compiled_proto CArp = ''arp''"
| "show_compiled_proto CRarp = ''rarp''"
| "show_compiled_proto CTcp = ''tcp''"
| "show_compiled_proto CUdp = ''udp''"
| "show_compiled_proto CIcmp = ''icmp''"
| "show_compiled_proto CSctp = ''sctp''"

fun render_expanded :: "expanded_expr \<Rightarrow> string" where
  "render_expanded (Leaf p) =
     show_compiled_proto (cp_proto p) @ ''&'' @ show_dir_tag (Some (cp_dir p)) @ '' '' @
     show_prim_type (cp_ty p)"
| "render_expanded (EtherLeaf e) = show_ether_kind (ether_kind e)"
| "render_expanded (XNot inner) = ''!'' @ render_expanded inner"
| "render_expanded (XAnd l r) = ''('' @ render_expanded l @ '' & '' @ render_expanded r @ '')''"
| "render_expanded (XOr l r) = ''('' @ render_expanded l @ '' | '' @ render_expanded r @ '')''"

definition expand_src :: "string \<Rightarrow> (unit, string) result" where
  "expand_src src =
     and_then (unwrap (lex (ascii src))) (\<lambda>tokens.
     and_then (unwrap (parse tokens)) (\<lambda>ast.
     and_then (unwrap (expand ast)) (\<lambda>expanded. Ok (render_expanded expanded))))"

definition proto_and_dir_both_given_expands_to_nothing :: test where
  "proto_and_dir_both_given_expands_to_nothing =
     assert_ok (expand_src ''tcp src port 80'') ''tcp&src port=80''"

definition proto_given_dir_missing_expands_to_dir_or :: test where
  "proto_given_dir_missing_expands_to_dir_or =
     assert_ok (expand_src ''tcp port 80'') ''(tcp&src port=80 | tcp&dst port=80)''"

definition dir_given_proto_missing_host_expands_to_ip_arp_rarp :: test where
  "dir_given_proto_missing_host_expands_to_ip_arp_rarp =
     assert_ok (expand_src ''src host 1.2.3.4'')
       ''((ip&src host=0x1020304 | arp&src host=0x1020304) | rarp&src host=0x1020304)''"

definition dir_given_proto_missing_port_expands_to_tcp_udp_sctp :: test where
  "dir_given_proto_missing_port_expands_to_tcp_udp_sctp =
     assert_ok (expand_src ''src port 80'')
       ''((tcp&src port=80 | udp&src port=80) | sctp&src port=80)''"

definition both_missing_is_the_full_cartesian_product :: test where
  "both_missing_is_the_full_cartesian_product =
     and_then (expand_src ''host 1.2.3.4'') (\<lambda>rendered.
     in_order
       [assert_eq (count_matches ''host=0x1020304'' rendered) 6,
        assert_that (starts_with rendered ''(((((ip&src'')])"

definition bare_ipv6_host_is_ip6_only :: test where
  "bare_ipv6_host_is_ip6_only =
     in_order
       [assert_ok (expand_src ''host ::1'') ''(ip6&src host6=0x1 | ip6&dst host6=0x1)'',
        assert_ok (expand_src ''src net ::1/64'') ''ip6&src net6=0x1/Some(64)'']"

definition not_and_or_pass_through_structurally :: test where
  "not_and_or_pass_through_structurally =
     assert_ok (expand_src ''tcp src port 80 and not udp dst port 53'')
       ''(tcp&src port=80 & !udp&dst port=53)''"

definition ether_leaves_pass_through_unexpanded :: test where
  "ether_leaves_pass_through_unexpanded =
     in_order
       [assert_ok (expand_src ''ether host aa:bb:cc:dd:ee:ff'')
          ''ether&* host=[aa, bb, cc, dd, ee, ff]'',
        assert_ok (expand_src ''broadcast'') ''ether broadcast'',
        assert_ok (expand_src ''ether proto ip'') ''ether proto=0x800'',
        assert_ok (expand_src ''broadcast or tcp port 80'')
          ''(ether broadcast | (tcp&src port=80 | tcp&dst port=80))'']"

section \<open>They pass\<close>

lemmas desugar_tests_run = expand_src_def

definition desugar_tests :: "test list" where
  "desugar_tests =
     [proto_and_dir_both_given_expands_to_nothing, proto_given_dir_missing_expands_to_dir_or,
     dir_given_proto_missing_host_expands_to_ip_arp_rarp,
     dir_given_proto_missing_port_expands_to_tcp_udp_sctp,
     both_missing_is_the_full_cartesian_product, bare_ipv6_host_is_ip6_only,
     not_and_or_pass_through_structurally, ether_leaves_pass_through_unexpanded]"

lemma qualifiers_pass:
  "succeeds proto_and_dir_both_given_expands_to_nothing"
  "succeeds proto_given_dir_missing_expands_to_dir_or"
  "succeeds dir_given_proto_missing_port_expands_to_tcp_udp_sctp"
  "succeeds not_and_or_pass_through_structurally"
  by (simp_all add: proto_and_dir_both_given_expands_to_nothing_def
      proto_given_dir_missing_expands_to_dir_or_def
      dir_given_proto_missing_port_expands_to_tcp_udp_sctp_def
      not_and_or_pass_through_structurally_def
      desugar_tests_run run cong: run_congs)

lemma addresses_pass:
  "succeeds dir_given_proto_missing_host_expands_to_ip_arp_rarp"
  "succeeds both_missing_is_the_full_cartesian_product" "succeeds bare_ipv6_host_is_ip6_only"
  by (simp_all add: dir_given_proto_missing_host_expands_to_ip_arp_rarp_def
      both_missing_is_the_full_cartesian_product_def bare_ipv6_host_is_ip6_only_def
      desugar_tests_run run cong: run_congs)

lemma ether_leaves_pass:
  "succeeds ether_leaves_pass_through_unexpanded"
  by (simp_all add: ether_leaves_pass_through_unexpanded_def
      desugar_tests_run run cong: run_congs)

lemma desugar_tests_pass: "list_all succeeds desugar_tests"
  by (simp add: desugar_tests_def qualifiers_pass addresses_pass ether_leaves_pass)

end
