(* ===== verification/CodegenTests.thy ===== *)
theory CodegenTests
  imports TestKit
begin

text \<open>The unit tests of \<open>src/codegen.rs\<close> (\<open>mod tests\<close>).\<close>

section \<open>The listing of symbolic code\<close>

definition SNAPLEN :: u32 where "SNAPLEN = 0xFFFFFFFF"

definition get_expanded :: "string \<Rightarrow> (unit, expanded_expr) result" where
  "get_expanded src =
     and_then (unwrap (lex (ascii src))) (\<lambda>tokens.
     and_then (unwrap (parse tokens)) (\<lambda>expr. unwrap (expand expr)))"

definition get_gen_on :: "link_type \<Rightarrow> string \<Rightarrow> (unit, ir_program) result" where
  "get_gen_on lt src = and_then (get_expanded src) (\<lambda>e. unwrap (generate e lt SNAPLEN))"

text \<open>The real instructions, without the marks.\<close>

fun ops :: "ir_op list \<Rightarrow> ir_op2 list" where
  "ops [] = []"
| "ops (Real i # rest) = ir_op2 i # ops rest"
| "ops (Mark l # rest) = ops rest"

text \<open>
  The loop of \<open>label_positions\<close>: an item out of the table and a label placed twice are panics.
\<close>

fun mark_positions :: "ir_op list \<Rightarrow> nat \<Rightarrow> nat option list \<Rightarrow> (unit, nat option list) result" where
  "mark_positions [] emitted pos = Ok pos"
| "mark_positions (Real i # its) emitted pos = mark_positions its (emitted + 1) pos"
| "mark_positions (Mark l # its) emitted pos =
     and_then (item pos (label_index l)) (\<lambda>seen.
       if seen = None then mark_positions its emitted (pos[label_index l := Some emitted])
       else Panic)"

definition label_positions :: "ir_program \<Rightarrow> (unit, nat option list) result" where
  "label_positions p = mark_positions (prog_stream p) 0 (replicate (prog_num_labels p) None)"

text \<open>The closure \<open>at\<close>: the instruction a label stands for.\<close>

definition target_at :: "nat option list \<Rightarrow> label \<Rightarrow> (unit, nat) result" where
  "target_at pos l = and_then (item pos (label_index l)) some"

definition jump_line ::
    "nat option list \<Rightarrow> string \<Rightarrow> u32 \<Rightarrow> label \<Rightarrow> label \<Rightarrow> (unit, string) result" where
  "jump_line pos name imm jt jf =
     and_then (target_at pos jt) (\<lambda>t.
     and_then (target_at pos jf) (\<lambda>f.
       Ok (name @ show_0x (unat imm) @ ''  jt '' @ show_dec t @ '' jf '' @ show_dec f)))"

fun op_line :: "nat option list \<Rightarrow> ir_op2 \<Rightarrow> (unit, string) result" where
  "op_line pos (IrLdhAbs k) = Ok (''ldh      ['' @ show_dec (unat k) @ '']'')"
| "op_line pos (IrLdbAbs k) = Ok (''ldb      ['' @ show_dec (unat k) @ '']'')"
| "op_line pos (IrLdwAbs k) = Ok (''ld       ['' @ show_dec (unat k) @ '']'')"
| "op_line pos (IrLdxMsh k) = Ok (''ldxb     4*(['' @ show_dec (unat k) @ '']&0xf)'')"
| "op_line pos (IrLdhInd k) = Ok (''ldh      [x + '' @ show_dec (unat k) @ '']'')"
| "op_line pos (IrAndK k) = Ok (''and      #'' @ show_0x (unat k))"
| "op_line pos (IrJeq imm jt jf) = jump_line pos ''jeq      #'' imm jt jf"
| "op_line pos (IrJgt imm jt jf) = jump_line pos ''jgt      #'' imm jt jf"
| "op_line pos (IrJge imm jt jf) = jump_line pos ''jge      #'' imm jt jf"
| "op_line pos (IrJset imm jt jf) = jump_line pos ''jset     #'' imm jt jf"
| "op_line pos (IrJmp target) =
     and_then (target_at pos target) (\<lambda>t. Ok (''ja       '' @ show_dec t))"
| "op_line pos (IrRet k) = Ok (''ret      #'' @ show_dec (unat k))"

fun op_lines :: "nat option list \<Rightarrow> nat \<Rightarrow> ir_op2 list \<Rightarrow> (unit, string list) result" where
  "op_lines pos i [] = Ok []"
| "op_lines pos i (op # rest) =
     and_then (op_line pos op) (\<lambda>line.
     and_then (op_lines pos (i + 1) rest) (\<lambda>lines.
       Ok ((''('' @ pad_left CHR ''0'' 3 (show_dec i) @ '') '' @ line) # lines)))"

definition render_ir :: "ir_program \<Rightarrow> (unit, string) result" where
  "render_ir p =
     and_then (label_positions p) (\<lambda>pos.
     and_then (op_lines pos 0 (ops (prog_stream p))) (\<lambda>lines. Ok (text_lines lines)))"

definition listing :: "link_type \<Rightarrow> string \<Rightarrow> (unit, string) result" where
  "listing lt src = and_then (get_gen_on lt src) render_ir"

section \<open>Pinned listings\<close>

definition tcp_port_80 :: test where
  "tcp_port_80 =
     assert_ok (listing Ethernet ''tcp port 80'')
       (text_lines
         [''(000) ldh      [12]'',
          ''(001) jeq      #0x800  jt 2 jf 11'',
          ''(002) ldb      [23]'',
          ''(003) jeq      #0x6  jt 4 jf 11'',
          ''(004) ldh      [20]'',
          ''(005) jset     #0x1fff  jt 11 jf 6'',
          ''(006) ldxb     4*([14]&0xf)'',
          ''(007) ldh      [x + 14]'',
          ''(008) jeq      #0x50  jt 19 jf 9'',
          ''(009) ldh      [x + 16]'',
          ''(010) jeq      #0x50  jt 19 jf 11'',
          ''(011) ldh      [12]'',
          ''(012) jeq      #0x86dd  jt 13 jf 20'',
          ''(013) ldb      [20]'',
          ''(014) jeq      #0x6  jt 15 jf 20'',
          ''(015) ldh      [54]'',
          ''(016) jeq      #0x50  jt 19 jf 17'',
          ''(017) ldh      [56]'',
          ''(018) jeq      #0x50  jt 19 jf 20'',
          ''(019) ret      #4294967295'',
          ''(020) ret      #0''])"

definition tcp_port_80_linux_sll :: test where
  "tcp_port_80_linux_sll =
     assert_ok (listing LinuxSll ''tcp port 80'')
       (text_lines
         [''(000) ldh      [14]'',
          ''(001) jeq      #0x800  jt 2 jf 11'',
          ''(002) ldb      [25]'',
          ''(003) jeq      #0x6  jt 4 jf 11'',
          ''(004) ldh      [22]'',
          ''(005) jset     #0x1fff  jt 11 jf 6'',
          ''(006) ldxb     4*([16]&0xf)'',
          ''(007) ldh      [x + 16]'',
          ''(008) jeq      #0x50  jt 19 jf 9'',
          ''(009) ldh      [x + 18]'',
          ''(010) jeq      #0x50  jt 19 jf 11'',
          ''(011) ldh      [14]'',
          ''(012) jeq      #0x86dd  jt 13 jf 20'',
          ''(013) ldb      [22]'',
          ''(014) jeq      #0x6  jt 15 jf 20'',
          ''(015) ldh      [56]'',
          ''(016) jeq      #0x50  jt 19 jf 17'',
          ''(017) ldh      [58]'',
          ''(018) jeq      #0x50  jt 19 jf 20'',
          ''(019) ret      #4294967295'',
          ''(020) ret      #0''])"

definition tcp_port_80_raw :: test where
  "tcp_port_80_raw =
     assert_ok (listing Raw ''tcp port 80'')
       (text_lines
         [''(000) ldb      [0]'',
          ''(001) and      #0xf0'',
          ''(002) jeq      #0x40  jt 3 jf 12'',
          ''(003) ldb      [9]'',
          ''(004) jeq      #0x6  jt 5 jf 12'',
          ''(005) ldh      [6]'',
          ''(006) jset     #0x1fff  jt 12 jf 7'',
          ''(007) ldxb     4*([0]&0xf)'',
          ''(008) ldh      [x + 0]'',
          ''(009) jeq      #0x50  jt 21 jf 10'',
          ''(010) ldh      [x + 2]'',
          ''(011) jeq      #0x50  jt 21 jf 12'',
          ''(012) ldb      [0]'',
          ''(013) and      #0xf0'',
          ''(014) jeq      #0x60  jt 15 jf 22'',
          ''(015) ldb      [6]'',
          ''(016) jeq      #0x6  jt 17 jf 22'',
          ''(017) ldh      [40]'',
          ''(018) jeq      #0x50  jt 21 jf 19'',
          ''(019) ldh      [42]'',
          ''(020) jeq      #0x50  jt 21 jf 22'',
          ''(021) ret      #4294967295'',
          ''(022) ret      #0''])"

definition ip6_src_host :: test where
  "ip6_src_host =
     assert_ok (listing Ethernet ''ip6 src host 2001:db8::1'')
       (text_lines
         [''(000) ldh      [12]'',
          ''(001) jeq      #0x86dd  jt 2 jf 11'',
          ''(002) ld       [22]'',
          ''(003) jeq      #0x20010db8  jt 4 jf 11'',
          ''(004) ld       [26]'',
          ''(005) jeq      #0x0  jt 6 jf 11'',
          ''(006) ld       [30]'',
          ''(007) jeq      #0x0  jt 8 jf 11'',
          ''(008) ld       [34]'',
          ''(009) jeq      #0x1  jt 10 jf 11'',
          ''(010) ret      #4294967295'',
          ''(011) ret      #0''])"

definition ip6_net_prefix_ending_inside_a_word :: test where
  "ip6_net_prefix_ending_inside_a_word =
     assert_ok (listing Ethernet ''ip6 dst net 2001:db8::/33'')
       (text_lines
         [''(000) ldh      [12]'',
          ''(001) jeq      #0x86dd  jt 2 jf 8'',
          ''(002) ld       [38]'',
          ''(003) jeq      #0x20010db8  jt 4 jf 8'',
          ''(004) ld       [42]'',
          ''(005) and      #0x80000000'',
          ''(006) jeq      #0x0  jt 7 jf 8'',
          ''(007) ret      #4294967295'',
          ''(008) ret      #0''])"

definition ip6_net_zero_prefix_matches_every_ipv6_packet :: test where
  "ip6_net_zero_prefix_matches_every_ipv6_packet =
     assert_ok (listing Ethernet ''ip6 src net ::/0'')
       (text_lines
         [''(000) ldh      [12]'',
          ''(001) jeq      #0x86dd  jt 2 jf 4'',
          ''(002) ja       3'',
          ''(003) ret      #4294967295'',
          ''(004) ret      #0''])"

definition ip6_host_on_raw_uses_the_version_nibble :: test where
  "ip6_host_on_raw_uses_the_version_nibble =
     assert_ok (listing Raw ''ip6 dst host ::1'')
       (text_lines
         [''(000) ldb      [0]'',
          ''(001) and      #0xf0'',
          ''(002) jeq      #0x60  jt 3 jf 12'',
          ''(003) ld       [24]'',
          ''(004) jeq      #0x0  jt 5 jf 12'',
          ''(005) ld       [28]'',
          ''(006) jeq      #0x0  jt 7 jf 12'',
          ''(007) ld       [32]'',
          ''(008) jeq      #0x0  jt 9 jf 12'',
          ''(009) ld       [36]'',
          ''(010) jeq      #0x1  jt 11 jf 12'',
          ''(011) ret      #4294967295'',
          ''(012) ret      #0''])"

definition ether_host_bidirectional_code :: test where
  "ether_host_bidirectional_code =
     assert_ok (listing Ethernet ''ether host aa:bb:cc:dd:ee:ff'')
       (text_lines
         [''(000) ld       [0]'',
          ''(001) jeq      #0xaabbccdd  jt 2 jf 4'',
          ''(002) ldh      [4]'',
          ''(003) jeq      #0xeeff  jt 8 jf 4'',
          ''(004) ld       [6]'',
          ''(005) jeq      #0xaabbccdd  jt 6 jf 9'',
          ''(006) ldh      [10]'',
          ''(007) jeq      #0xeeff  jt 8 jf 9'',
          ''(008) ret      #4294967295'',
          ''(009) ret      #0''])"

definition ether_proto_is_a_single_ethertype_check :: test where
  "ether_proto_is_a_single_ethertype_check =
     assert_ok (listing Ethernet ''ether proto ip6'')
       (text_lines
         [''(000) ldh      [12]'',
          ''(001) jeq      #0x86dd  jt 2 jf 3'',
          ''(002) ret      #4294967295'',
          ''(003) ret      #0''])"

definition ether_src_checks_one_direction_only :: test where
  "ether_src_checks_one_direction_only =
     each [''ether src aa:bb:cc:dd:ee:ff'', ''ether src host aa:bb:cc:dd:ee:ff'']
       (\<lambda>src. assert_ok (listing Ethernet src)
       (text_lines
         [''(000) ld       [6]'',
          ''(001) jeq      #0xaabbccdd  jt 2 jf 5'',
          ''(002) ldh      [10]'',
          ''(003) jeq      #0xeeff  jt 4 jf 5'',
          ''(004) ret      #4294967295'',
          ''(005) ret      #0'']))"

definition broadcast_checks_the_destination_mac :: test where
  "broadcast_checks_the_destination_mac =
     each [''broadcast'', ''ether broadcast'']
       (\<lambda>src. assert_ok (listing Ethernet src)
       (text_lines
         [''(000) ld       [0]'',
          ''(001) jeq      #0xffffffff  jt 2 jf 5'',
          ''(002) ldh      [4]'',
          ''(003) jeq      #0xffff  jt 4 jf 5'',
          ''(004) ret      #4294967295'',
          ''(005) ret      #0'']))"

definition multicast_checks_one_bit :: test where
  "multicast_checks_one_bit =
     each [''multicast'', ''ether multicast'']
       (\<lambda>src. assert_ok (listing Ethernet src)
       (text_lines
         [''(000) ldb      [0]'',
          ''(001) jset     #0x1  jt 2 jf 3'',
          ''(002) ret      #4294967295'',
          ''(003) ret      #0'']))"

section \<open>Listings looked into\<close>

definition ip6_net_prefix_on_a_word_boundary_needs_no_mask :: test where
  "ip6_net_prefix_on_a_word_boundary_needs_no_mask =
     and_then (listing Ethernet ''ip6 src net 2001:db8::/32'') (\<lambda>text.
     in_order
       [assert_that (\<not> contains text ''and''),
        assert_that (contains text ''ld       [22]''),
        assert_that (\<not> contains text ''[26]'')])"

definition ip6_net_full_prefix_equals_host :: test where
  "ip6_net_full_prefix_equals_host =
     and_then (listing Ethernet ''ip6 dst net ::1/128'') (\<lambda>net.
     and_then (listing Ethernet ''ip6 dst host ::1'') (\<lambda>host. assert_eq net host))"

definition bare_ip6_host_shares_the_ethertype_gate :: test where
  "bare_ip6_host_shares_the_ethertype_gate =
     and_then (listing Ethernet ''host ::1'') (\<lambda>text.
     in_order
       [assert_eq (count_matches ''ldh      [12]'' text) 1,
        assert_eq (count_matches ''#0x86dd'' text) 1,
        assert_that (contains text ''ld       [22]''),
        assert_that (contains text ''ld       [38]'')])"

definition ip6_host_on_linux_sll_shifts_by_two_bytes :: test where
  "ip6_host_on_linux_sll_shifts_by_two_bytes =
     and_then (listing LinuxSll ''ip6 src host ::1'') (\<lambda>text.
     in_order
       [assert_that
          (starts_with text (''(000) ldh      [14]'' @ [CHR 0x0A] @ ''(001) jeq      #0x86dd'')),
        assert_that (contains text ''ld       [24]'')])"

section \<open>Refused primitives\<close>

definition refused :: "link_type \<Rightarrow> string \<Rightarrow> test" where
  "refused lt src =
     and_then (get_expanded src) (\<lambda>exp.
     and_then (unwrap_err (generate exp lt SNAPLEN)) (\<lambda>err.
       assert_that (is_invalid_combination (err_tag err))))"

definition arp_host_is_rejected_on_raw :: test where
  "arp_host_is_rejected_on_raw =
     refused Raw ''arp host 10.0.0.1''"

definition ipv6_address_needs_the_ip6_protocol :: test where
  "ipv6_address_needs_the_ip6_protocol =
     each [''ip host ::1'', ''arp host ::1'', ''ip src net ::1/64''] (refused Ethernet)"

definition ip6_rejects_an_ipv4_address :: test where
  "ip6_rejects_an_ipv4_address =
     refused Ethernet ''ip6 host 1.2.3.4''"

definition arp_and_rarp_are_still_rejected_on_raw :: test where
  "arp_and_rarp_are_still_rejected_on_raw =
     refused Raw ''arp host 10.0.0.1''"

definition ether_primitives_need_real_ethernet_framing :: test where
  "ether_primitives_need_real_ethernet_framing =
     each
       [''ether host aa:bb:cc:dd:ee:ff'', ''broadcast'', ''multicast'', ''ether proto ip'']
       (\<lambda>src. each [LinuxSll, Raw] (\<lambda>lt. refused lt src))"

section \<open>They pass\<close>

lemmas codegen_tests_run =
  listing_def get_gen_on_def get_expanded_def SNAPLEN_def render_ir_def label_positions_def
  target_at_def jump_line_def refused_def

definition codegen_tests :: "test list" where
  "codegen_tests =
     [tcp_port_80, tcp_port_80_linux_sll, tcp_port_80_raw, ip6_src_host,
     ip6_net_prefix_ending_inside_a_word, ip6_net_zero_prefix_matches_every_ipv6_packet,
     ip6_host_on_raw_uses_the_version_nibble, ether_host_bidirectional_code,
     ether_proto_is_a_single_ethertype_check, ether_src_checks_one_direction_only,
     broadcast_checks_the_destination_mac, multicast_checks_one_bit,
     ip6_net_prefix_on_a_word_boundary_needs_no_mask, ip6_net_full_prefix_equals_host,
     bare_ip6_host_shares_the_ethertype_gate, ip6_host_on_linux_sll_shifts_by_two_bytes,
     arp_host_is_rejected_on_raw, ipv6_address_needs_the_ip6_protocol,
     ip6_rejects_an_ipv4_address, arp_and_rarp_are_still_rejected_on_raw,
     ether_primitives_need_real_ethernet_framing]"

lemma port_listings_pass:
  "succeeds tcp_port_80" "succeeds tcp_port_80_linux_sll" "succeeds tcp_port_80_raw"
  by (simp_all add: tcp_port_80_def tcp_port_80_linux_sll_def tcp_port_80_raw_def
      codegen_tests_run run cong: run_congs)

lemma ip6_listings_pass:
  "succeeds ip6_src_host" "succeeds ip6_net_prefix_ending_inside_a_word"
  "succeeds ip6_net_zero_prefix_matches_every_ipv6_packet"
  "succeeds ip6_host_on_raw_uses_the_version_nibble"
  by (simp_all add: ip6_src_host_def ip6_net_prefix_ending_inside_a_word_def
      ip6_net_zero_prefix_matches_every_ipv6_packet_def
      ip6_host_on_raw_uses_the_version_nibble_def
      codegen_tests_run run cong: run_congs)

lemma ether_listings_pass:
  "succeeds ether_host_bidirectional_code" "succeeds ether_src_checks_one_direction_only"
  "succeeds broadcast_checks_the_destination_mac" "succeeds multicast_checks_one_bit"
  "succeeds ether_proto_is_a_single_ethertype_check"
  by (simp_all add: ether_host_bidirectional_code_def ether_src_checks_one_direction_only_def
      broadcast_checks_the_destination_mac_def multicast_checks_one_bit_def
      ether_proto_is_a_single_ethertype_check_def
      codegen_tests_run run cong: run_congs)

lemma ip6_masks_pass:
  "succeeds ip6_net_prefix_on_a_word_boundary_needs_no_mask"
  "succeeds ip6_net_full_prefix_equals_host"
  by (simp_all add: ip6_net_prefix_on_a_word_boundary_needs_no_mask_def ip6_net_full_prefix_equals_host_def
      codegen_tests_run run cong: run_congs)

lemma ip6_shape_pass:
  "succeeds bare_ip6_host_shares_the_ethertype_gate"
  "succeeds ip6_host_on_linux_sll_shifts_by_two_bytes"
  by (simp_all add: bare_ip6_host_shares_the_ethertype_gate_def ip6_host_on_linux_sll_shifts_by_two_bytes_def
      codegen_tests_run run cong: run_congs)

lemma refusals_pass:
  "succeeds arp_host_is_rejected_on_raw" "succeeds ipv6_address_needs_the_ip6_protocol"
  "succeeds ip6_rejects_an_ipv4_address" "succeeds arp_and_rarp_are_still_rejected_on_raw"
  by (simp_all add: arp_host_is_rejected_on_raw_def ipv6_address_needs_the_ip6_protocol_def
      ip6_rejects_an_ipv4_address_def arp_and_rarp_are_still_rejected_on_raw_def
      codegen_tests_run run cong: run_congs)

lemma ether_refusals_pass:
  "succeeds ether_primitives_need_real_ethernet_framing"
  by (simp_all add: ether_primitives_need_real_ethernet_framing_def
      codegen_tests_run run cong: run_congs)

lemma codegen_tests_pass: "list_all succeeds codegen_tests"
  by (simp add: codegen_tests_def port_listings_pass ip6_listings_pass ether_listings_pass ip6_masks_pass ip6_shape_pass
      refusals_pass ether_refusals_pass)

end
