(* ===== verification/BackpatchTests.thy ===== *)
theory BackpatchTests
  imports TestKit
begin

text \<open>The unit tests of \<open>src/backpatch.rs\<close> (\<open>mod tests\<close>).\<close>

definition resolves_a_simple_forward_jump :: test where
  "resolves_a_simple_forward_jump =
     (let b = new_builder;
          (jt, b) = new_label b;
          (jf, b) = new_label b;
          b = emit (IrJeq 80 jt jf) (Range 0 1) b;
          b = emit (IrLdbAbs 0) (Range 0 1) b;
          b = place jt b;
          b = emit (IrRet 1) (Range 0 1) b;
          b = place jf b;
          b = emit (IrRet 0) (Range 0 1) b
      in and_then (unwrap (assemble (finish b))) (\<lambda>insns. assert_ok (item insns 0) (jeq 80 1 2)))"

definition displacement_of_exactly_255_succeeds :: test where
  "displacement_of_exactly_255_succeeds =
     (let b = new_builder;
          (jt, b) = new_label b;
          (jf, b) = new_label b;
          b = emit (IrJeq 1 jt jf) (Range 0 1) b;
          b = place jf b;
          b = (emit (IrLdbAbs 0) (Range 0 1) ^^ 255) b;
          b = place jt b;
          b = emit (IrRet 1) (Range 0 1) b
      in and_then (unwrap (assemble (finish b))) (\<lambda>insns. assert_ok (item insns 0) (jeq 1 255 0)))"

definition displacement_of_256_is_a_compile_error :: test where
  "displacement_of_256_is_a_compile_error =
     (let b = new_builder;
          (jt, b) = new_label b;
          (jf, b) = new_label b;
          ofs = Range 5 9;
          b = emit (IrJeq 1 jt jf) ofs b;
          b = place jt b;
          b = (emit (IrLdbAbs 0) (Range 0 1) ^^ 256) b;
          b = place jf b;
          b = emit (IrRet 0) (Range 0 1) b
      in and_then (unwrap_err (assemble (finish b))) (\<lambda>err.
         in_order
           [assert_eq (err_offset err) ofs,
            assert_eq (err_tag err) (JumpDisplacementOverflow 0 256)]))"

definition multi_label_or_chain_shape :: test where
  "multi_label_or_chain_shape =
     (let b = new_builder;
          (accept, b) = new_label b;
          (reject, b) = new_label b;
          (mid, b) = new_label b;
          b = emit (IrJeq 1 accept mid) (Range 0 1) b;
          b = place mid b;
          b = emit (IrJeq 2 accept reject) (Range 0 1) b;
          b = place accept b;
          b = emit (IrRet (- 1)) (Range 0 1) b;
          b = place reject b;
          b = emit (IrRet 0) (Range 0 1) b
      in and_then (unwrap (assemble (finish b))) (\<lambda>insns.
         in_order
           [assert_ok (item insns 0) (jeq 1 1 0), assert_ok (item insns 1) (jeq 2 0 1)]))"

definition unconditional_jump_uses_k_not_jt_jf :: test where
  "unconditional_jump_uses_k_not_jt_jf =
     (let b = new_builder;
          (target, b) = new_label b;
          b = emit (IrJmp target) (Range 0 1) b;
          b = emit (IrLdbAbs 0) (Range 0 1) b;
          b = place target b;
          b = emit (IrRet 0) (Range 0 1) b
      in and_then (unwrap (assemble (finish b))) (\<lambda>insns. assert_ok (item insns 0) (jmp 1)))"

section \<open>Long stretches of one instruction\<close>

lemma emit_repeat:
  "(emit op ofs ^^ n) b =
     b\<lparr>stream := stream b @ replicate n (Real \<lparr>ir_op2 = op, ir_offset = ofs\<rparr>)\<rparr>"
  by (induction n) (simp_all add: emit_def replicate_append_same)

lemma pass_a_repeat:
  "pass_a (replicate n (Real i) @ its) offsets real = pass_a its offsets (real @ replicate n i)"
  by (induction n arbitrary: real) simp_all

lemma pass_b_repeat:
  "pass_b idx (replicate n \<lparr>ir_op2 = IrLdbAbs v, ir_offset = ofs\<rparr> @ is) offsets =
     and_then (pass_b (idx + n) is offsets) (\<lambda>is'. Ok (replicate n (ldb_abs v) @ is'))"
  by (induction n arbitrary: idx) (simp_all add: lower_def and_then_assoc)

lemmas assemble_run =
  assemble_def lower_def resolve_pair_def resolve_branch_def resolve_jmp_def displacement_from_def

lemmas builder_run = new_label_def emit_def place_def finish_def new_builder_def Let_def

lemma short_jumps_pass:
  "succeeds resolves_a_simple_forward_jump" "succeeds multi_label_or_chain_shape"
  "succeeds unconditional_jump_uses_k_not_jt_jf"
  by (simp_all add: resolves_a_simple_forward_jump_def multi_label_or_chain_shape_def
      unconditional_jump_uses_k_not_jt_jf_def assemble_run run cong: run_congs)

lemma long_jumps_pass:
  "succeeds displacement_of_exactly_255_succeeds" "succeeds displacement_of_256_is_a_compile_error"
  by (simp_all add: displacement_of_exactly_255_succeeds_def
      displacement_of_256_is_a_compile_error_def emit_repeat builder_run assemble_run pass_a_repeat
      pass_b_repeat get_def item_def assert_ok_def assert_eq_def assert_that_def new_error_def)

definition backpatch_tests :: "test list" where
  "backpatch_tests =
     [resolves_a_simple_forward_jump, displacement_of_exactly_255_succeeds,
      displacement_of_256_is_a_compile_error, multi_label_or_chain_shape,
      unconditional_jump_uses_k_not_jt_jf]"

lemma backpatch_tests_pass: "list_all succeeds backpatch_tests"
  by (simp add: backpatch_tests_def short_jumps_pass long_jumps_pass)

end
