(* ===== verification/RunTests.thy ===== *)
theory RunTests
  imports TestKit Attach
begin

text \<open>
  The unit tests of \<open>src/insn.rs\<close>, \<open>src/vm.rs\<close>, \<open>src/program.rs\<close> and \<open>src/linktype.rs\<close>, and of
  \<open>src/attach/mod.rs\<close> those two that need no open socket.
\<close>

section \<open>Instructions\<close>

definition matches_tcpdump_format :: test where
  "matches_tcpdump_format =
     each
       [(ldh_abs 12, 0, ''(000) ldh      [12]''),
        (jeq 0x800 1 6, 1, ''(001) jeq      #0x800           jt 3'' @ [CHR 0x09] @ ''jf 8''),
        (ldb_abs 23, 2, ''(002) ldb      [23]''),
        (ldx_msh 14, 3, ''(003) ldxb     4*([14]&0xf)''),
        (ldh_ind 14, 4, ''(004) ldh      [x + 14]''),
        (ldw_abs 26, 9, ''(009) ld       [26]''),
        (and_k 0xffffff00, 10, ''(010) and      #0xffffff00''),
        (jset 0x1fff 0 3, 5, ''(005) jset     #0x1fff          jt 6'' @ [CHR 0x09] @ ''jf 9''),
        (jmp 2, 6, ''(006) ja       9''),
        (ret KEEP_WHOLE_PACKET, 7, ''(007) ret      #0xffffffff''),
        (ret 0, 8, ''(008) ret      #0x0'')]
       (\<lambda>(insn, index, expected). assert_eq (fmt_insn insn index) expected)"

section \<open>The interpreter\<close>

definition ret_k_is_raw_and_unclamped :: test where
  "ret_k_is_raw_and_unclamped =
     in_order
       [assert_eq (Vm.run [ret KEEP_WHOLE_PACKET] [1, 2, 3]) KEEP_WHOLE_PACKET,
        assert_eq (Vm.run [ret 9999] [1, 2, 3]) 9999]"

definition ret_zero_rejects :: test where
  "ret_zero_rejects = assert_eq (Vm.run [ret 0] [1, 2, 3]) 0"

definition out_of_bounds_abs_load_rejects_without_panicking :: test where
  "out_of_bounds_abs_load_rejects_without_panicking =
     assert_eq (Vm.run [ldh_abs 100, ret KEEP_WHOLE_PACKET] [1, 2, 3]) 0"

definition out_of_bounds_ind_load_rejects_without_panicking :: test where
  "out_of_bounds_ind_load_rejects_without_panicking =
     assert_eq (Vm.run [ldh_ind 9999, ret KEEP_WHOLE_PACKET] [1, 2, 3]) 0"

definition jump_past_end_of_program_rejects_without_panicking :: test where
  "jump_past_end_of_program_rejects_without_panicking = assert_eq (Vm.run [jmp 50] []) 0"

definition unknown_opcode_rejects_without_panicking :: test where
  "unknown_opcode_rejects_without_panicking = assert_eq (Vm.run [mk_insn 0xffff 0 0 0] []) 0"

definition ldx_msh_extracts_ip_header_length :: test where
  "ldx_msh_extracts_ip_header_length =
     (let packet = (replicate 22 0)[14 := 0x45, 20 := 0x00, 21 := 0x50];
          insns = [ldx_msh 14, ldh_ind 0, jeq 80 0 1, ret KEEP_WHOLE_PACKET, ret 0]
      in assert_eq (Vm.run insns packet) KEEP_WHOLE_PACKET)"

definition conditional_jump_targets_are_relative_to_the_next_instruction :: test where
  "conditional_jump_targets_are_relative_to_the_next_instruction =
     (let insns = [ldb_abs 0, jeq 5 0 1, ret 1, ret 2]
      in in_order [assert_eq (Vm.run insns [5]) 1, assert_eq (Vm.run insns [6]) 2])"

section \<open>Programs\<close>

definition matches_is_sugar_for_run_nonzero :: test where
  "matches_is_sugar_for_run_nonzero =
     in_order
       [assert_that (program_matches (from_validated [ret KEEP_WHOLE_PACKET]) [1, 2, 3]),
        assert_that (\<not> program_matches (from_validated [ret 0]) [1, 2, 3])]"

definition display_joins_instructions_with_newlines :: test where
  "display_joins_instructions_with_newlines =
     assert_eq (display (from_validated [ldh_abs 12, ret KEEP_WHOLE_PACKET]))
       (''(000) ldh      [12]'' @ [CHR 0x0A] @ ''(001) ret      #0xffffffff'')"

section \<open>Link types\<close>

definition dlt_roundtrips :: test where
  "dlt_roundtrips =
     each [Ethernet, LinuxSll, Raw] (\<lambda>lt. assert_eq (from_dlt (to_dlt lt)) (Some lt))"

definition unknown_dlt_is_none :: test where
  "unknown_dlt_is_none = assert_eq (from_dlt 0xffff) None"

definition ethernet_has_an_ethertype_field :: test where
  "ethernet_has_an_ethertype_field =
     assert_that (info_ethertype_offset (l3_offset_info Ethernet) \<noteq> None)"

section \<open>Attaching\<close>

definition accept_payload_a :: program where
  "accept_payload_a =
     from_validated
       [ldb_abs 8, jeq (of_nat (of_char CHR ''A'')) 0 1, ret KEEP_WHOLE_PACKET, ret 0]"

text \<open>\<open>EBADF\<close> is one more constant of the C library.\<close>

definition invalid_fd_is_reported_as_an_os_error :: "('s, 'x) libc_scheme \<Rightarrow> c_int \<Rightarrow> 's \<Rightarrow> test" where
  "invalid_fd_is_reported_as_an_os_error c EBADF s =
     and_then (unwrap_err (fst (attach c (- 1) accept_payload_a s)))
       (\<lambda>err. assert_eq err (OsError EBADF))"

fun is_invalid_input :: "io_error \<Rightarrow> bool" where
  "is_invalid_input (InvalidInput _) = True"
| "is_invalid_input (OsError _) = False"

definition program_longer_than_u16_max_is_rejected_before_the_syscall ::
    "('s, 'x) libc_scheme \<Rightarrow> 's \<Rightarrow> test" where
  "program_longer_than_u16_max_is_rejected_before_the_syscall c s =
     and_then (unwrap_err (fst (attach c (- 1) (from_validated (replicate 65536 (ret 0))) s)))
       (\<lambda>err. assert_that (is_invalid_input err))"

section \<open>Listings by lines\<close>

fun fmt_lines :: "nat \<Rightarrow> insn list \<Rightarrow> string list" where
  "fmt_lines index [] = []"
| "fmt_lines index (i # is) = fmt_insn i index # fmt_lines (index + 1) is"

lemma display_from_Suc: "display_from (Suc index) is = concat (map ((#) CHR 0x0A) (fmt_lines (Suc index) is))"
  by (induction "is" arbitrary: index) simp_all

lemma join_lines_Cons: "join_lines (l # ls) = l @ concat (map ((#) CHR 0x0A) ls)"
  by (induction ls arbitrary: l) simp_all

lemma display_lines: "display \<lparr>prog_insns = insns\<rparr> = join_lines (fmt_lines 0 insns)"
  by (cases insns) (simp_all add: display_def display_from_Suc join_lines_Cons)

section \<open>They pass\<close>

lemmas listing_run = fmt_insn_def is_conditional_jump_def describe_def pad_right_def
  KEEP_WHOLE_PACKET_def display_def from_validated_def

lemmas vm_run =
  Vm.run_def vm_init_def vm_loop.simps vm_step_def load_a_def read_u8_def read_u16_def read_u32_def
  checked_add_def usize_limit_def get_range_def branch_def step_def program_matches_def program_run_def

lemma insn_tests_pass: "succeeds matches_tcpdump_format"
  by (simp add: matches_tcpdump_format_def listing_run run cong: run_congs)

lemma vm_tests_pass:
  "succeeds ret_k_is_raw_and_unclamped" "succeeds ret_zero_rejects"
  "succeeds out_of_bounds_abs_load_rejects_without_panicking"
  "succeeds out_of_bounds_ind_load_rejects_without_panicking"
  "succeeds jump_past_end_of_program_rejects_without_panicking"
  by (simp_all add: ret_k_is_raw_and_unclamped_def ret_zero_rejects_def
      out_of_bounds_abs_load_rejects_without_panicking_def
      out_of_bounds_ind_load_rejects_without_panicking_def
      jump_past_end_of_program_rejects_without_panicking_def KEEP_WHOLE_PACKET_def vm_run run
      cong: run_congs)

lemma vm_unknown_test_passes: "succeeds unknown_opcode_rejects_without_panicking"
  by (simp add: unknown_opcode_rejects_without_panicking_def mk_insn_def decode_def bpf_fields
      vm_run run cong: run_congs)

lemma vm_step_tests_pass:
  "succeeds ldx_msh_extracts_ip_header_length"
  "succeeds conditional_jump_targets_are_relative_to_the_next_instruction"
  by (simp_all add: ldx_msh_extracts_ip_header_length_def
      conditional_jump_targets_are_relative_to_the_next_instruction_def KEEP_WHOLE_PACKET_def
      vm_run run cong: run_congs)

lemma program_tests_pass:
  "succeeds matches_is_sugar_for_run_nonzero" "succeeds display_joins_instructions_with_newlines"
  by (simp_all add: matches_is_sugar_for_run_nonzero_def display_joins_instructions_with_newlines_def
      listing_run vm_run run cong: run_congs)

lemma linktype_tests_pass:
  "succeeds dlt_roundtrips" "succeeds unknown_dlt_is_none" "succeeds ethernet_has_an_ethertype_field"
  by (simp_all add: dlt_roundtrips_def unknown_dlt_is_none_def ethernet_has_an_ethertype_field_def from_dlt_def run cong: run_congs)

lemma attach_test_passes: "succeeds (program_longer_than_u16_max_is_rejected_before_the_syscall c s)"
  by (simp add: program_longer_than_u16_max_is_rejected_before_the_syscall_def attach_too_long instructions_def from_validated_def assert_that_def)

definition run_tests :: "test list" where
  "run_tests =
     [matches_tcpdump_format, ret_k_is_raw_and_unclamped, ret_zero_rejects,
      out_of_bounds_abs_load_rejects_without_panicking,
      out_of_bounds_ind_load_rejects_without_panicking,
      jump_past_end_of_program_rejects_without_panicking, unknown_opcode_rejects_without_panicking,
      ldx_msh_extracts_ip_header_length,
      conditional_jump_targets_are_relative_to_the_next_instruction,
      matches_is_sugar_for_run_nonzero, display_joins_instructions_with_newlines,
      dlt_roundtrips, unknown_dlt_is_none, ethernet_has_an_ethertype_field]"

lemma run_tests_pass: "list_all succeeds run_tests"
  by (simp add: run_tests_def insn_tests_pass vm_tests_pass vm_unknown_test_passes
      vm_step_tests_pass program_tests_pass linktype_tests_pass)

end
