(* ===== verification/BlackBox.thy ===== *)
theory BlackBox
  imports RunTests CodegenTests Frames PortChain
begin

text \<open>
  The black-box tests of the public interface, \<open>tests/black_box.rs\<close>: listings, decisions on hand-made
  packets and errors of \<open>compile\<close>.
\<close>

section \<open>Scripts of packets\<close>

text \<open>
  \<open>packet[i] = v\<close>, \<open>packet[i..j].copy_from_slice(..)\<close> and \<open>.fill(..)\<close> are writes of bytes at a position; a
  range that is not inside the packet is a panic.
\<close>

fun poke :: "(nat \<times> u8 list) list \<Rightarrow> packet \<Rightarrow> (unit, packet) result" where
  "poke [] packet = Ok packet"
| "poke ((i, bytes) # ws) packet =
     and_then (copy_into i (i + length bytes) bytes packet) (poke ws)"

text \<open>Writes to one packet, each followed by an assertion that the program matches it or not.\<close>

fun checks :: "program \<Rightarrow> ((nat \<times> u8 list) list \<times> bool) list \<Rightarrow> packet \<Rightarrow> test" where
  "checks program [] packet = Ok ()"
| "checks program ((ws, expected) # cs) packet =
     and_then (poke ws packet) (\<lambda>packet.
     and_then (assert_that (program_matches program packet = expected)) (\<lambda>_.
       checks program cs packet))"

definition must_compile :: "link_type \<Rightarrow> string \<Rightarrow> (unit, program) result" where
  "must_compile lt src = unwrap (compile (ascii src) lt KEEP_WHOLE_PACKET)"

definition on_packet ::
    "link_type \<Rightarrow> string \<Rightarrow> nat \<Rightarrow> ((nat \<times> u8 list) list \<times> bool) list \<Rightarrow> test" where
  "on_packet lt src n cs =
     and_then (must_compile lt src) (\<lambda>program. checks program cs (replicate n 0))"

definition compile_err :: "link_type \<Rightarrow> string \<Rightarrow> (unit, compile_error) result" where
  "compile_err lt src = unwrap_err (compile (ascii src) lt KEEP_WHOLE_PACKET)"

text \<open>\<open>&src[err.offset]\<close> on an ASCII source.\<close>

definition blamed :: "string \<Rightarrow> compile_error \<Rightarrow> (unit, string) result" where
  "blamed src err = some (get_range src (off_start (err_offset err)) (off_end (err_offset err)))"

definition fails_at :: "string \<Rightarrow> (error_tag \<Rightarrow> bool) \<Rightarrow> string \<Rightarrow> test" where
  "fails_at src matches text =
     and_then (compile_err Ethernet src) (\<lambda>err.
     in_order [assert_that (matches (err_tag err)), assert_ok (blamed src err) text])"

definition combination_err :: "link_type \<Rightarrow> string \<Rightarrow> test" where
  "combination_err lt src =
     and_then (compile_err lt src) (\<lambda>err. assert_that (is_invalid_combination (err_tag err)))"

section \<open>A listing\<close>

definition tcp_port_80_simple :: test where
  "tcp_port_80_simple =
     and_then (must_compile Ethernet ''tcp port 80'') (\<lambda>program.
     assert_eq (display program)
       (join_lines
         [''(000) ldh      [12]'',
          ''(001) jeq      #0x800           jt 2'' @ [CHR 0x09] @ ''jf 11'',
          ''(002) ldb      [23]'',
          ''(003) jeq      #0x6             jt 4'' @ [CHR 0x09] @ ''jf 11'',
          ''(004) ldh      [20]'',
          ''(005) jset     #0x1fff          jt 11'' @ [CHR 0x09] @ ''jf 6'',
          ''(006) ldxb     4*([14]&0xf)'',
          ''(007) ldh      [x + 14]'',
          ''(008) jeq      #0x50            jt 19'' @ [CHR 0x09] @ ''jf 9'',
          ''(009) ldh      [x + 16]'',
          ''(010) jeq      #0x50            jt 19'' @ [CHR 0x09] @ ''jf 11'',
          ''(011) ldh      [12]'',
          ''(012) jeq      #0x86dd          jt 13'' @ [CHR 0x09] @ ''jf 20'',
          ''(013) ldb      [20]'',
          ''(014) jeq      #0x6             jt 15'' @ [CHR 0x09] @ ''jf 20'',
          ''(015) ldh      [54]'',
          ''(016) jeq      #0x50            jt 19'' @ [CHR 0x09] @ ''jf 17'',
          ''(017) ldh      [56]'',
          ''(018) jeq      #0x50            jt 19'' @ [CHR 0x09] @ ''jf 20'',
          ''(019) ret      #0xffffffff'',
          ''(020) ret      #0x0'']))"

section \<open>Ports\<close>

definition tcp_port_80_bidir :: test where
  "tcp_port_80_bidir =
     on_packet Ethernet ''tcp port 80'' 40
       [([(12, [0x08]), (13, [0x00]), (14, [0x45]), (23, [6]), (20, [0x00]), (21, [0x00]),
          (34, [0x00]), (35, [80]), (36, [0x00]), (37, [1])], True),
        ([(35, [2]), (37, [80])], True),
        ([(37, [81])], False)]"

definition fragmented_packets_never_match_a_port_primitive :: test where
  "fragmented_packets_never_match_a_port_primitive =
     on_packet Ethernet ''udp port 53'' 40
       [([(12, [0x08]), (13, [0x00]), (14, [0x45]), (23, [17]), (20, [0x00]), (21, [0x20]),
          (34, [0x00]), (35, [53])], False)]"

definition boolean_connectives_and_parens :: test where
  "boolean_connectives_and_parens =
     on_packet Ethernet ''(tcp port 80 or tcp port 443) and not net 10.0.0.0/8'' 40
       [([(12, [0x08]), (13, [0x00]), (14, [0x45]), (23, [6]), (26, [192, 168, 1, 1]),
          (34, [0x00]), (35, [80]), (36, u16_to_be_bytes 12345)], True),
        ([(26, [10, 1, 2, 3])], False)]"

definition portrange_accepts_the_inclusive_bounds_and_rejects_outside :: test where
  "portrange_accepts_the_inclusive_bounds_and_rejects_outside =
     on_packet Ethernet ''portrange 8000-8008'' 40
       [([(12, [0x08]), (13, [0x00]), (14, [0x45]), (23, [6]), (20, [0]), (21, [0]),
          (34, u16_to_be_bytes 8000), (36, [0]), (37, [1])], True),
        ([(34, u16_to_be_bytes 8004), (36, [0]), (37, [1])], True),
        ([(34, u16_to_be_bytes 8008), (36, [0]), (37, [1])], True),
        ([(34, u16_to_be_bytes 7999), (36, u16_to_be_bytes 1)], False)]"

definition linux_sll_tcp_port_80 :: test where
  "linux_sll_tcp_port_80 =
     and_then (must_compile LinuxSll ''tcp port 80'') (\<lambda>program.
     and_then (poke [(14, [0x08]), (15, [0x00]), (16, [0x45]), (25, [6]), (36, [0x00]), (37, [80]),
                     (38, [0x00]), (39, [1])] (replicate 42 0)) (\<lambda>packet.
     in_order
       [checks program
          [([], True), ([(37, [2]), (39, [80])], True), ([(39, [81])], False)] packet,
        and_then (must_compile Ethernet ''tcp port 80'') (\<lambda>ethernet.
          checks ethernet [([(37, [2]), (39, [80])], False)] packet)]))"

definition raw_tcp_port_80 :: test where
  "raw_tcp_port_80 =
     on_packet Raw ''tcp port 80'' 28
       [([(0, [0x45]), (9, [6]), (20, [0x00]), (21, [80]), (22, [0x00]), (23, [1])], True),
        ([(21, [2]), (23, [80])], True),
        ([(23, [81])], False)]"

section \<open>Addresses\<close>

definition ip_host_matches_src_or_dst_by_default :: test where
  "ip_host_matches_src_or_dst_by_default =
     on_packet Ethernet ''ip host 10.0.0.1'' 34
       [([(12, [0x08]), (13, [0x00]), (14, [0x45]), (26, [10, 0, 0, 1])], True),
        ([(26, [0, 0, 0, 0]), (30, [10, 0, 0, 1])], True),
        ([(30, [9, 9, 9, 9])], False)]"

definition net_prefix_masks_the_address :: test where
  "net_prefix_masks_the_address =
     on_packet Ethernet ''net 10.0.0.0/8'' 34
       [([(12, [0x08]), (13, [0x00]), (26, [10, 250, 1, 2])], True),
        ([(26, [11, 0, 0, 1])], False)]"

definition linux_sll_host_matches_the_address :: test where
  "linux_sll_host_matches_the_address =
     on_packet LinuxSll ''ip src host 10.0.0.1'' 36
       [([(14, [0x08]), (15, [0x00]), (28, [10, 0, 0, 1])], True),
        ([(31, [2])], False)]"

definition raw_host_matches_the_address :: test where
  "raw_host_matches_the_address =
     on_packet Raw ''ip dst host 10.0.0.1'' 20
       [([(0, [0x45]), (16, [10, 0, 0, 1])], True),
        ([(19, [2])], False)]"

definition inside :: "u8 list" where
  "inside = [0x20, 0x01, 0x0d, 0xb8, 0x7f, 0xff, 0, 0, 0, 0, 0, 0, 0, 0, 0, 1]"

definition outside :: "u8 list" where
  "outside = [0x20, 0x01, 0x0d, 0xb8, 0x80, 0x00, 0, 0, 0, 0, 0, 0, 0, 0, 0, 1]"

definition ipv6_net_matches_the_prefix :: test where
  "ipv6_net_matches_the_prefix =
     on_packet Ethernet ''net 2001:db8::/33'' 54
       [([(12, [0x86]), (13, [0xdd]), (22, inside), (38, outside)], True),
        ([(22, outside), (38, inside)], True),
        ([(38, outside)], False),
        ([(22, inside), (12, [0x08]), (13, [0x00])], False)]"

definition ipv6_host_matches_src_or_dst_by_default :: test where
  "ipv6_host_matches_src_or_dst_by_default =
     and_then (ipv6_octets ''2001:db8::1'') (\<lambda>addr.
     on_packet Ethernet ''host 2001:db8::1'' 54
       [([(12, [0x86]), (13, [0xdd]), (22, addr)], True),
        ([(22, replicate 16 0), (38, addr)], True),
        ([(53, [addr ! 15 XOR 1])], False)])"

definition ipv6_host_on_linux_sll :: test where
  "ipv6_host_on_linux_sll =
     on_packet LinuxSll ''ip6 src host ::1'' (16 + 40)
       [([(14, [0x86]), (15, [0xdd]), (16 + 8 + 15, [1])], True),
        ([(16 + 8 + 15, [2])], False)]"

definition ip6_host_matches_on_raw :: test where
  "ip6_host_matches_on_raw =
     and_then (must_compile Raw ''ip6 host ::1'') (\<lambda>program.
     in_order
       [checks program [([(0, [0x60]), (6, [58]), (23, [1])], True)] (replicate 40 0),
        checks program [([(0, [0x45]), (19, [1])], False)] (replicate 20 0)])"

section \<open>Link-layer primitives\<close>

definition ether_host_matches_src_or_dst :: test where
  "ether_host_matches_src_or_dst =
     on_packet Ethernet ''ether host aa:bb:cc:dd:ee:ff'' 14
       [([(0, [0xaa, 0xbb, 0xcc, 0xdd, 0xee, 0xff])], True),
        ([(0, replicate 6 0), (6, [0xaa, 0xbb, 0xcc, 0xdd, 0xee, 0xff])], True),
        ([(6, [0xff])], False)]"

definition ether_src_and_dst_check_one_direction_only :: test where
  "ether_src_and_dst_check_one_direction_only =
     and_then (must_compile Ethernet ''ether src aa:bb:cc:dd:ee:ff'') (\<lambda>src_only.
     and_then (must_compile Ethernet ''ether dst aa:bb:cc:dd:ee:ff'') (\<lambda>dst_only.
     and_then (poke [(6, [0xaa, 0xbb, 0xcc, 0xdd, 0xee, 0xff])] (replicate 14 0)) (\<lambda>packet.
     in_order [checks src_only [([], True)] packet, checks dst_only [([], False)] packet])))"

definition broadcast_matches_only_the_all_ones_destination :: test where
  "broadcast_matches_only_the_all_ones_destination =
     on_packet Ethernet ''broadcast'' 14
       [([(0, replicate 6 0xff)], True),
        ([(5, [0xfe])], False)]"

definition multicast_matches_the_bit_including_broadcast :: test where
  "multicast_matches_the_bit_including_broadcast =
     on_packet Ethernet ''multicast'' 14
       [([(0, [0x01])], True),
        ([(0, replicate 6 0xff)], True),
        ([(0, [0x02])], False)]"

definition ether_proto_matches_by_ethertype_alone :: test where
  "ether_proto_matches_by_ethertype_alone =
     on_packet Ethernet ''ether proto ip6'' 14
       [([(12, u16_to_be_bytes 0x86dd)], True),
        ([(12, u16_to_be_bytes 0x0800)], False)]"

definition ether_primitives_compose_with_and_or_not :: test where
  "ether_primitives_compose_with_and_or_not =
     on_packet Ethernet ''ether proto ip and not broadcast'' 34
       [([(12, u16_to_be_bytes 0x0800)], True),
        ([(0, replicate 6 0xff)], False)]"

section \<open>Errors\<close>

definition unbalanced_parens_report_an_error :: test where
  "unbalanced_parens_report_an_error =
     and_then (compile_err Ethernet ''(tcp port 80'') (\<lambda>err. assert_eq (err_tag err) UnbalancedParens)"

definition invalid_ipv4_literal_reports_a_offset :: test where
  "invalid_ipv4_literal_reports_a_offset =
     fails_at ''host 999.1.1.1'' (\<lambda>tag. tag = InvalidIPv4Literal ''999.1.1.1'') ''999.1.1.1''"

definition invalid_ipv6_literal_reports_an_offset :: test where
  "invalid_ipv6_literal_reports_an_offset =
     fails_at ''host 1::2::3'' is_invalid_ipv6 ''1::2::3''"

definition invalid_mac_literal_reports_an_offset :: test where
  "invalid_mac_literal_reports_an_offset =
     fails_at ''ether host aa:bb:cc:dd:ee'' is_invalid_mac ''aa:bb:cc:dd:ee''"

definition invalid_ether_proto_reports_an_offset :: test where
  "invalid_ether_proto_reports_an_offset =
     fails_at ''ether proto notaproto'' is_invalid_ethertype ''notaproto''"

definition port_on_a_non_transport_protocol_is_rejected :: test where
  "port_on_a_non_transport_protocol_is_rejected =
     combination_err Ethernet ''arp port 80''"

definition arp_is_rejected_on_raw :: test where
  "arp_is_rejected_on_raw =
     combination_err Raw ''arp host 10.0.0.1''"

definition arp_is_still_rejected_on_raw :: test where
  "arp_is_still_rejected_on_raw =
     combination_err Raw ''arp host 10.0.0.1''"

definition ipv6_address_with_an_ipv4_protocol_is_rejected :: test where
  "ipv6_address_with_an_ipv4_protocol_is_rejected =
     each [''ip host ::1'', ''ip6 host 1.2.3.4'', ''tcp host ::1''] (combination_err Ethernet)"

definition ether_primitives_are_rejected_on_linux_sll_and_raw :: test where
  "ether_primitives_are_rejected_on_linux_sll_and_raw =
     each [LinuxSll, Raw] (\<lambda>lt. combination_err lt ''broadcast'')"

definition a_sufficiently_large_or_chain_overflows_jump_displacement :: test where
  "a_sufficiently_large_or_chain_overflows_jump_displacement =
     (let filter = join_with '' or '' (map (\<lambda>i. ''port '' @ show_dec (1000 + i)) [0..<200])
      in and_then (compile_err Ethernet filter) (\<lambda>err. assert_that (is_jump_overflow (err_tag err))))"

section \<open>They pass\<close>

lemmas black_box_tests_run =
  on_packet_def must_compile_def compile_err_def blamed_def fails_at_def combination_err_def compile_def
  assemble_def lower_def resolve_pair_def resolve_branch_def resolve_jmp_def displacement_from_def
  KEEP_WHOLE_PACKET_def from_validated_def copy_into_def u16_to_be_bytes_def ipv6_octets_def
  vm_run

definition black_box_tests :: "test list" where
  "black_box_tests =
     [tcp_port_80_simple, tcp_port_80_bidir, fragmented_packets_never_match_a_port_primitive,
     boolean_connectives_and_parens, portrange_accepts_the_inclusive_bounds_and_rejects_outside,
     linux_sll_tcp_port_80, raw_tcp_port_80, ip_host_matches_src_or_dst_by_default,
     net_prefix_masks_the_address, linux_sll_host_matches_the_address,
     raw_host_matches_the_address, ipv6_net_matches_the_prefix,
     ipv6_host_matches_src_or_dst_by_default, ipv6_host_on_linux_sll, ip6_host_matches_on_raw,
     ether_host_matches_src_or_dst, ether_src_and_dst_check_one_direction_only,
     broadcast_matches_only_the_all_ones_destination,
     multicast_matches_the_bit_including_broadcast, ether_proto_matches_by_ethertype_alone,
     ether_primitives_compose_with_and_or_not, unbalanced_parens_report_an_error,
     invalid_ipv4_literal_reports_a_offset, invalid_ipv6_literal_reports_an_offset,
     invalid_mac_literal_reports_an_offset, invalid_ether_proto_reports_an_offset,
     port_on_a_non_transport_protocol_is_rejected, arp_is_rejected_on_raw,
     arp_is_still_rejected_on_raw, ipv6_address_with_an_ipv4_protocol_is_rejected,
     ether_primitives_are_rejected_on_linux_sll_and_raw,
     a_sufficiently_large_or_chain_overflows_jump_displacement]"

lemma listing_passes:
  "succeeds tcp_port_80_simple"
  by (simp_all add: tcp_port_80_simple_def
      display_lines fmt_insn_def is_conditional_jump_def describe_def
      pad_right_def black_box_tests_run run cong: run_congs)

lemma port_decisions_pass:
  "succeeds tcp_port_80_bidir" "succeeds fragmented_packets_never_match_a_port_primitive"
  by (simp_all add: tcp_port_80_bidir_def fragmented_packets_never_match_a_port_primitive_def
      black_box_tests_run run cong: run_congs)

lemma boolean_decisions_pass:
  "succeeds boolean_connectives_and_parens"
  by (simp_all add: boolean_connectives_and_parens_def
      black_box_tests_run run cong: run_congs)

lemma portrange_decisions_pass:
  "succeeds portrange_accepts_the_inclusive_bounds_and_rejects_outside"
  by (simp_all add: portrange_accepts_the_inclusive_bounds_and_rejects_outside_def
      word_le_nat_alt black_box_tests_run run cong: run_congs)

lemma other_links_pass:
  "succeeds linux_sll_tcp_port_80" "succeeds raw_tcp_port_80"
  by (simp_all add: linux_sll_tcp_port_80_def raw_tcp_port_80_def
      black_box_tests_run run cong: run_congs)

lemma ipv4_decisions_pass:
  "succeeds ip_host_matches_src_or_dst_by_default" "succeeds net_prefix_masks_the_address"
  "succeeds linux_sll_host_matches_the_address" "succeeds raw_host_matches_the_address"
  by (simp_all add: ip_host_matches_src_or_dst_by_default_def net_prefix_masks_the_address_def
      linux_sll_host_matches_the_address_def raw_host_matches_the_address_def
      black_box_tests_run run cong: run_congs)

lemma ipv6_net_passes:
  "succeeds ipv6_net_matches_the_prefix"
  by (simp_all add: ipv6_net_matches_the_prefix_def
      inside_def outside_def black_box_tests_run run cong: run_congs)

lemma ipv6_hosts_pass:
  "succeeds ipv6_host_matches_src_or_dst_by_default" "succeeds ipv6_host_on_linux_sll"
  "succeeds ip6_host_matches_on_raw"
  by (simp_all add: ipv6_host_matches_src_or_dst_by_default_def ipv6_host_on_linux_sll_def
      ip6_host_matches_on_raw_def
      black_box_tests_run run cong: run_congs)

lemma mac_decisions_pass:
  "succeeds ether_host_matches_src_or_dst" "succeeds ether_src_and_dst_check_one_direction_only"
  "succeeds broadcast_matches_only_the_all_ones_destination"
  by (simp_all add: ether_host_matches_src_or_dst_def ether_src_and_dst_check_one_direction_only_def
      broadcast_matches_only_the_all_ones_destination_def
      black_box_tests_run run cong: run_congs)

lemma ether_decisions_pass:
  "succeeds multicast_matches_the_bit_including_broadcast"
  "succeeds ether_proto_matches_by_ethertype_alone"
  "succeeds ether_primitives_compose_with_and_or_not"
  by (simp_all add: multicast_matches_the_bit_including_broadcast_def ether_proto_matches_by_ethertype_alone_def
      ether_primitives_compose_with_and_or_not_def
      black_box_tests_run run cong: run_congs)

lemma blamed_texts_pass:
  "succeeds unbalanced_parens_report_an_error" "succeeds invalid_ipv4_literal_reports_a_offset"
  "succeeds invalid_ipv6_literal_reports_an_offset" "succeeds invalid_mac_literal_reports_an_offset"
  "succeeds invalid_ether_proto_reports_an_offset"
  by (simp_all add: unbalanced_parens_report_an_error_def invalid_ipv4_literal_reports_a_offset_def
      invalid_ipv6_literal_reports_an_offset_def invalid_mac_literal_reports_an_offset_def
      invalid_ether_proto_reports_an_offset_def
      black_box_tests_run run cong: run_congs)

lemma refused_combinations_pass:
  "succeeds port_on_a_non_transport_protocol_is_rejected" "succeeds arp_is_rejected_on_raw"
  "succeeds arp_is_still_rejected_on_raw" "succeeds ipv6_address_with_an_ipv4_protocol_is_rejected"
  "succeeds ether_primitives_are_rejected_on_linux_sll_and_raw"
  by (simp_all add: port_on_a_non_transport_protocol_is_rejected_def arp_is_rejected_on_raw_def
      arp_is_still_rejected_on_raw_def ipv6_address_with_an_ipv4_protocol_is_rejected_def
      ether_primitives_are_rejected_on_linux_sll_and_raw_def
      black_box_tests_run run cong: run_congs)

lemma huge_chain_passes: "succeeds a_sufficiently_large_or_chain_overflows_jump_displacement"
proof -
  let ?ns = "map (\<lambda>i. of_nat (1000 + i) :: u16) [0..<200]"
  have "port_text (of_nat (1000 + i)) = ''port '' @ show_dec (1000 + i)" if "i < 200" for i
    using unat_of_nat_u16 [of "1000 + i"] that by (simp add: port_text_def del: of_nat_add)
  then have "map (\<lambda>i. ''port '' @ show_dec (1000 + i)) [0..<200] = map port_text ?ns"
    by (simp del: of_nat_add)
  then have chain: "join_with '' or '' (map (\<lambda>i. ''port '' @ show_dec (1000 + i)) [0..<200]) = port_chain ?ns"
    by (simp only: port_chain_def)
  have "length (port_chain ?ns) < max_source"
    using length_port_chain [of ?ns] by (simp add: max_source_def)
  then obtain ofs i d where "compile (ascii (port_chain ?ns)) Ethernet KEEP_WHOLE_PACKET =
      Err (new_error ofs (JumpDisplacementOverflow i d))"
    using port_chain_overflows [of ?ns Ethernet KEEP_WHOLE_PACKET] by auto
  then show ?thesis
    by (simp only: a_sufficiently_large_or_chain_overflows_jump_displacement_def chain Let_def compile_err_def)
      (simp add: new_error_def assert_that_def)
qed

lemma black_box_tests_pass: "list_all succeeds black_box_tests"
  by (simp add: black_box_tests_def listing_passes port_decisions_pass boolean_decisions_pass portrange_decisions_pass
      other_links_pass ipv4_decisions_pass ipv6_net_passes ipv6_hosts_pass mac_decisions_pass
      ether_decisions_pass blamed_texts_pass refused_combinations_pass huge_chain_passes)

end
