(* ===== verification/SymbolicListing.thy ===== *)
theory SymbolicListing
  imports CodegenTests GenerateCorrect Assembler Overflow
begin

text \<open>
  The listing in which the tests of the code generator pin its output shows the program that is
  assembled from it: it never fails on generated code, and resolves every label to the instruction
  the displacements of the assembled program lead to.
\<close>

section \<open>Positions of labels\<close>

lemma ops_reals: "ops its = map ir_op2 (reals its)"
  by (induction its rule: ops.induct) simp_all

lemma mark_positions_keeps:
  "mark_positions its n pos = Ok pos' \<Longrightarrow> l \<notin> set (mark_list its) \<Longrightarrow>
     get pos' (label_index l) = get pos (label_index l)"
proof (induction its n pos arbitrary: pos' rule: mark_positions.induct)
  case (3 m its n pos)
  then have run: "mark_positions its n (pos[label_index m := Some n]) = Ok pos'"
    and other: "label_index m \<noteq> label_index l" "l \<notin> set (mark_list its)"
    and seen: "item pos (label_index m) = Ok None"
    by (auto simp: label_index_inject split: if_splits)
  then have "get pos' (label_index l) = get (pos[label_index m := Some n]) (label_index l)"
    using "3.IH" [OF seen refl run] by simp
  with other show ?case by (simp add: get_def)
qed auto

lemma mark_positions_total:
  "distinct (mark_list its) \<Longrightarrow>
   (\<forall>l \<in> set (mark_list its). get pos (label_index l) = Some None) \<Longrightarrow>
     \<exists>pos'. mark_positions its n pos = Ok pos' \<and>
       (\<forall>l \<in> set (mark_list its). get pos' (label_index l) = Some (Some (n + target_index its l)))"
proof (induction its n pos rule: mark_positions.induct)
  case (1 n pos)
  then show ?case by simp
next
  case (2 i its n pos)
  then show ?case by (fastforce simp: target_index_def)
next
  case (3 m its n pos)
  let ?pos = "pos[label_index m := Some n]"
  have m: "get pos (label_index m) = Some None" and fresh: "m \<notin> set (mark_list its)"
    using "3.prems" by auto
  have "\<forall>l \<in> set (mark_list its). get ?pos (label_index l) = Some None"
    using "3.prems" fresh by (auto simp: get_def nth_list_update label_index_inject split: if_splits)
  moreover have "item pos (label_index m) = Ok None" using m by (simp add: item_def)
  ultimately obtain pos' where pos': "mark_positions its n ?pos = Ok pos'"
      "\<forall>l \<in> set (mark_list its). get pos' (label_index l) = Some (Some (n + target_index its l))"
    using "3.IH" [of None] "3.prems" by auto
  have "get pos' (label_index m) = Some (Some n)"
    using mark_positions_keeps [OF pos'(1) fresh] m by (auto simp: get_def split: if_splits)
  then show ?case
    using pos' \<open>item pos (label_index m) = Ok None\<close> fresh by (auto simp: target_index_def)
qed

lemma label_positions_placed:
  assumes "labels_placed_once p"
  shows "\<exists>pos. label_positions p = Ok pos \<and>
    (\<forall>l \<in> set (mark_list (prog_stream p)).
       target_at pos l = Ok (target_index (prog_stream p) l))"
proof -
  have "\<forall>l \<in> set (mark_list (prog_stream p)).
      get (replicate (prog_num_labels p) (None :: nat option)) (label_index l) = Some None"
    using assms by (auto simp: labels_placed_once_def get_def)
  then show ?thesis
    using mark_positions_total [of "prog_stream p" "replicate (prog_num_labels p) None" 0] assms
    by (fastforce simp: label_positions_def labels_placed_once_def target_at_def item_def)
qed

lemma scoped_targets:
  "scoped {} its \<Longrightarrow> i \<in> set (reals its) \<Longrightarrow> targets (ir_op2 i) \<subseteq> set (mark_list its)"
  by (induction its rule: reals.induct) auto

section \<open>Lines\<close>

text \<open>
  The line of an assembled instruction: as the listing of a program has it, but with single spaces
  before the targets and the result of \<open>ret\<close> in decimal.
\<close>

definition resolved_line :: "nat \<Rightarrow> insn \<Rightarrow> string" where
  "resolved_line index i =
     (case describe i index of (mnemonic, operand) \<Rightarrow>
        pad_right 8 mnemonic @ '' '' @
        (case decode i of Ret v \<Rightarrow> ''#'' @ show_dec (unat v) | _ \<Rightarrow> operand) @
        (if is_conditional_jump i
         then ''  jt '' @ show_dec (Vm.branch index i True) @ '' jf '' @ show_dec (Vm.branch index i False)
         else []))"

lemma jump_line_resolved:
  assumes "\<And>l. l \<in> {t, f} \<Longrightarrow>
      target_at pos l = Ok (goal l) \<and> get offsets (label_index l) = Some (Some (of_nat (goal l))) \<and>
      goal l < 2 ^ 32"
    and "resolve_pair j t f offsets ofs mk = Ok insn"
  shows "\<exists>dt df. insn = mk dt df \<and> jump_line pos name imm t f =
    Ok (name @ show_0x (unat imm) @ ''  jt '' @ show_dec (j + 1 + unat dt) @
      '' jf '' @ show_dec (j + 1 + unat df))"
proof -
  obtain dt df where d: "resolve_branch j t offsets ofs = Ok dt" "resolve_branch j f offsets ofs = Ok df"
      "insn = mk dt df"
    using assms(2) by (auto simp: resolve_pair_def)
  moreover have "j + 1 + unat dt = goal t"
    using resolve_branch_Ok [OF d(1)] assms(1) [of t] by simp
  moreover have "j + 1 + unat df = goal f"
    using resolve_branch_Ok [OF d(2)] assms(1) [of f] by simp
  ultimately show ?thesis
    using assms(1) by (intro exI [of _ dt] exI [of _ df]) (simp add: jump_line_def)
qed

lemmas line_steps =
  resolved_line_def describe_def is_conditional_jump_def pad_right_def show_0x_def Vm.branch_def
  replicate_numeral_run

lemma resolved_jumps:
  "resolved_line j (jeq v t f) =
     ''jeq      #'' @ show_0x (unat v) @ ''  jt '' @ show_dec (j + 1 + unat t) @
     '' jf '' @ show_dec (j + 1 + unat f)"
  "resolved_line j (jgt v t f) =
     ''jgt      #'' @ show_0x (unat v) @ ''  jt '' @ show_dec (j + 1 + unat t) @
     '' jf '' @ show_dec (j + 1 + unat f)"
  "resolved_line j (jge v t f) =
     ''jge      #'' @ show_0x (unat v) @ ''  jt '' @ show_dec (j + 1 + unat t) @
     '' jf '' @ show_dec (j + 1 + unat f)"
  "resolved_line j (jset v t f) =
     ''jset     #'' @ show_0x (unat v) @ ''  jt '' @ show_dec (j + 1 + unat t) @
     '' jf '' @ show_dec (j + 1 + unat f)"
  by (simp_all add: line_steps)

lemma lower_line:
  assumes "lower j i offsets = Ok insn"
    and "\<And>l. l \<in> targets (ir_op2 i) \<Longrightarrow>
      target_at pos l = Ok (goal l) \<and> get offsets (label_index l) = Some (Some (of_nat (goal l))) \<and>
      goal l < 2 ^ 32"
  shows "op_line pos (ir_op2 i) = Ok (resolved_line j insn)"
proof -
  have jump: "jump_line pos name imm t f = Ok (resolved_line j insn)"
    if pair: "resolve_pair j t f offsets (ir_offset i) mk = Ok insn"
      and "targets (ir_op2 i) = {t, f}"
      and line: "\<And>dt df. resolved_line j (mk dt df) =
        name @ show_0x (unat imm) @ ''  jt '' @ show_dec (j + 1 + unat dt) @
        '' jf '' @ show_dec (j + 1 + unat df)" for name imm t f mk
    using jump_line_resolved [OF _ pair, of pos goal name imm] assms(2) that(2) line by metis
  show ?thesis
  proof (cases "ir_op2 i")
    case (IrJmp t)
    then obtain d where d: "resolve_jmp j t offsets = Ok d" "insn = jmp d"
      using assms(1) by (auto simp: lower_def)
    moreover have "j + 1 + unat d = goal t"
      using resolve_jmp_Ok [OF d(1)] assms(2) [of t] IrJmp by simp
    ultimately show ?thesis using assms(2) [of t] IrJmp by (simp add: line_steps)
  qed (use assms(1) in \<open>simp_all add: lower_def jump resolved_jumps, auto simp: line_steps\<close>)
qed

section \<open>The whole listing\<close>

definition numbered :: "nat \<Rightarrow> string \<Rightarrow> string" where
  "numbered index line = ''('' @ pad_left CHR ''0'' 3 (show_dec index) @ '') '' @ line"

definition resolved_listing :: "insn list \<Rightarrow> string" where
  "resolved_listing insns =
     text_lines (map (\<lambda>(index, i). numbered index (resolved_line index i)) (enumerate 0 insns))"

lemma op_lines_Ok:
  assumes "length os = length insns"
    and "\<And>j. j < length os \<Longrightarrow> op_line pos (os ! j) = Ok (resolved_line (n + j) (insns ! j))"
  shows "op_lines pos n os =
    Ok (map (\<lambda>(index, i). numbered index (resolved_line index i)) (enumerate n insns))"
  using assms
proof (induction os arbitrary: n insns)
  case Nil
  then show ?case by simp
next
  case (Cons op os)
  then obtain i "is" where insns: "insns = i # is" "length os = length is" by (cases insns) auto
  have "op_line pos op = Ok (resolved_line n i)" using Cons.prems(2) [of 0] insns by simp
  moreover have "op_lines pos (n + 1) os =
      Ok (map (\<lambda>(index, i). numbered index (resolved_line index i)) (enumerate (n + 1) is))"
    using Cons.prems(2) [of "Suc _"] insns by (intro Cons.IH) simp_all
  ultimately show ?case using insns(1) by (simp add: numbered_def)
qed

lemma render_assembled:
  assumes "wf_program p" and "small_program p" and "assemble p = Ok insns"
  shows "render_ir p = Ok (resolved_listing insns)"
proof -
  let ?its = "prog_stream p"
  obtain offsets where a: "assembled ?its offsets insns"
    using assemble_assembled [OF assms] by blast
  obtain pos where pos: "label_positions p = Ok pos"
      "\<And>l. l \<in> set (mark_list ?its) \<Longrightarrow> target_at pos l = Ok (target_index ?its l)"
    using label_positions_placed [of p] assms(1) unfolding wf_program_def by blast
  have "op_line pos (ir_op2 (reals ?its ! j)) = Ok (resolved_line j (insns ! j))"
    if j: "j < length insns" for j
  proof (rule lower_line)
    show "lower j (reals ?its ! j) offsets = Ok (insns ! j)"
      using a j by (simp add: assembled_def)
    fix l assume "l \<in> targets (ir_op2 (reals ?its ! j))"
    moreover have "reals ?its ! j \<in> set (reals ?its)" using a j by (simp add: assembled_def)
    ultimately have l: "l \<in> set (mark_list ?its)" using a by (auto simp: assembled_def dest: scoped_targets)
    show "target_at pos l = Ok (target_index ?its l) \<and>
        get offsets (label_index l) = Some (Some (of_nat (target_index ?its l))) \<and> target_index ?its l < 2 ^ 32"
      using pos(2) [OF l] a l target_index_le [of ?its l] by (auto simp: assembled_def table_ok_def)
  qed
  then have "op_lines pos 0 (ops ?its) =
      Ok (map (\<lambda>(index, i). numbered index (resolved_line index i)) (enumerate 0 insns))"
    using a by (intro op_lines_Ok) (simp_all add: ops_reals assembled_def)
  then show ?thesis using pos(1) by (simp add: render_ir_def resolved_listing_def)
qed

end
