(* ===== verification/Spec2Isabelle.thy ===== *)
theory Spec2Isabelle
  imports
    Prelude RustStd Errors Lexer Ast Parser Desugar Linktype Insn Vm Irep Backpatch Codegen Program Attach
    IrSem Assembler Eval Emit CodegenCorrect GenerateCorrect DesugarCorrect ParserCorrect LexerCorrect
    Grammar WordFacts PacketSpec VmCorrect Literals CompileCorrect Validated Examples
    Printing Spans Located Overflow Dump RustText Host Frames FramesCorrect Cases CodeSize KernelDiff
    KernelDiffCorrect DiffExample PortChain TestKit LexerTests ParserTests DesugarTests CodegenTests
    BackpatchTests RunTests BlackBox SymbolicListing
begin

text \<open>
  A verification library for \<open>cbpf-rs\<close>, a compiler from pcap-filter expressions to classic BPF
  programs, with an interpreter for the programs it makes.

  \<^bold>\<open>The program and its model.\<close> \<open>compile\<close> in \<open>src/lib.rs\<close> (theory \<open>Program\<close>) passes a source text
  through five stages. The theories below hold the model, one per source file, each definition with
  the name of the item it translates:
    \<^item> \<open>Errors\<close> (\<open>src/error.rs\<close>): offsets, error tags, \<open>CompileError\<close> and its \<open>Display\<close> text;
    \<^item> \<open>Lexer\<close> (\<open>src/lexer.rs\<close>): \<open>lex\<close>, from characters to tokens with byte ranges;
    \<^item> \<open>Ast\<close> (\<open>src/ast.rs\<close>) and \<open>Parser\<close> (\<open>src/parser.rs\<close>): \<open>parse\<close>, from tokens to \<open>expr\<close>;
    \<^item> \<open>Desugar\<close> (\<open>src/desugar.rs\<close>): \<open>expand\<close>, which fills in omitted protocols and directions;
    \<^item> \<open>Linktype\<close> (\<open>src/linktype.rs\<close>), \<open>Irep\<close> (\<open>src/irep.rs\<close>) and \<open>Codegen\<close> (\<open>src/codegen.rs\<close>):
      \<open>generate\<close>, from expanded expressions to instructions with symbolic labels;
    \<^item> \<open>Backpatch\<close> (\<open>src/backpatch.rs\<close>): \<open>assemble\<close>, from labels to displacements;
    \<^item> \<open>Insn\<close> (\<open>src/insn.rs\<close>), \<open>Vm\<close> (\<open>src/vm.rs\<close>) and \<open>Program\<close> (\<open>src/program.rs\<close>): instructions, their
      listing, the interpreter and the finished program;
    \<^item> \<open>Attach\<close> (\<open>src/attach/mod.rs\<close>): handing a program to a Linux socket;
    \<^item> \<open>Dump\<close> (\<open>examples/cbpf_dump.rs\<close>): the command-line helper that prints listings and errors;
    \<^item> \<open>Frames\<close> and \<open>KernelDiff\<close> (\<open>examples/kernel_diff.rs\<close>): the test program that attaches a compiled
      program and the one \<open>tcpdump -ddd\<close> prints to two raw sockets, sends hand-made frames and compares.
  \<open>Prelude\<close> and \<open>RustStd\<close> hold machine integers, results and the parts of Rust's standard library the
  code calls (slices, UTF-8 lengths, number parsing and printing, \<open>split\<close>, the IPv6 address parser);
  \<open>RustText\<close> adds what the programs under \<open>examples/\<close> need (reading UTF-8, lines, words, integers with the
  reason of a failure), and \<open>Host\<close> their effects: system calls and printing in state-passing style.

  \<^bold>\<open>How the model reads the code.\<close> A fallible function returns \<open>Ok\<close>, \<open>Err\<close>, \<open>Panic\<close> (a failed
  \<open>expect\<close>, index, \<open>unreachable!\<close>, \<open>debug_assert!\<close> or checked arithmetic of a debug build) or \<open>Diverge\<close>
  (fuel exhausted). \<open>&mut\<close> state is passed through and returned: the parser's position, the builder
  inside the generator's \<open>Ctx\<close>, the interpreter's registers. Field values are words of the width of the
  code; \<open>usize\<close> positions and the label counter are natural numbers, with \<open>checked_add\<close> against
  \<open>2 ^ 64\<close> where the code calls it. A source is a list of Unicode scalar values with byte positions in
  UTF-8. The recursion of the parser runs on fuel \<open>4 * length toks + 4\<close>, proved to be enough (\<open>parser_total\<close>);
  the interpreter's and the tokenizer's loops terminate by a measure.

  \<^bold>\<open>The proofs.\<close>
    \<^item> \<open>IrSem\<close> gives symbolic code a meaning; \<open>Assembler\<close> proves that assembling preserves it and when
      it fails.
    \<^item> \<open>Eval\<close> is a three-valued evaluation of expressions on packets (a read outside the packet decides
      nothing); \<open>Emit\<close>, \<open>CodegenCorrect\<close> and \<open>GenerateCorrect\<close> prove that generated code computes it, of
      linear size, and exactly when generation is refused; \<open>CodeSize\<close> gives the exact number of
      instructions for every expression and link type; \<open>DesugarCorrect\<close> carries this to source trees.
    \<^item> \<open>PacketSpec\<close> says what an expression means of a packet's header fields, as numbers, and that the
      evaluation agrees; \<open>WordFacts\<close> has the arithmetic of masks, nibbles and prefixes.
    \<^item> \<open>LexerCorrect\<close>, \<open>ParserCorrect\<close> and \<open>Grammar\<close> relate the tokenizer and the parser to declarative
      descriptions; \<open>Literals\<close> has the round trips of numbers and addresses, and \<open>Printing\<close> that of
      whole expressions: a printer, and the proof that tokenizer and parser invert it.
    \<^item> \<open>Spans\<close> and \<open>Located\<close> prove where errors point: byte ranges of the tree, of the instructions and of
      the errors of every stage are stretches of the source. \<open>Overflow\<close> says exactly when jumps get too long.
    \<^item> \<open>VmCorrect\<close> treats the interpreter as a transition system; \<open>Validated\<close> has the kernel's checks on
      programs and what they ensure.
    \<^item> \<open>CompileCorrect\<close> composes the stages through the interfaces \<open>tokenizer\<close>, \<open>code_generator\<close>,
      \<open>assembler\<close> and \<open>back_end\<close>, interpreted on the stages of \<open>compile\<close>; \<open>CodegenCorrect\<close> has the interface
      \<open>terminal\<close> for the five final comparisons. \<open>Examples\<close> evaluates four concrete compilations.
    \<^item> \<open>FramesCorrect\<close> and \<open>Cases\<close> say what compiled filters decide on the frames of \<open>kernel_diff\<close>;
      \<open>KernelDiffCorrect\<close> specifies the socket calls on a loopback interface and proves, by rules of total
      correctness for effects (\<open>achieves\<close> in \<open>Host\<close>), what the whole program does there; \<open>DiffExample\<close> is a
      concrete system of that kind.
    \<^item> \<open>TestKit\<close> has what the repository's tests use, and the equations (the collection \<open>run\<close>, with weak
      congruence rules as the evaluation strategy) by which the simplifier runs a closed compilation;
      \<open>LexerTests\<close>, \<open>ParserTests\<close>, \<open>DesugarTests\<close>, \<open>CodegenTests\<close>, \<open>BackpatchTests\<close> and \<open>RunTests\<close> translate the
      unit tests of the source files, \<open>BlackBox\<close> those of \<open>tests/black_box.rs\<close>, and prove that the model
      passes them: a check of the model against the expectations of the authors of the code.
      \<open>SymbolicListing\<close> relates the listing the tests pin to assembled programs; \<open>PortChain\<close> reads chains of
      primitives of any length, for the test whose source has 200 of them.

  \<^bold>\<open>Bounds.\<close> Theorems about whole compilations ask for fewer than \<open>2 ^ 22\<close> characters (\<open>max_source\<close>):
  each character is at most one primitive, each primitive at most six after expansion, each of these at
  most 41 instructions and labels, so no counter reaches \<open>2 ^ 32\<close>. Statements over header fields ask for
  a packet of 80 bytes (\<open>long_enough\<close>): the largest link-layer header, the largest IPv4 header and the
  ports.

  \<^bold>\<open>Not modelled.\<close> The call stack is unbounded in the model, so a source nested so deeply that the
  recursion of the real parser would exhaust it is outside the theorems; so is running out of memory. The C
  library, the kernel and \<open>tcpdump\<close> are arguments of \<open>attach\<close> and of the definitions of \<open>KernelDiff\<close>; what the
  theorems need of them is a named hypothesis. Of the tests, those that need real sockets, files or an
  installed \<open>tcpdump\<close> are not modelled: three of \<open>src/attach/mod.rs\<close> and \<open>tests/differential.rs\<close>.
\<close>

section \<open>The compiler as a whole\<close>

text \<open>
  C1. A compiled program, run on any packet, returns the snapshot length when the parsed expression
  is true of the packet, and 0 when it is false or when a read it needs lies outside the packet.
  \<open>source_eval\<close> evaluates the source tree itself, from left to right and with every primitive over its
  default protocols and directions; nothing of the code generator is in it.
\<close>

theorem compile_correct:
  assumes "length src < max_source" and "lex src = Ok toks" and "parse toks = Ok e"
    and "compile src lt snaplen = Ok prog"
  shows "program_run prog p = verdict snaplen (source_eval (mk_ctx lt) e p)"
  by (rule compile_run [OF assms])

theorem compile_correct_witness:
  "\<forall>p. program_run (from_validated port_insns) p =
     verdict 100 (source_eval (mk_ctx Ethernet) (EPrimitive port_primitive) p)"
  using compile_correct [OF small_port lex_port_src parse_port_tokens compile_port_src] by blast

text \<open>
  C2. On a packet that holds every header field a filter can look at (80 bytes), a compiled program
  returns the snapshot length exactly when the packet is one the expression describes: \<open>says\<close> is
  stated over the header fields of the protocols as numbers, without reference to the compiler.
\<close>

theorem compile_meaning:
  assumes "length src < max_source" and "lex src = Ok toks" and "parse toks = Ok e"
    and "compile src lt snaplen = Ok prog" and "long_enough p"
  shows "program_run prog p = (if says lt e p then snaplen else 0)"
  by (rule compile_says [OF assms])

theorem compile_meaning_witness:
  "program_run (from_validated port_insns) tcp80_packet = 100"
  using compile_meaning [OF small_port lex_port_src parse_port_tokens compile_port_src tcp80_long]
    tcp80_says by simp

text \<open>
  C3. Compilation always returns: for every source of fewer than \<open>2 ^ 22\<close> characters it gives a
  program or an error; no panic, no overflow of the label counter, no endless recursion.
\<close>

theorem compile_total:
  assumes "length src < max_source"
  shows "returns (compile src lt snaplen)"
  by (rule compile_returns [OF assms])

theorem compile_total_witness: "returns (compile multicast_src Raw 0)"
  by (rule compile_total [OF small_multicast])

text \<open>
  C4. What a parsed source compiles to: the error of its leftmost primitive that has no code on the
  link type; if there is none, the error of the first conditional jump whose displacement exceeds a
  byte; and otherwise a program. It fails in no other way.
\<close>

theorem compile_outcome:
  assumes "length src < max_source" and "lex src = Ok toks" and "parse toks = Ok e"
  shows "case source_refusal lt e of
      Some err \<Rightarrow> compile src lt snaplen = Err err
    | None \<Rightarrow>
        (\<exists>x ir. expand e = Ok x \<and> generate x lt snaplen = Ok ir \<and>
           (case overflow_of ir of
              Some err \<Rightarrow> compile src lt snaplen = Err err
            | None \<Rightarrow> is_ok (compile src lt snaplen)))"
  by (rule compile_parsed_outcome [OF assms])

theorem compile_outcome_witness:
  "compile multicast_src LinuxSll 100 = Err (refuse (Range 0 15) NeedsEthernet)"
  using compile_outcome [OF small_multicast lex_multicast parse_multicast, of LinuxSll 100] by simp

text \<open>
  C5. Every compiled program passes the checks a kernel makes before it runs a filter: it is not
  empty, it ends in a return, every opcode is known, every jump lands inside.
\<close>

theorem compile_validated:
  assumes "length src < max_source" and "compile src lt snaplen = Ok prog"
  shows "valid_program (prog_insns prog)"
  by (rule compile_valid [OF assms])

theorem compile_validated_witness: "valid_program (prog_insns (from_validated port_insns))"
  by (rule compile_validated [OF small_port compile_port_src])

text \<open>
  C6. Every error of a compilation points into the source: its byte range is ordered and ends within
  the source; and unless the tokenizer failed, it cuts a run of whole characters out of the source, so
  slicing the source at the range succeeds. This includes the errors of the code generator and of the
  assembler, whose instructions carry the ranges of the primitives they were made for.
\<close>

theorem errors_point_into_source:
  assumes "compile src lt snaplen = Err err"
  shows "off_start (err_offset err) \<le> off_end (err_offset err) \<and> off_end (err_offset err) \<le> str_len src \<and>
    (is_ok (lex src) \<longrightarrow>
       (\<exists>a s b. src = a @ s @ b \<and> err_offset err = Range (str_len a) (str_len a + str_len s) \<and>
          get_range (utf8 src) (off_start (err_offset err)) (off_end (err_offset err)) = Some (utf8 s)))"
  using compile_error_bounds [OF assms] compile_blames [OF _ assms] in_source_slice
  by (metis is_ok_Ok offset.collapse)

theorem errors_point_into_source_witness:
  "\<exists>a s b. multicast_src = a @ s @ b \<and> Range 0 15 = Range (str_len a) (str_len a + str_len s)"
proof -
  have "compile multicast_src LinuxSll 100 = Err (refuse (Range 0 15) NeedsEthernet)"
    using compile_parsed_outcome [OF small_multicast lex_multicast parse_multicast, of LinuxSll 100] by simp
  from errors_point_into_source [OF this] lex_multicast show ?thesis by (auto simp: refuse_def)
qed

text \<open>
  C7. Printing and compiling: the text of any well-formed expression is tokenized and parsed to the same
  tree, up to byte ranges, whatever the nesting of its connectives; and a program compiled from the text
  computes the meaning of the expression it was printed from.
\<close>

theorem printed_expression_compiles:
  assumes "wf_expr e" and "length (show_expr e) < max_source"
  shows "(\<exists>ts e'. lex (ascii (show_expr e)) = Ok ts \<and> parse ts = Ok e' \<and> erase e' = erase e) \<and>
    (\<forall>prog. compile (ascii (show_expr e)) lt snaplen = Ok prog \<longrightarrow>
       (\<forall>p. program_run prog p = verdict snaplen (source_eval (mk_ctx lt) e p)))"
  using print_parse [OF assms(1)] compile_printed [OF assms] by blast

theorem printed_expression_compiles_witness:
  "\<exists>ts e'. lex (ascii (show_expr (ENot (EEther multicast_kind) (Range 0 0)))) = Ok ts \<and>
     parse ts = Ok e' \<and> erase e' = erase (ENot (EEther multicast_kind) (Range 0 0))"
  using printed_expression_compiles [of "ENot (EEther multicast_kind) (Range 0 0)"]
  by (simp add: show_expr_def tags_text_def max_source_def)

text \<open>
  C8. Up to thirteen resolved primitives, and so any single primitive or two of them, never run into the
  one-byte limit of conditional jumps: a source that nothing in is refused compiles, to a program of
  exactly the size that the sizes of its primitives add up to, and two returns.
\<close>

theorem few_primitives_compile:
  assumes "length src < max_source" and "lex src = Ok toks" and "parse toks = Ok e"
    and "expand e = Ok x" and "leaves x \<le> 13" and "source_refusal lt e = None"
  shows "\<exists>prog. compile src lt snaplen = Ok prog \<and>
    length (instructions prog) = code_size (mk_ctx lt) x + 2"
  by (rule compile_few_leaves [OF assms])

theorem few_primitives_compile_witness:
  "\<exists>prog. compile port_src Raw 7 = Ok prog \<and> length (instructions prog) = 19"
  using few_primitives_compile [OF small_port lex_port_src parse_port_tokens expand_port, of Raw 7]
  by (simp add: resolutions_def default_protos_def default_dirs_def leaf_refusal_def port_refusal_def
      leaf_size_def ports_size_def gate_size_def port_size_def mk_ctx_def)

text \<open>
  C9. The exact limit for \<open>port\<close> primitives without protocol and direction, joined by \<open>or\<close> in any nesting:
  three of them compile on Ethernet and on Linux cooked captures and two on raw links, to 79 or 89
  instructions each and two returns; one more never compiles, because a comparison is too far from the
  accepting return.
\<close>

theorem bare_ports_threshold:
  assumes "length src < max_source" and "lex src = Ok toks" and "parse toks = Ok e"
    and "bare_ports e"
  shows "if expr_leaves e \<le> (if lt = Raw then 2 else 3)
    then \<exists>prog. compile src lt snaplen = Ok prog \<and>
      length (instructions prog) = (if lt = Raw then 89 else 79) * expr_leaves e + 2
    else \<exists>ofs idx d. compile src lt snaplen = Err (new_error ofs (JumpDisplacementOverflow idx d))"
  using compile_bare_ports_threshold [OF assms, of lt snaplen] compile_bare_ports_length [OF assms(2-4), of lt snaplen]
  unfolding most_bare_ports_def bare_size_link by metis

theorem bare_ports_threshold_witness:
  "\<exists>ofs idx d. compile ports_src Ethernet 100 = Err (new_error ofs (JumpDisplacementOverflow idx d))"
  using bare_ports_threshold [OF small_ports lex_ports parse_ports, of Ethernet 100] by simp

text \<open>
  C10. No compiled program accepts the empty packet, whatever the expression: every leaf reads the
  packet before it decides, and a read out of range rejects even under a negation.
\<close>

theorem empty_packet_rejected:
  assumes "length src < max_source" and "compile src lt snaplen = Ok prog"
  shows "\<not> program_matches prog []"
  using compile_Ok [OF assms] by (metis program_matches_def source_eval_empty verdict_def option.distinct(1))

theorem empty_packet_rejected_witness: "\<not> program_matches (from_validated multicast_insns) []"
  by (rule empty_packet_rejected [OF small_multicast compile_multicast])

text \<open>
  C11. What a compiled program accepts, whatever the length of the packet, is described by the expression
  when the packet is continued with zeros: a short packet is never accepted by mistake.
\<close>

theorem accepted_packet_described:
  assumes "length src < max_source" and "lex src = Ok toks" and "parse toks = Ok e"
    and "compile src lt snaplen = Ok prog" and "program_matches prog p"
  shows "says lt e (p @ replicate 80 0)"
  by (rule compile_accepts [OF assms])

theorem accepted_packet_described_witness:
  "says Ethernet (EEther multicast_kind) ([1] @ replicate 80 0)"
proof (rule accepted_packet_described [OF small_multicast lex_multicast parse_multicast compile_multicast])
  have "source_eval (mk_ctx Ethernet) (EEther multicast_kind) [1] = Some True"
    by (simp add: eval_ether_def holds_def read_u8_def get_def ETH_DST_MAC_OFFSET_def)
  then show "program_matches (from_validated multicast_insns) [1]"
    using compile_run [OF small_multicast lex_multicast parse_multicast compile_multicast, of "[1]"]
    by (simp add: program_matches_def verdict_def)
qed




section \<open>Code generation\<close>

text \<open>
  C13. The generated intermediate program, executed on any packet, returns the verdict of the
  expression: every gate, terminal, negation and jump of \<open>compile_expr\<close> together.
\<close>

theorem generate_verdict:
  assumes "generate x lt snaplen = Ok ir"
  shows "ir_exec p (prog_stream ir) 0 0 = Done (verdict snaplen (eval (mk_ctx lt) x p))"
  by (rule generate_exec [OF assms])

theorem generate_verdict_witness:
  "ir_exec [1] (prog_stream multicast_ir) 0 0 = Done 100"
  using generate_verdict [OF generate_multicast, of "[1]"]
  by (simp add: verdict_def eval_ether_def read_u8_def get_def ETH_DST_MAC_OFFSET_def)

text \<open>
  C14. Generated code is well-formed: every label that was allocated is placed exactly once, and every
  jump goes forward to a label that is placed.
\<close>

theorem generate_well_formed:
  assumes "generate x lt snaplen = Ok ir"
  shows "labels_placed_once ir \<and> scoped {} (prog_stream ir)"
  using generate_wf_program [OF assms] by (simp add: wf_program_def)

theorem generate_well_formed_witness:
  "labels_placed_once port_ir \<and> scoped {} (prog_stream port_ir)"
  by (rule generate_well_formed [OF generate_port])



text \<open>
  C16. The size of the code is known before it is generated: exactly what the primitives cost, where a
  pair of directions shares its prologue and connectives are free, and two returns. It is linear: at
  most 19 instructions for each primitive, and with the labels at most 41.
\<close>

theorem generate_linear:
  assumes "generate x lt snaplen = Ok ir"
  shows "length (reals (prog_stream ir)) = code_size (mk_ctx lt) x + 2 \<and>
    code_size (mk_ctx lt) x \<le> 19 * leaves x \<and>
    length (reals (prog_stream ir)) + prog_num_labels ir \<le> 41 * leaves x + 3"
  using generate_code_size [OF assms] generate_code_size_le [OF assms] generate_size [OF assms] by simp

theorem generate_linear_witness:
  "length (reals (prog_stream port_ir)) = code_size (mk_ctx Ethernet) (Leaf port_leaf) + 2"
  using generate_linear [OF generate_port] by simp

text \<open>
  C17. Sharing the prologue of two primitives that differ only in direction does not change what a
  packet is worth: the shared code and the code of the two separate primitives (a double negation
  hides them from the sharing) give the same result on every packet, also where a read fails.
\<close>

theorem prologue_sharing:
  assumes "generate (XOr (Leaf p1) (Leaf p2)) lt snaplen = Ok shared"
    and "generate (XOr (Leaf p1) (XNot (XNot (Leaf p2)))) lt snaplen = Ok separate"
  shows "ir_exec p (prog_stream shared) 0 0 = ir_exec p (prog_stream separate) 0 0"
  using generate_exec [OF assms(1)] generate_exec [OF assms(2)] by simp

theorem prologue_sharing_witness:
  "\<exists>shared separate.
     generate (XOr (Leaf port_leaf) (Leaf (port_leaf\<lparr>cp_dir := Src\<rparr>))) Ethernet 100 = Ok shared \<and>
     generate (XOr (Leaf port_leaf) (XNot (XNot (Leaf (port_leaf\<lparr>cp_dir := Src\<rparr>))))) Ethernet 100 =
       Ok separate \<and>
     ir_exec [] (prog_stream shared) 0 0 = ir_exec [] (prog_stream separate) 0 0"
proof -
  have ok: "is_ok (generate (XOr (Leaf port_leaf) e) Ethernet 100)"
    if "wf_expanded e" "first_refusal Ethernet e = None" for e
    using generate_outcome [of "XOr (Leaf port_leaf) e" Ethernet 100] that
    by (simp add: expr_outcome_def leaf_refusal_def port_refusal_def)
  obtain shared where shared:
    "generate (XOr (Leaf port_leaf) (Leaf (port_leaf\<lparr>cp_dir := Src\<rparr>))) Ethernet 100 = Ok shared"
    using ok [of "Leaf (port_leaf\<lparr>cp_dir := Src\<rparr>)"]
    by (auto simp: is_ok_Ok leaf_refusal_def port_refusal_def)
  obtain separate where separate:
    "generate (XOr (Leaf port_leaf) (XNot (XNot (Leaf (port_leaf\<lparr>cp_dir := Src\<rparr>))))) Ethernet 100 =
      Ok separate"
    using ok [of "XNot (XNot (Leaf (port_leaf\<lparr>cp_dir := Src\<rparr>)))"]
    by (auto simp: is_ok_Ok leaf_refusal_def port_refusal_def)
  from prologue_sharing [OF shared separate, of "[]"] shared separate show ?thesis by blast
qed



text \<open>
  C19. A bare IPv4 \<open>host\<close> or \<open>net\<close> never compiles on a raw-IP link: its defaults include ARP and RARP,
  which need an ethertype field, so a source that consists of one is an error at its offset.
\<close>

theorem raw_bare_v4_is_an_error:
  assumes "length src < max_source" and "lex src = Ok toks" and "parse toks = Ok (EPrimitive pr)"
    and "prim_proto pr = None" and "prim_ty pr \<in> {Host (V4 a), Net (V4 a) n}"
  shows "compile src Raw snaplen = Err (refuse (prim_offset pr) NeedsEthertype)"
  using compile_parsed_outcome [OF assms(1-3), of Raw snaplen] raw_bare_v4_refused [OF assms(4,5)]
  by simp

theorem raw_bare_v4_is_an_error_witness:
  "compile host_src Raw 100 = Err (refuse (Range 0 12) NeedsEthertype)"
  using raw_bare_v4_is_an_error [OF small_host lex_host parse_host] by simp

section \<open>Assembling\<close>

text \<open>
  C20. The assembler refines the symbolic program: the assembled instructions, run by the interpreter,
  return what the intermediate program returns.
\<close>

theorem assembler_refines:
  assumes "wf_program ir" and "small_program ir" and "assemble ir = Ok insns"
  shows "run insns p = outcome_value (ir_exec p (prog_stream ir) 0 0)"
  by (rule assemble_refines [OF assms])

theorem assembler_refines_witness:
  "run port_insns tcp80_packet = outcome_value (ir_exec tcp80_packet (prog_stream port_ir) 0 0)"
  by (rule assembler_refines [OF generate_wf_program [OF generate_port] _ assemble_port])
     (simp add: small_program_def)

text \<open>
  C21. The assembler fails exactly on the first conditional jump, true target before false target,
  whose displacement exceeds 255, and reports its index and displacement at its source offset.
\<close>

theorem assembler_outcome:
  assumes "wf_program ir" and "small_program ir"
  shows "case first_overflow (prog_stream ir) 0 (reals (prog_stream ir)) of
      None \<Rightarrow> \<exists>insns. assemble ir = Ok insns
    | Some err \<Rightarrow> assemble ir = Err err"
  by (rule assemble_outcome [OF assms])

theorem assembler_outcome_witness:
  "case first_overflow (prog_stream port_ir) 0 (reals (prog_stream port_ir)) of
      None \<Rightarrow> \<exists>insns. assemble port_ir = Ok insns
    | Some err \<Rightarrow> assemble port_ir = Err err"
  by (rule assembler_outcome [OF generate_wf_program [OF generate_port]])
     (simp add: small_program_def)

section \<open>The interpreter\<close>

text \<open>
  C22. The interpreter never leaves a valid program: its program counter is inside at every reachable
  state, so it ends at a return or at a read outside the packet, never by running off the end.
\<close>

theorem interpreter_stays_inside:
  assumes "valid_program insns" and "reaches insns p n s"
  shows "reg_pc s < length insns"
  by (rule valid_reaches [OF assms])

theorem interpreter_stays_inside_witness:
  "reg_pc (vm_init\<lparr>reg_a := 1, reg_pc := 1\<rparr>) < length multicast_insns"
proof (rule interpreter_stays_inside [OF _ first_turn])
  show "valid_program multicast_insns"
    using compile_valid [OF small_multicast compile_multicast] by (simp add: from_validated_def)
qed

text \<open>
  C23. The interpreter stops on every program, valid or not, and every packet: after at most as many
  turns as the program has instructions it reaches the state whose step returns the result of \<open>run\<close>.
\<close>

theorem interpreter_stops:
  "\<exists>n s. n \<le> length insns \<and> reaches insns p n s \<and> vm_step insns p s = Return (run insns p)"
  by (rule run_stops)

text \<open>
  C24. A packet that a program accepts is accepted with the same verdict however it continues: reads
  inside a packet do not depend on what follows.
\<close>

theorem verdict_stable:
  assumes "run insns p \<noteq> 0"
  shows "run insns (p @ q) = run insns p"
  by (rule run_append [OF assms])

theorem verdict_stable_witness: "run [ldb_abs 0, jset 1 0 1, ret 7, ret 0] ([1] @ [2]) = 7"
proof -
  have "run [ldb_abs 0, jset 1 0 1, ret 7, ret 0] [1] = 7" by code_simp
  with verdict_stable [of "[ldb_abs 0, jset 1 0 1, ret 7, ret 0]" "[1]" "[2]"] show ?thesis by simp
qed

text \<open>
  C25. The index register always holds an IPv4 header length: a multiple of four, at most 60. So the
  offset of an indexed load never wraps.
\<close>

theorem index_register_bounded:
  assumes "reaches insns p n s"
  shows "\<exists>k \<le> 15. unat (reg_x s) = 4 * k"
  by (rule reaches_x [OF assms])

theorem index_register_bounded_witness:
  "\<exists>k \<le> 15. unat (reg_x (vm_init\<lparr>reg_x := 20, reg_pc := 1\<rparr>)) = 4 * k"
  by (rule index_register_bounded [OF msh_turn])

section \<open>The programs under \<open>examples/\<close>\<close>





text \<open>
  C28. A port primitive, alone in a source and not refused on Ethernet, compiles to a program that matches a
  frame of \<open>eth_ipv4\<close> or \<open>eth_ipv6\<close> exactly when the primitive is meant for the protocol and the ports the
  frame was built from, and a frame of \<open>eth_ipv4_fragment\<close> only if the fragment is the first one.
\<close>

theorem port_filters_decide_frames:
  assumes "length src < max_source" and "lex src = Ok toks" and "parse toks = Ok (EPrimitive pr)"
    and "source_refusal Ethernet (EPrimitive pr) = None" and "snaplen \<noteq> 0"
    and "port_bounds (prim_ty pr) = Some (lo, hi)"
  shows "\<exists>prog. compile src Ethernet snaplen = Ok prog \<and>
    (\<forall>f. eth_ipv4 p s d sp dp = Ok f \<longrightarrow> program_matches prog f = wants_ports pr p sp dp) \<and>
    (\<forall>f. eth_ipv4_fragment p s d units = Ok f \<longrightarrow>
       program_matches prog f = (units AND 0x1fff = 0 \<and> wants_ports pr p 4000 80)) \<and>
    (\<forall>f. eth_ipv6 p s6 d6 sp dp = Ok f \<longrightarrow> program_matches prog f = wants_ports pr p sp dp)"
  by (rule port_frames [OF assms])

theorem port_filters_decide_frames_witness:
  "\<exists>f. eth_ipv4 6 (10, 0, 0, 1) (10, 0, 0, 2) 4000 80 = (Ok f :: packet res) \<and>
     program_matches (from_validated port_insns) f"
proof -
  obtain f where f: "eth_ipv4 6 (10, 0, 0, 1) (10, 0, 0, 2) 4000 80 = (Ok f :: packet res)"
    using frames_ok(1) by blast
  have "wants_ports port_primitive 6 4000 80"
    by (simp add: wants_ports_def default_protos_def default_dirs_def port_proto_num_def codegen_constants)
  moreover have "source_refusal Ethernet (EPrimitive port_primitive) = None"
    by (simp add: refusal_steps)
  ultimately show ?thesis
    using port_filters_decide_frames [OF small_port lex_port_src parse_port_tokens, of 100 80 80 6] f compile_port_src
    by fastforce
qed

text \<open>
  C29. What \<open>tcpdump -ddd\<close> prints of a program, a count and four decimal numbers for each instruction, is
  read back as the same instructions.
\<close>

theorem tcpdump_listing_read_back:
  assumes "run_command c ''tcpdump'' [''-ddd'', ''-y'', ''EN10MB'', fltr] (system w) = (Ok out, s')"
    and "status_success out" and "map unat (stdout_bytes out) = utf8 (show_ddd insns)"
    and "length insns < 2 ^ 60"
  shows "tcpdump_compile c fltr w = (Ok (insns, show_ddd insns), w\<lparr>system := s'\<rparr>)"
  by (rule tcpdump_compile_show [OF assms])

theorem tcpdump_listing_read_back_witness:
  "\<exists>w. tcpdump_compile (example_host (\<lambda>f. port_insns)) ''tcp dst port 80'' w =
     (Ok (port_insns, show_ddd port_insns), w)"
proof -
  let ?w = "\<lparr>system = Map.empty, stdout = [], stderr = []\<rparr> :: sockets world"
  let ?out = "\<lparr>status_success = True, stdout_bytes = map of_nat (show_ddd port_insns), stderr_bytes = []\<rparr>"
  have "tcpdump_compile (example_host (\<lambda>f. port_insns)) ''tcp dst port 80'' ?w =
      (Ok (port_insns, show_ddd port_insns), ?w\<lparr>system := Map.empty\<rparr>)"
    by (rule tcpdump_listing_read_back [of _ _ _ ?out])
       (simp_all add: example_host_def ddd_bytes del: map_map)
  then show ?thesis by auto
qed

text \<open>
  C30. \<open>cbpf_dump\<close> on an ASCII filter always returns, and prints either the usage text, or the listing
  of the compiled program, or the error with the offending characters of the filter underlined:
  below \<open>a @ s @ b\<close> as many blanks as \<open>a\<close> is long and as many carets as \<open>s\<close> is long, at least one.
\<close>

theorem dump_underlines:
  assumes "\<forall>c \<in> set (join_spaces (drop 1 args)). c < 128" and "length (join_spaces (drop 1 args)) < max_source"
  shows "(join_spaces (drop 1 args) = [] \<and>
      dump_main args = Ok \<lparr>dump_success = False, dump_out = [], dump_err = [dump_usage]\<rparr>) \<or>
    (\<exists>prog. compile (join_spaces (drop 1 args)) Ethernet KEEP_WHOLE_PACKET = Ok prog \<and>
      dump_main args = Ok \<lparr>dump_success = True, dump_out = [display prog], dump_err = []\<rparr>) \<or>
    (\<exists>err a s b. compile (join_spaces (drop 1 args)) Ethernet KEEP_WHOLE_PACKET = Err err \<and>
      join_spaces (drop 1 args) = a @ s @ b \<and>
      dump_main args = Ok \<lparr>dump_success = False, dump_out = [],
        dump_err = [''error: '' @ show_compile_error err, ''  '' @ bytes_of (a @ s @ b),
          ''  '' @ replicate (length a) CHR '' '' @ replicate (max (length s) 1) CHR ''^'']\<rparr>)"
  by (rule dump_cases [OF assms])

theorem dump_underlines_witness:
  "\<exists>d. dump_main [ascii ''cbpf_dump'', ascii ''tcp dst port 80''] = Ok d"
proof -
  have *: "join_spaces (drop 1 [ascii ''cbpf_dump'', ascii ''tcp dst port 80'']) = port_src" by simp
  have "\<forall>c \<in> set port_src. c < 128" by (simp add: ascii_def)
  from dump_underlines [of "[ascii ''cbpf_dump'', ascii ''tcp dst port 80'']", unfolded *, OF this small_port]
  show ?thesis by blast
qed

section \<open>Default expansion\<close>

text \<open>
  C31. Expansion succeeds on every tree, keeps it well-formed and its refusals where they were, and
  makes at most six primitives of each.
\<close>

theorem expansion_total:
  "\<exists>x. expand e = Ok x \<and> leaves x \<le> 6 * expr_leaves e \<and> first_refusal lt x = source_refusal lt e \<and>
     wf_expanded x = wf_expr e"
  using expand_correct [of e] by auto

text \<open>
  C32. An expanded expression means what the source says: a primitive that leaves its protocol or its
  direction out is the disjunction, from left to right, over the defaults of its type.
\<close>

theorem expansion_meaning:
  assumes "expand e = Ok x"
  shows "eval ctx x p = source_eval ctx e p"
  by (rule expand_eval [OF assms])

theorem expansion_meaning_witness:
  "eval (mk_ctx Raw) (Leaf port_leaf) [] = source_eval (mk_ctx Raw) (EPrimitive port_primitive) []"
  by (rule expansion_meaning [OF expand_port])

section \<open>Front end\<close>

text \<open>
  C33. The tokenizer returns a token sequence exactly when it is the tokenization of the source: blank
  text between spellings, words as long as possible, byte positions in the UTF-8 text, and \<open>Eof\<close>.
\<close>

theorem lexer_specification: "lex src = Ok ts \<longleftrightarrow> tokenizes 0 src ts"
  by (rule lex_tokenizes)

text \<open>
  C34. The tokenizer fails exactly at a character at which no token begins, and points at its first
  byte. The range it reports is always one byte long, so for a character outside ASCII it ends inside the
  character, where the source cannot be sliced.
\<close>

theorem lexer_error_position:
  assumes "lex src = Err err"
  shows "\<exists>pre c post. src = pre @ c # post \<and> \<not> is_whitespace c \<and>
    (\<nexists>tag s rest. c # post = s @ rest \<and> spells tag s \<and> maximal s rest) \<and>
    err = new_error (Range (str_len pre) (str_len pre + 1)) (UnexpectedChar c) \<and>
    (boundary src (str_len pre + 1) \<longleftrightarrow> c < 128)"
  by (rule lex_error_boundary [OF assms])

theorem lexer_error_position_witness:
  "lex [0xe9] = Err (new_error (Range 0 1) (UnexpectedChar 0xe9)) \<and> \<not> boundary [0xe9] 1"
proof -
  have *: "lex [0xe9] = Err (new_error (Range 0 1) (UnexpectedChar 0xe9))"
    by (simp add: lex_def lex_loop.simps is_whitespace_def is_word_char_code)
  from lexer_error_position [OF *] show ?thesis by (auto simp: * new_error_def Cons_eq_append_conv)
qed

text \<open>
  C35. A token's byte range cuts its spelling out of the source: slicing the UTF-8 text of the source
  at the range never splits a character and gives what the token spells.
\<close>

theorem token_ranges:
  assumes "lex src = Ok ts" and "t \<in> set ts" and "tok_tag t \<noteq> Eof"
  shows "\<exists>s. spells (tok_tag t) s \<and>
    get_range (utf8 src) (off_start (tok_offset t)) (off_end (tok_offset t)) = Some (utf8 s)"
  by (rule lex_slice [OF assms])

theorem token_ranges_witness:
  "\<exists>s. spells (Word ''multicast'') s \<and> get_range (utf8 multicast_src) 6 15 = Some (utf8 s)"
  using token_ranges [OF lex_multicast, of "mk_token (Word ''multicast'') 6 15"]
  by (simp add: mk_token_def)

text \<open>
  C36. The recursive-descent parser decides the grammar: it returns a tree exactly when the tokens up
  to \<open>Eof\<close> derive it, with \<open>or\<close> weaker than \<open>and\<close>, both associating to the left, and \<open>not\<close> strongest.
\<close>

theorem parser_specification:
  assumes "ends_in_eof toks"
  shows "parse toks = Ok e \<longleftrightarrow> or_expr toks 0 e (length toks - 1)"
  by (rule parse_grammar [OF assms])

theorem parser_specification_witness:
  "or_expr multicast_tokens 0 (EEther multicast_kind) (length multicast_tokens - 1)"
  by (rule parser_specification [THEN iffD1, OF _ parse_multicast])
     (simp add: ends_in_eof_def mk_token_def)

text \<open>
  C37. The parser always returns on a token stream that ends in \<open>Eof\<close>, never reads past it, and every
  tree it returns is well-formed: prefix lengths fit their address, port ranges are not empty; and it
  has at most as many primitives as there are tokens.
\<close>

theorem parser_total:
  assumes "ends_in_eof toks"
  shows "case parse toks of
      Ok e \<Rightarrow> wf_expr e \<and> expr_leaves e \<le> length toks
    | Err err \<Rightarrow> True | Panic \<Rightarrow> False | Diverge \<Rightarrow> False"
  using parse_yields [OF assms] by (auto simp: yields_def split: result.splits)

theorem parser_total_witness: "wf_expr (EPrimitive port_primitive)"
  using parser_total [of port_tokens] parse_port_tokens by (simp add: ends_in_eof_def mk_token_def)

section \<open>Literals and tables\<close>

text \<open>
  C38. Literals are read back from their usual notation: dotted IPv4 addresses, alone and with any
  prefix length up to 32, IPv6 addresses of eight hexadecimal groups, alone and with any prefix length up
  to 128, MAC addresses, port numbers and hexadecimal ethertypes.
\<close>

theorem literal_roundtrips:
  assumes "n \<le> 32" and "length gs = 8" and "k \<le> 128"
  shows "parse_addr_literal (dotted a b c d) ofs allow = Ok (V4 (u32_from_be_bytes a b c d), None) \<and>
    parse_addr_literal (dotted a b c d @ ''/'' @ show_dec (unat n)) ofs True =
      Ok (V4 (u32_from_be_bytes a b c d), Some n) \<and>
    parse_addr_literal (show_groups gs) ofs allow = Ok (V6 (ipv6_of_groups gs), None) \<and>
    parse_addr_literal (show_groups gs @ ''/'' @ show_dec (unat k)) ofs True =
      Ok (V6 (ipv6_of_groups gs), Some k) \<and>
    parse_mac_literal (show_mac m) ofs = Ok m \<and>
    parse_port (show_dec (unat q)) ofs = Ok q \<and>
    parse_ethertype (''0x'' @ show_hex (unat v)) ofs = Ok v"
  using parse_addr_dotted parse_addr_dotted_prefix [OF assms(1)] parse_addr_groups [OF assms(2)]
    parse_addr_groups_prefix [OF assms(2,3)] parse_mac_show parse_port_show parse_ethertype_hex
  by blast

theorem literal_roundtrips_witness:
  "parse_addr_literal (dotted 10 0 0 1 @ ''/'' @ show_dec 8) (Range 0 10) True = Ok (V4 0x0a000001, Some 8) \<and>
   parse_addr_literal (show_groups [0xfe80, 0, 0, 0, 0, 0, 0, 1]) (Range 0 10) True =
     Ok (V6 (ipv6_of_groups [0xfe80, 0, 0, 0, 0, 0, 0, 1]), None)"
  using literal_roundtrips [of 8 "[0xfe80, 0, 0, 0, 0, 0, 0, 1]" 64 10 0 0 1 "Range 0 10" True]
  by (simp add: u32_from_be_bytes_def)

section \<open>The repository's own tests\<close>




end
